theory Spec2Isabelle
  imports Complex_Main "HOL-Library.Signed_Division" "HOL-Library.AList"
begin

section \<open>Numbers\<close>

text \<open>
  The program is TypeScript: every number is an IEEE double. The embedding reads the
  numbers as mathematical values: coordinates, sizes, speeds and times are \<open>real\<close>,
  chunk coordinates, seeds, counts and ids are \<open>int\<close>. The movement engine takes its
  arithmetic as a parameter, so that a tick can be computed over the real numbers or with
  every operation rounded to a double. The integer arithmetic of the
  random generator is exact in doubles as long as \<open>state * 9301 + 49297\<close> stays below
  \<open>2 ^ 53\<close>, which holds from the second call on (the state is then below 233280) and
  for every seed \<open>chunkX * 10000 + chunkY\<close> of a chunk the world can hold.
\<close>

section \<open>The seeded random generator (src/utils/worldGenerator.ts)\<close>

text \<open>
  \<^verbatim>\<open>const createSeededRandom = (seed) => { let state = seed;
     return () => { state = (state * 9301 + 49297) % 233280; return state / 233280; }; }\<close>

  The closure is its captured variable \<open>state\<close>: \<open>createSeededRandom\<close> gives the
  initial state and \<open>random\<close> is one call, returning the value and the new state.
  JavaScript's \<open>%\<close> truncates (the result has the sign of the dividend): \<open>smod\<close>.
\<close>

definition createSeededRandom :: "int \<Rightarrow> int" where
  "createSeededRandom seed = seed"

definition random :: "int \<Rightarrow> real \<times> int" where
  "random state =
     (let state' = (state * 9301 + 49297) smod 233280
      in (real_of_int state' / 233280, state'))"

text \<open>The state after \<open>n\<close> calls of the generator.\<close>

fun stateAfter :: "nat \<Rightarrow> int \<Rightarrow> int" where
  "stateAfter 0 state = state"
| "stateAfter (Suc n) state = snd (random (stateAfter n state))"

section \<open>Player movement (the hook useGameEngine)\<close>

subsection \<open>The arithmetic of the engine\<close>

text \<open>
  A JavaScript number is an IEEE-754 binary64 value, and every arithmetic operation of the
  engine returns its exact result rounded to the nearest such value, ties to the even
  significand. \<open>roundEven\<close> rounds a real number to the nearest integer, ties to the even
  one; \<open>double x\<close> scales \<open>x\<close> by the power of two that brings its magnitude into
  \<open>[2 ^ 52, 2 ^ 53)\<close>, rounds, and scales back: the nearest number with a significand of 53
  bits. The exponent is not bounded: \<open>double\<close> is the rounding of binary64 for every \<open>x\<close>
  with \<open>2 ^ -1022 \<le> \<bar>x\<bar> < 2 ^ 1024\<close> and for 0 (no overflow to \<open>Infinity\<close>, no subnormal
  number, no \<open>NaN\<close>).

  The functions of the engine take the arithmetic as their first argument, and \<open>rnd\<close>
  follows each operation: in the arithmetic \<open>Double\<close> they compute what the code computes,
  in the arithmetic \<open>Exact\<close> (no rounding) they compute over the real numbers. A literal
  that is not a binary fraction (\<open>16.67\<close>, \<open>0.15\<close>, \<open>0.1\<close>) is rounded as well; \<open>Math.min\<close>, \<open>Math.max\<close> and
  comparisons are exact; \<open>Math.pow(d, 2)\<close> is taken as the rounded square.
\<close>

definition roundEven :: "real \<Rightarrow> int" where
  "roundEven x =
     (let f = \<lfloor>x\<rfloor>; d = x - of_int f
      in if d < 1 / 2 then f else if d > 1 / 2 then f + 1 else if even f then f else f + 1)"

definition double :: "real \<Rightarrow> real" where
  "double x =
     (if x = 0 then 0
      else (let e = \<lfloor>log 2 \<bar>x\<bar>\<rfloor>
            in of_int (roundEven (x * 2 powi (52 - e))) * 2 powi (e - 52)))"

datatype Arithmetic = Exact | Double

fun rnd :: "Arithmetic \<Rightarrow> real \<Rightarrow> real" where
  "rnd Exact x = x"
| "rnd Double x = double x"

subsection \<open>State and configuration\<close>

record Position =
  pos_x :: real
  pos_y :: real

datatype Direction = Up | Down | Left | Right

record Hitbox =
  hb_left :: real
  hb_right :: real
  hb_top :: real
  hb_bottom :: real

record GameConfig =
  viewportWidth :: real
  viewportHeight :: real
  characterSize :: real
  movementSpeed :: real
  worldWidth :: real
  worldHeight :: real
  chunkSize :: real
  renderDistance :: int
  timeScale :: real

text \<open>\<open>KeysPressed\<close> is an object indexed by key name; a key that was never pressed reads
  \<open>undefined\<close>, which is false in a condition.\<close>

type_synonym KeysPressed = "string \<Rightarrow> bool"

text \<open>
  The state of the hook that \<open>updatePlayerMovement\<close> reads and writes.
  \<open>playerPosition\<close> is the rendered position; the refs \<open>playerPositionRef\<close>,
  \<open>directionRef\<close> and \<open>isMovingRef\<close> are assigned from the state on every render, so a
  tick, which runs after the render of the tick before, reads the state itself.
\<close>

record Engine =
  playerPosition :: Position
  direction :: Direction
  isMoving :: bool
  animationFrame :: int
  animationTimer :: real
  lastFrameTime :: real
  targetPosition :: Position

definition initialEngine :: "Arithmetic \<Rightarrow> GameConfig \<Rightarrow> Engine" where
  "initialEngine ar config =
     \<lparr>playerPosition = \<lparr>pos_x = rnd ar (worldWidth config / 2),
                        pos_y = rnd ar (worldHeight config / 2)\<rparr>,
      direction = Down,
      isMoving = False,
      animationFrame = 0,
      animationTimer = 0,
      lastFrameTime = 0,
      targetPosition = \<lparr>pos_x = rnd ar (worldWidth config / 2),
                        pos_y = rnd ar (worldHeight config / 2)\<rparr>\<rparr>"

subsection \<open>Collision test and time step\<close>

text \<open>The loop of \<open>checkCollision\<close> over the stored obstacle hitboxes.\<close>

fun hitsObject :: "Hitbox \<Rightarrow> Hitbox list \<Rightarrow> bool" where
  "hitsObject playerHitbox [] = False"
| "hitsObject playerHitbox (obj # objs) =
     (if hb_right playerHitbox > hb_left obj \<and> hb_left playerHitbox < hb_right obj
         \<and> hb_bottom playerHitbox > hb_top obj \<and> hb_top playerHitbox < hb_bottom obj
      then True
      else hitsObject playerHitbox objs)"

definition checkCollision ::
  "Arithmetic \<Rightarrow> GameConfig \<Rightarrow> Hitbox list \<Rightarrow> real \<Rightarrow> real \<Rightarrow> bool" where
  "checkCollision ar config collisionObjects x y =
     (let playerHitbox =
            \<lparr>hb_left = rnd ar (x + 16),
             hb_right = rnd ar (rnd ar (x + characterSize config) - 16),
             hb_top = rnd ar (y + rnd ar (characterSize config / 2)),
             hb_bottom = rnd ar (rnd ar (y + characterSize config) - 8)\<rparr>
      in if hitsObject playerHitbox collisionObjects then True
         else if hb_left playerHitbox < 0 \<or> hb_right playerHitbox > worldWidth config
                 \<or> hb_top playerHitbox < 0 \<or> hb_bottom playerHitbox > worldHeight config
         then True
         else False)"

text \<open>
  The time step of a tick: \<open>lastFrameTime.current ? time - lastFrameTime.current : 16.67\<close>
  (zero is the only real number that is false in a condition), cut at 100.
\<close>

definition clampedDeltaTime :: "Arithmetic \<Rightarrow> Engine \<Rightarrow> real \<Rightarrow> real" where
  "clampedDeltaTime ar e time =
     (let deltaTime = (if lastFrameTime e \<noteq> 0 then rnd ar (time - lastFrameTime e)
                       else rnd ar 16.67)
      in min deltaTime 100)"

subsection \<open>Smoothing\<close>

text \<open>
  The smoothing block at the end of a tick: the rendered position \<open>currentPos\<close> moves
  towards \<open>targetPos\<close> unless the squared distance is at most 0.1.
\<close>

definition distanceSquared :: "Arithmetic \<Rightarrow> Position \<Rightarrow> Position \<Rightarrow> real" where
  "distanceSquared ar currentPos targetPos =
     rnd ar (rnd ar ((rnd ar (pos_x currentPos - pos_x targetPos))\<^sup>2)
          + rnd ar ((rnd ar (pos_y currentPos - pos_y targetPos))\<^sup>2))"

definition movementSmoothing :: real where
  "movementSmoothing = 0.15"

definition interpolate ::
  "Arithmetic \<Rightarrow> real \<Rightarrow> Position \<Rightarrow> Position \<Rightarrow> Position" where
  "interpolate ar clamped targetPos currentPos =
     (if distanceSquared ar currentPos targetPos > rnd ar 0.1
      then (let factor =
                  min 1.0 (rnd ar (rnd ar movementSmoothing * rnd ar (clamped / rnd ar 16.67)));
                interpolatedX =
                  rnd ar (pos_x currentPos
                          + rnd ar (rnd ar (pos_x targetPos - pos_x currentPos) * factor));
                interpolatedY =
                  rnd ar (pos_y currentPos
                          + rnd ar (rnd ar (pos_y targetPos - pos_y currentPos) * factor))
            in \<lparr>pos_x = interpolatedX, pos_y = interpolatedY\<rparr>)
      else currentPos)"

subsection \<open>The key blocks and a tick\<close>

text \<open>
  The local variables \<open>newX\<close>, \<open>newY\<close>, \<open>newDirection\<close> and \<open>moving\<close> of a tick, which
  the four key blocks assign in turn.
\<close>

record Locals =
  newX :: real
  newY :: real
  newDirection :: Direction
  moving :: bool

text \<open>\<^verbatim>\<open>if (keys['ArrowUp'] || keys['w']) { const testY = Math.max(0, newY - frameSpeed);
    if (!checkCollision(newX, testY)) newY = testY; newDirection = 'up'; moving = true; }\<close>\<close>

definition keyUp ::
  "Arithmetic \<Rightarrow> GameConfig \<Rightarrow> Hitbox list \<Rightarrow> KeysPressed \<Rightarrow> real \<Rightarrow> Locals \<Rightarrow> Locals" where
  "keyUp ar config collisionObjects keys frameSpeed v =
     (if keys ''ArrowUp'' \<or> keys ''w''
      then (let testY = max 0 (rnd ar (newY v - frameSpeed))
            in (if \<not> checkCollision ar config collisionObjects (newX v) testY
                then v\<lparr>newY := testY\<rparr> else v)
               \<lparr>newDirection := Up, moving := True\<rparr>)
      else v)"

definition keyDown ::
  "Arithmetic \<Rightarrow> GameConfig \<Rightarrow> Hitbox list \<Rightarrow> KeysPressed \<Rightarrow> real \<Rightarrow> Locals \<Rightarrow> Locals" where
  "keyDown ar config collisionObjects keys frameSpeed v =
     (if keys ''ArrowDown'' \<or> keys ''s''
      then (let testY = min (rnd ar (worldHeight config - characterSize config))
                             (rnd ar (newY v + frameSpeed))
            in (if \<not> checkCollision ar config collisionObjects (newX v) testY
                then v\<lparr>newY := testY\<rparr> else v)
               \<lparr>newDirection := Down, moving := True\<rparr>)
      else v)"

definition keyLeft ::
  "Arithmetic \<Rightarrow> GameConfig \<Rightarrow> Hitbox list \<Rightarrow> KeysPressed \<Rightarrow> real \<Rightarrow> Locals \<Rightarrow> Locals" where
  "keyLeft ar config collisionObjects keys frameSpeed v =
     (if keys ''ArrowLeft'' \<or> keys ''a''
      then (let testX = max 0 (rnd ar (newX v - frameSpeed))
            in (if \<not> checkCollision ar config collisionObjects testX (newY v)
                then v\<lparr>newX := testX\<rparr> else v)
               \<lparr>newDirection := Left, moving := True\<rparr>)
      else v)"

definition keyRight ::
  "Arithmetic \<Rightarrow> GameConfig \<Rightarrow> Hitbox list \<Rightarrow> KeysPressed \<Rightarrow> real \<Rightarrow> Locals \<Rightarrow> Locals" where
  "keyRight ar config collisionObjects keys frameSpeed v =
     (if keys ''ArrowRight'' \<or> keys ''d''
      then (let testX = min (rnd ar (worldWidth config - characterSize config))
                             (rnd ar (newX v + frameSpeed))
            in (if \<not> checkCollision ar config collisionObjects testX (newY v)
                then v\<lparr>newX := testX\<rparr> else v)
               \<lparr>newDirection := Right, moving := True\<rparr>)
      else v)"

text \<open>The four blocks in the source's order: up, down, left, right.\<close>

definition handleMovementInput ::
  "Arithmetic \<Rightarrow> GameConfig \<Rightarrow> Hitbox list \<Rightarrow> KeysPressed \<Rightarrow> real \<Rightarrow> Locals \<Rightarrow> Locals" where
  "handleMovementInput ar config collisionObjects keys frameSpeed v =
     keyRight ar config collisionObjects keys frameSpeed
       (keyLeft ar config collisionObjects keys frameSpeed
         (keyDown ar config collisionObjects keys frameSpeed
           (keyUp ar config collisionObjects keys frameSpeed v)))"

text \<open>The frame speed of a tick: \<open>(config.movementSpeed * clampedDeltaTime) / 16.67\<close>.\<close>

definition frameSpeedOf :: "Arithmetic \<Rightarrow> GameConfig \<Rightarrow> Engine \<Rightarrow> real \<Rightarrow> real" where
  "frameSpeedOf ar config e time =
     rnd ar (rnd ar (movementSpeed config * clampedDeltaTime ar e time) / rnd ar 16.67)"

text \<open>
  One tick. The target position is written from the locals; the rendered position is
  smoothed towards the target position read at the start of the tick; the animation timer
  and frame advance while moving.
\<close>

definition updatePlayerMovement ::
  "Arithmetic \<Rightarrow> GameConfig \<Rightarrow> Hitbox list \<Rightarrow> KeysPressed \<Rightarrow> real \<Rightarrow> Engine \<Rightarrow> Engine" where
  "updatePlayerMovement ar config collisionObjects keys time e =
     (let clamped = clampedDeltaTime ar e time;
          targetPos = targetPosition e;
          v = handleMovementInput ar config collisionObjects keys (frameSpeedOf ar config e time)
                \<lparr>newX = pos_x targetPos, newY = pos_y targetPos,
                 newDirection = direction e, moving = False\<rparr>;
          timer = rnd ar (animationTimer e + clamped)
      in \<lparr>playerPosition = interpolate ar clamped targetPos (playerPosition e),
          direction = newDirection v,
          isMoving = moving v,
          animationFrame = (if moving v
                            then (if timer > 120 then (animationFrame e + 1) mod 6
                                  else animationFrame e)
                            else 0),
          animationTimer = (if moving v then (if timer > 120 then 0 else timer)
                            else animationTimer e),
          lastFrameTime = time,
          targetPosition = \<lparr>pos_x = newX v, pos_y = newY v\<rparr>\<rparr>)"

text \<open>A tick is a timestamp, the keys held and the obstacle hitboxes stored at that time.\<close>

type_synonym Tick = "real \<times> KeysPressed \<times> Hitbox list"

fun runTicks :: "Arithmetic \<Rightarrow> GameConfig \<Rightarrow> Tick list \<Rightarrow> Engine \<Rightarrow> Engine" where
  "runTicks ar config [] e = e"
| "runTicks ar config ((time, keys, collisionObjects) # ticks) e =
     runTicks ar config ticks (updatePlayerMovement ar config collisionObjects keys time e)"

subsection \<open>Statement definitions and sample inputs\<close>

text \<open>
  The bounds of C4: both coordinates between 0 and the world size less the character, the
  difference \<open>worldWidth - characterSize\<close> computed in the arithmetic of the tick.
\<close>

definition inBounds :: "Arithmetic \<Rightarrow> GameConfig \<Rightarrow> Position \<Rightarrow> bool" where
  "inBounds ar config p \<longleftrightarrow>
     0 \<le> pos_x p \<and> pos_x p \<le> rnd ar (worldWidth config - characterSize config)
     \<and> 0 \<le> pos_y p \<and> pos_y p \<le> rnd ar (worldHeight config - characterSize config)"

text \<open>The bounds of C4 on the local variables of a tick.\<close>

definition localsInBounds :: "Arithmetic \<Rightarrow> GameConfig \<Rightarrow> Locals \<Rightarrow> bool" where
  "localsInBounds ar config v \<longleftrightarrow> inBounds ar config \<lparr>pos_x = newX v, pos_y = newY v\<rparr>"

text \<open>
  The interpolation factor of the smoothing block over the real numbers, and the number of
  ticks after which C7 shows the rendered position arrived: ten times the squared start
  distance divided by the factor, rounded up.
\<close>

definition smoothingFactor :: "real \<Rightarrow> real" where
  "smoothingFactor clamped = min 1.0 (movementSmoothing * (clamped / 16.67))"

definition arrivalBound :: "real \<Rightarrow> Position \<Rightarrow> Position \<Rightarrow> nat" where
  "arrivalBound clamped targetPos currentPos =
     nat \<lceil>10 * distanceSquared Exact currentPos targetPos / smoothingFactor clamped\<rceil>"

text \<open>
  Sample inputs: the configuration of the game component (\<open>GAME_CONFIG\<close>), key sets and
  two ticks.
\<close>

definition gameConfig :: GameConfig where
  "gameConfig =
     \<lparr>viewportWidth = 1024, viewportHeight = 768, characterSize = 64, movementSpeed = 2.5,
      worldWidth = 5000, worldHeight = 5000, chunkSize = 500, renderDistance = 2,
      timeScale = 0.1\<rparr>"

definition holding :: "string list \<Rightarrow> KeysPressed" where
  "holding ks = (\<lambda>k. k \<in> set ks)"

definition idle :: KeysPressed where
  "idle = (\<lambda>k. False)"

text \<open>\<open>n\<close> ticks at the times \<open>t0 + d\<close>, \<open>t0 + 2 d\<close>, ... with no key held.\<close>

definition steadyTicks :: "real \<Rightarrow> real \<Rightarrow> Hitbox list \<Rightarrow> nat \<Rightarrow> Tick list" where
  "steadyTicks t0 d objs n = map (\<lambda>k. (t0 + real k * d, idle, objs)) [1..<Suc n]"

definition sampleTicks :: "Tick list" where
  "sampleTicks = [(16, holding [''ArrowUp''], []), (33, holding [''d'', ''s''], [])]"

definition allKeys :: KeysPressed where
  "allKeys = holding [''w'', ''s'', ''a'', ''d'']"

text \<open>
  A steady run of ticks from a state: the target position is \<open>T\<close> in the state and after
  every tick, and every tick has the clamped time step \<open>c\<close>.
\<close>

fun steady ::
  "Arithmetic \<Rightarrow> GameConfig \<Rightarrow> real \<Rightarrow> Position \<Rightarrow> Tick list \<Rightarrow> Engine \<Rightarrow> bool" where
  "steady ar config c T [] e = (targetPosition e = T)"
| "steady ar config c T ((time, keys, collisionObjects) # ticks) e =
     (targetPosition e = T \<and> clampedDeltaTime ar e time = c
      \<and> steady ar config c T ticks (updatePlayerMovement ar config collisionObjects keys time e))"

text \<open>
  Sample states and ticks: over the real numbers, the session start after one tick with
  the up key held, and a state whose rendered position lies at squared distance 0.1 from
  its target; two ticks whose timestamps decrease, 20000 and then the literal 3196.64; a
  configuration with a negative movement speed and one tick with the down key held.
\<close>

definition walkedUp :: Engine where
  "walkedUp =
     updatePlayerMovement Exact gameConfig [] (holding [''w'']) 16 (initialEngine Exact gameConfig)"

definition onThreshold :: Engine where
  "onThreshold =
     (initialEngine Exact gameConfig)
       \<lparr>playerPosition := \<lparr>pos_x = 0.3, pos_y = 0.1\<rparr>,
        targetPosition := \<lparr>pos_x = 0, pos_y = 0\<rparr>,
        lastFrameTime := 16\<rparr>"

definition backwardTicks :: "Arithmetic \<Rightarrow> Tick list" where
  "backwardTicks ar = [(20000, idle, []), (rnd ar 3196.64, holding [''s''], [])]"

definition reverseConfig :: GameConfig where
  "reverseConfig = gameConfig\<lparr>movementSpeed := - 2510\<rparr>"

definition downTick :: "Tick list" where
  "downTick = [(16, holding [''s''], [])]"


text \<open>
  A session in the arithmetic of the code: two ticks with the up key held, at the times 16
  and 33, and a third tick at the time 111 with the up and down keys held.
\<close>

definition climbed :: Engine where
  "climbed =
     runTicks Double gameConfig [(16, holding [''w''], []), (33, holding [''w''], [])]
       (initialEngine Double gameConfig)"

definition bothHeld :: KeysPressed where
  "bothHeld = holding [''w'', ''s'']"
section \<open>World elements and chunks (src/types/game.ts)\<close>

text \<open>
  A tree's or bush's colour is the template string
  \<^verbatim>\<open>hsl(${h}, ${s}%, ${l}%)\<close> of three numbers; it is kept as the three numbers. A flower's
  colour is an entry of a palette of hex strings, or \<open>undefined\<close> when the index falls
  outside the palette.
\<close>

datatype Color = Hsl real real real | Hex string | Undefined

text \<open>\<open>size\<close> is optional in \<open>WorldElement\<close>: \<open>None\<close> is an absent size.\<close>

record WorldElement =
  elem_id :: int
  elem_x :: real
  elem_y :: real
  elem_size :: "real option"

record Tree = WorldElement +
  color :: Color
  variant :: int

text \<open>\<open>Bush\<close> has the fields of \<open>Tree\<close>.\<close>

type_synonym Bush = Tree

record Flower = WorldElement +
  flowerColor :: Color

text \<open>
  The object \<open>{trees, bushes, flowers}\<close> of \<open>worldElements\<close>, \<open>newElements\<close> and
  \<open>visibleElements\<close>; a \<open>WorldChunk\<close> has the same three lists besides its coordinates
  (the fields \<open>x\<close> and \<open>y\<close> of the source) and \<open>isLoaded\<close>.
\<close>

record Elements =
  trees :: "Tree list"
  bushes :: "Bush list"
  flowers :: "Flower list"

record WorldChunk = Elements +
  chunk_x :: int
  chunk_y :: int
  isLoaded :: bool

text \<open>\<open>element.size || d\<close>: an absent size and the size 0 both give the default.\<close>

definition sizeOr :: "real \<Rightarrow> 'a WorldElement_scheme \<Rightarrow> real" where
  "sizeOr d element =
     (case elem_size element of None \<Rightarrow> d | Some s \<Rightarrow> if s = 0 then d else s)"

section \<open>The world generator (src/utils/worldGenerator.ts)\<close>

text \<open>The global id counters of the module.\<close>

record IdCounters =
  nextTreeId :: int
  nextBushId :: int
  nextFlowerId :: int

definition initialIds :: IdCounters where
  "initialIds = \<lparr>nextTreeId = 1000000, nextBushId = 2000000, nextFlowerId = 3000000\<rparr>"

text \<open>
  \<open>checkCollisionWithExistingElements\<close>: the loop over the existing elements returns true
  at the first element whose centre is closer than the two radii and the buffer.
\<close>

fun checkCollisionWithExistingElements ::
  "real \<Rightarrow> real \<Rightarrow> real \<Rightarrow> 'a WorldElement_scheme list \<Rightarrow> bool" where
  "checkCollisionWithExistingElements x y sz [] = False"
| "checkCollisionWithExistingElements x y sz (element # existingElements) =
     (let buffer = 10;
          elementSize = sizeOr 10 element;
          distance = sqrt ((x + sz / 2 - (elem_x element + elementSize / 2))\<^sup>2
                           + (y + sz / 2 - (elem_y element + elementSize / 2))\<^sup>2)
      in if distance < sz / 2 + elementSize / 2 + buffer then True
         else checkCollisionWithExistingElements x y sz existingElements)"

text \<open>
  The placement loop \<open>while (!validPosition && attempts < 50)\<close>, by the number of attempts
  left: each attempt draws \<open>x\<close> and \<open>y\<close>; the first position without a collision is returned
  with the generator state, and \<open>None\<close> when all attempts collide.
\<close>

fun findPosition ::
  "nat \<Rightarrow> real \<Rightarrow> real \<Rightarrow> real \<Rightarrow> real \<Rightarrow> 'a WorldElement_scheme list \<Rightarrow> int
     \<Rightarrow> (real \<times> real) option \<times> int" where
  "findPosition 0 chunkX chunkY chunkSz sz existing state = (None, state)"
| "findPosition (Suc attemptsLeft) chunkX chunkY chunkSz sz existing state =
     (let (r1, state1) = random state;
          x = chunkX + of_int \<lfloor>r1 * (chunkSz - sz)\<rfloor>;
          (r2, state2) = random state1;
          y = chunkY + of_int \<lfloor>r2 * (chunkSz - sz)\<rfloor>
      in if \<not> checkCollisionWithExistingElements x y sz existing
         then (Some (x, y), state2)
         else findPosition attemptsLeft chunkX chunkY chunkSz sz existing state2)"

text \<open>
  The body of the \<open>for\<close> loop of \<open>generateTrees\<close>, by the number of iterations left. The
  loop carries the list \<open>trees\<close>, the generator state and the counter \<open>nextTreeId\<close>.
\<close>

fun treesLoop ::
  "nat \<Rightarrow> real \<Rightarrow> real \<Rightarrow> real \<Rightarrow> Tree list \<times> int \<times> int \<Rightarrow> Tree list \<times> int \<times> int" where
  "treesLoop 0 chunkX chunkY chunkSz acc = acc"
| "treesLoop (Suc n) chunkX chunkY chunkSz (ts, state, nextId) =
     (let (r1, state1) = random state;
          sz = 80 + of_int \<lfloor>r1 * 40\<rfloor>;
          (r2, state2) = random state1;
          var = \<lfloor>r2 * 3\<rfloor>;
          (found, state3) = findPosition 50 chunkX chunkY chunkSz sz ts state2
      in case found of
           None \<Rightarrow> treesLoop n chunkX chunkY chunkSz (ts, state3, nextId)
         | Some (x, y) \<Rightarrow>
             (let (h, state4) = random state3;
                  (s, state5) = random state4;
                  (l, state6) = random state5
              in treesLoop n chunkX chunkY chunkSz
                   (ts @ [\<lparr>elem_id = nextId, elem_x = x, elem_y = y, elem_size = Some sz,
                           color = Hsl (110 + h * 30) (70 + s * 10) (35 + l * 15),
                           variant = var\<rparr>],
                    state6, nextId + 1)))"

definition generateTrees ::
  "real \<Rightarrow> real \<Rightarrow> real \<Rightarrow> int \<Rightarrow> int \<Rightarrow> int \<Rightarrow> Tree list \<times> int" where
  "generateTrees chunkX chunkY chunkSz count seed nextId =
     (let (ts, state, nextId') =
            treesLoop (nat count) chunkX chunkY chunkSz ([], createSeededRandom seed, nextId)
      in (ts, nextId'))"

text \<open>
  \<open>generateBushes\<close>: the same loop with the bush sizes and colours; a position is tested
  against \<open>[...existingElements, ...bushes]\<close>.
\<close>

fun bushesLoop ::
  "nat \<Rightarrow> real \<Rightarrow> real \<Rightarrow> real \<Rightarrow> Tree list \<Rightarrow> Bush list \<times> int \<times> int
     \<Rightarrow> Bush list \<times> int \<times> int" where
  "bushesLoop 0 chunkX chunkY chunkSz existingElements acc = acc"
| "bushesLoop (Suc n) chunkX chunkY chunkSz existingElements (bs, state, nextId) =
     (let (r1, state1) = random state;
          sz = 40 + of_int \<lfloor>r1 * 20\<rfloor>;
          (r2, state2) = random state1;
          var = \<lfloor>r2 * 3\<rfloor>;
          (found, state3) =
             findPosition 50 chunkX chunkY chunkSz sz (existingElements @ bs) state2
      in case found of
           None \<Rightarrow> bushesLoop n chunkX chunkY chunkSz existingElements (bs, state3, nextId)
         | Some (x, y) \<Rightarrow>
             (let (h, state4) = random state3;
                  (s, state5) = random state4;
                  (l, state6) = random state5
              in bushesLoop n chunkX chunkY chunkSz existingElements
                   (bs @ [\<lparr>elem_id = nextId, elem_x = x, elem_y = y, elem_size = Some sz,
                           color = Hsl (100 + h * 50) (65 + s * 15) (30 + l * 15),
                           variant = var\<rparr>],
                    state6, nextId + 1)))"

definition generateBushes ::
  "real \<Rightarrow> real \<Rightarrow> real \<Rightarrow> int \<Rightarrow> int \<Rightarrow> Tree list \<Rightarrow> int \<Rightarrow> Bush list \<times> int" where
  "generateBushes chunkX chunkY chunkSz count seed existingElements nextId =
     (let (bs, state, nextId') =
            bushesLoop (nat count) chunkX chunkY chunkSz existingElements
              ([], createSeededRandom seed, nextId)
      in (bs, nextId'))"

text \<open>\<open>generateFlowers\<close>: the palette, the point test against the existing elements, the loop.\<close>

definition flowerColors :: "string list" where
  "flowerColors = [''#FF5733'', ''#DAF7A6'', ''#FFC300'', ''#C70039'', ''#900C3F'',
                   ''#581845'', ''#FFFFFF'', ''#FFC0CB'', ''#3D85C6'']"

definition paletteAt :: "int \<Rightarrow> Color" where
  "paletteAt i =
     (if 0 \<le> i \<and> i < int (length flowerColors) then Hex (flowerColors ! nat i)
      else Undefined)"

fun flowerBlocked :: "real \<Rightarrow> real \<Rightarrow> 'a WorldElement_scheme list \<Rightarrow> bool" where
  "flowerBlocked x y [] = False"
| "flowerBlocked x y (element # existingElements) =
     (let elementSize = sizeOr 10 element;
          distance = sqrt ((x - (elem_x element + elementSize / 2))\<^sup>2
                           + (y - (elem_y element + elementSize / 2))\<^sup>2)
      in if distance < elementSize / 2 then True
         else flowerBlocked x y existingElements)"

fun flowersLoop ::
  "nat \<Rightarrow> real \<Rightarrow> real \<Rightarrow> real \<Rightarrow> Tree list \<Rightarrow> Flower list \<times> int \<times> int
     \<Rightarrow> Flower list \<times> int \<times> int" where
  "flowersLoop 0 chunkX chunkY chunkSz existingElements acc = acc"
| "flowersLoop (Suc n) chunkX chunkY chunkSz existingElements (fs, state, nextId) =
     (let (r1, state1) = random state;
          x = chunkX + of_int \<lfloor>r1 * chunkSz\<rfloor>;
          (r2, state2) = random state1;
          y = chunkY + of_int \<lfloor>r2 * chunkSz\<rfloor>;
          (r3, state3) = random state2;
          c = paletteAt \<lfloor>r3 * real (length flowerColors)\<rfloor>
      in if \<not> flowerBlocked x y existingElements
         then flowersLoop n chunkX chunkY chunkSz existingElements
                (fs @ [\<lparr>elem_id = nextId, elem_x = x, elem_y = y, elem_size = None,
                        flowerColor = c\<rparr>],
                 state3, nextId + 1)
         else flowersLoop n chunkX chunkY chunkSz existingElements (fs, state3, nextId))"

definition generateFlowers ::
  "real \<Rightarrow> real \<Rightarrow> real \<Rightarrow> int \<Rightarrow> int \<Rightarrow> Tree list \<Rightarrow> int \<Rightarrow> Flower list \<times> int" where
  "generateFlowers chunkX chunkY chunkSz count seed existingElements nextId =
     (let (fs, state, nextId') =
            flowersLoop (nat count) chunkX chunkY chunkSz existingElements
              ([], createSeededRandom seed, nextId)
      in (fs, nextId'))"

section \<open>The world state (src/hooks/useWorldState.ts)\<close>

text \<open>
  \<open>generateChunk\<close>: the three generators with the chunk's origin, counts and seeds; it
  returns the chunk and the advanced id counters.
\<close>

definition generateChunk :: "GameConfig \<Rightarrow> int \<Rightarrow> int \<Rightarrow> IdCounters \<Rightarrow> WorldChunk \<times> IdCounters" where
  "generateChunk config x y ids =
     (let chunkOriginX = of_int x * chunkSize config;
          chunkOriginY = of_int y * chunkSize config;
          chunkSeed = x * 10000 + y;
          (ts, treeId) =
             generateTrees chunkOriginX chunkOriginY (chunkSize config)
               (5 + \<lfloor>(sin (real_of_int chunkSeed) + 1) * 5\<rfloor>) chunkSeed (nextTreeId ids);
          (bs, bushId) =
             generateBushes chunkOriginX chunkOriginY (chunkSize config)
               (8 + \<lfloor>(cos (real_of_int chunkSeed) + 1) * 7\<rfloor>) (chunkSeed + 1) ts (nextBushId ids);
          (fs, flowerId) =
             generateFlowers chunkOriginX chunkOriginY (chunkSize config)
               (15 + \<lfloor>(sin (real_of_int chunkSeed * 0.1) + 1) * 10\<rfloor>) (chunkSeed + 2) (ts @ bs)
               (nextFlowerId ids)
      in (\<lparr>trees = ts, bushes = bs, flowers = fs, chunk_x = x, chunk_y = y, isLoaded = True\<rparr>,
          \<lparr>nextTreeId = treeId, nextBushId = bushId, nextFlowerId = flowerId\<rparr>))"

text \<open>
  The chunk key \<^verbatim>\<open>`${chunkX},${chunkY}`\<close>: the decimal digits of both integers, with a minus
  sign for a negative one.
\<close>

fun digitsOf :: "nat \<Rightarrow> string" where
  "digitsOf n =
     (if n < 10 then [''0123456789'' ! n]
      else digitsOf (n div 10) @ [''0123456789'' ! (n mod 10)])"

declare digitsOf.simps [simp del]

definition numberToString :: "int \<Rightarrow> string" where
  "numberToString i = (if i < 0 then CHR ''-'' # digitsOf (nat (- i)) else digitsOf (nat i))"

definition getChunkKey :: "int \<Rightarrow> int \<Rightarrow> string" where
  "getChunkKey x y = numberToString x @ '','' @ numberToString y"

definition getChunkCoordinates :: "GameConfig \<Rightarrow> Position \<Rightarrow> int \<times> int" where
  "getChunkCoordinates config position =
     (\<lfloor>pos_x position / chunkSize config\<rfloor>, \<lfloor>pos_y position / chunkSize config\<rfloor>)"

text \<open>
  A JavaScript \<open>Map\<close> keeps its entries in insertion order: an association list.
  \<open>has\<close> looks the key up; \<open>set\<close> is \<open>AList.update\<close>, which replaces the value of a key
  that is present and appends a new key at the end; \<open>values()\<close> lists the values in order.
\<close>

type_synonym ChunkMap = "(string \<times> WorldChunk) list"

definition has :: "ChunkMap \<Rightarrow> string \<Rightarrow> bool" where
  "has m k = (map_of m k \<noteq> None)"

definition mapValues :: "ChunkMap \<Rightarrow> WorldChunk list" where
  "mapValues m = map snd m"

text \<open>
  The state of the hook: the two pieces of React state and the two refs that mirror them.
  The effects \<open>worldElementsRef.current = worldElements\<close> and
  \<open>loadedChunksRef.current = loadedChunks\<close> run after each render in which the state
  changed.
\<close>

record WorldState =
  loadedChunks :: ChunkMap
  worldElements :: Elements
  worldElementsRef :: Elements
  loadedChunksRef :: ChunkMap

definition noElements :: Elements where
  "noElements = \<lparr>trees = [], bushes = [], flowers = []\<rparr>"

definition initialWorld :: WorldState where
  "initialWorld =
     \<lparr>loadedChunks = [], worldElements = noElements,
      worldElementsRef = noElements, loadedChunksRef = []\<rparr>"

definition runEffects :: "WorldState \<Rightarrow> WorldState" where
  "runEffects st = st\<lparr>worldElementsRef := worldElements st, loadedChunksRef := loadedChunks st\<rparr>"

text \<open>The three \<open>push(...chunk.trees)\<close>, \<open>push(...chunk.bushes)\<close>, \<open>push(...chunk.flowers)\<close>.\<close>

definition pushElements :: "Elements \<Rightarrow> 'a Elements_scheme \<Rightarrow> Elements" where
  "pushElements elems chunk =
     \<lparr>trees = trees elems @ trees chunk,
      bushes = bushes elems @ bushes chunk,
      flowers = flowers elems @ flowers chunk\<rparr>"

text \<open>
  \<open>loadChunks\<close>. The variables of the two nested loops: the copy \<open>newChunks\<close> of the map,
  \<open>newElements\<close>, \<open>chunksChanged\<close>, and the id counters that \<open>generateChunk\<close> advances.
\<close>

record LoadVars =
  newChunks :: ChunkMap
  newElements :: Elements
  chunksChanged :: bool
  idCounters :: IdCounters

definition loadChunkAt :: "GameConfig \<Rightarrow> int \<Rightarrow> int \<Rightarrow> LoadVars \<Rightarrow> LoadVars" where
  "loadChunkAt config x y v =
     (if x < 0 \<or> y < 0
         \<or> of_int x * chunkSize config \<ge> worldWidth config
         \<or> of_int y * chunkSize config \<ge> worldHeight config
      then v
      else (let chunkKey = getChunkKey x y
            in if \<not> has (newChunks v) chunkKey
               then (let (chunk, ids) = generateChunk config x y (idCounters v)
                     in \<lparr>newChunks = AList.update chunkKey chunk (newChunks v),
                         newElements = pushElements (newElements v) chunk,
                         chunksChanged = True,
                         idCounters = ids\<rparr>)
               else v))"

definition loadChunks ::
  "GameConfig \<Rightarrow> Position \<Rightarrow> WorldState \<times> IdCounters \<Rightarrow> WorldState \<times> IdCounters" where
  "loadChunks config position s =
     (let (st, ids) = s;
          (cx, cy) = getChunkCoordinates config position;
          rd = renderDistance config;
          v = fold (\<lambda>x. fold (\<lambda>y. loadChunkAt config x y) [cy - rd..cy + rd]) [cx - rd..cx + rd]
                \<lparr>newChunks = loadedChunksRef st, newElements = noElements,
                 chunksChanged = False, idCounters = ids\<rparr>
      in if chunksChanged v
         then (st\<lparr>loadedChunks := newChunks v,
                   worldElements := pushElements (worldElements st) (newElements v)\<rparr>,
               idCounters v)
         else (st, idCounters v))"

text \<open>\<open>getVisibleElements\<close>: only the trees of the loaded chunks are filtered; the two lines
  that would filter the bushes and the flowers are commented out in the source.\<close>

definition isElementVisible :: "Hitbox \<Rightarrow> 'a WorldElement_scheme \<Rightarrow> bool" where
  "isElementVisible visibleArea element \<longleftrightarrow>
     elem_x element < hb_right visibleArea
     \<and> elem_x element + sizeOr 0 element > hb_left visibleArea
     \<and> elem_y element < hb_bottom visibleArea
     \<and> elem_y element + sizeOr 0 element > hb_top visibleArea"

fun visibleLoop :: "Hitbox \<Rightarrow> WorldChunk list \<Rightarrow> Elements \<Rightarrow> Elements" where
  "visibleLoop visibleArea [] visibleElements = visibleElements"
| "visibleLoop visibleArea (chunk # chunks) visibleElements =
     visibleLoop visibleArea chunks
       (visibleElements\<lparr>trees := trees visibleElements
                                    @ filter (isElementVisible visibleArea) (trees chunk)\<rparr>)"

definition getVisibleElements :: "Position \<Rightarrow> real \<Rightarrow> real \<Rightarrow> WorldState \<Rightarrow> Elements" where
  "getVisibleElements cameraPosition vWidth vHeight st =
     (let visibleArea =
            \<lparr>hb_left = pos_x cameraPosition - 100,
             hb_right = pos_x cameraPosition + vWidth + 100,
             hb_top = pos_y cameraPosition - 100,
             hb_bottom = pos_y cameraPosition + vHeight + 100\<rparr>
      in visibleLoop visibleArea (mapValues (loadedChunksRef st)) noElements)"

text \<open>
  \<open>updateWithServerChunks\<close>. The loop over the server's chunks carries the copy of the
  map (\<open>newChunks\<close> in the source) and the collected elements (\<open>newElements\<close>); the state
  is written only when an element was collected.
\<close>

fun serverLoop :: "WorldChunk list \<Rightarrow> ChunkMap \<times> Elements \<Rightarrow> ChunkMap \<times> Elements" where
  "serverLoop [] acc = acc"
| "serverLoop (chunk # serverChunks) (chunks, elems) =
     (let chunkKey = getChunkKey (chunk_x chunk) (chunk_y chunk)
      in if has chunks chunkKey then serverLoop serverChunks (chunks, elems)
         else serverLoop serverChunks
                (AList.update chunkKey chunk chunks, pushElements elems chunk))"

definition updateWithServerChunks :: "WorldChunk list \<Rightarrow> WorldState \<Rightarrow> WorldState" where
  "updateWithServerChunks serverChunks st =
     (if length serverChunks = 0 then st
      else (let (chunks, elems) = serverLoop serverChunks (loadedChunksRef st, noElements)
            in if length (trees elems) > 0 \<or> length (bushes elems) > 0
                  \<or> length (flowers elems) > 0
               then st\<lparr>loadedChunks := chunks,
                       worldElements := pushElements (worldElements st) elems,
                       worldElementsRef := pushElements (worldElementsRef st) elems\<rparr>
               else st))"

section \<open>Definitions for the statements about the world state\<close>

text \<open>
  The visibility test as the source computes it on the padded rectangle: strict
  inequalities, with \<open>size || 0\<close> for the size.
\<close>

definition paddedOverlap :: "Position \<Rightarrow> real \<Rightarrow> real \<Rightarrow> 'a WorldElement_scheme \<Rightarrow> bool" where
  "paddedOverlap cameraPosition vWidth vHeight element \<longleftrightarrow>
     elem_x element < pos_x cameraPosition + vWidth + 100
     \<and> pos_x cameraPosition - 100 < elem_x element + sizeOr 0 element
     \<and> elem_y element < pos_y cameraPosition + vHeight + 100
     \<and> pos_y cameraPosition - 100 < elem_y element + sizeOr 0 element"

text \<open>
  The visibility query as the specification words it (\<open>visibleWithin\<close>): each species is
  filtered by whether the closed box \<open>[x, x+size] \<times> [y, y+size]\<close> (size 0 when absent)
  intersects the view rectangle expanded by 100 on all sides.
\<close>

definition boxIntersectsPadded :: "Position \<Rightarrow> real \<Rightarrow> real \<Rightarrow> 'a WorldElement_scheme \<Rightarrow> bool" where
  "boxIntersectsPadded viewOrigin vWidth vHeight element \<longleftrightarrow>
     elem_x element \<le> pos_x viewOrigin + vWidth + 100
     \<and> pos_x viewOrigin - 100 \<le> elem_x element + sizeOr 0 element
     \<and> elem_y element \<le> pos_y viewOrigin + vHeight + 100
     \<and> pos_y viewOrigin - 100 \<le> elem_y element + sizeOr 0 element"

definition visibleWithin_spec :: "Position \<Rightarrow> real \<Rightarrow> real \<Rightarrow> WorldChunk list \<Rightarrow> Elements" where
  "visibleWithin_spec viewOrigin vWidth vHeight chunks =
     \<lparr>trees = filter (boxIntersectsPadded viewOrigin vWidth vHeight) (concat (map trees chunks)),
      bushes = filter (boxIntersectsPadded viewOrigin vWidth vHeight) (concat (map bushes chunks)),
      flowers = filter (boxIntersectsPadded viewOrigin vWidth vHeight) (concat (map flowers chunks))\<rparr>"

text \<open>Sample data: a tree, a tree on the right edge of the padded view, a bush, chunks.\<close>

definition sampleTree :: Tree where
  "sampleTree = \<lparr>elem_id = 1000000, elem_x = 120, elem_y = 80, elem_size = Some 90,
                  color = Hsl 120 75 40, variant = 1\<rparr>"

definition sampleBush :: Bush where
  "sampleBush = \<lparr>elem_id = 2000000, elem_x = 300, elem_y = 200, elem_size = Some 50,
                  color = Hsl 110 70 35, variant = 0\<rparr>"

definition sampleChunk :: WorldChunk where
  "sampleChunk = \<lparr>trees = [sampleTree], bushes = [sampleBush], flowers = [],
                   chunk_x = 0, chunk_y = 0, isLoaded = True\<rparr>"

definition edgeTree :: Tree where
  "edgeTree = \<lparr>elem_id = 1000001, elem_x = 1124, elem_y = 80, elem_size = Some 90,
                color = Hsl 120 75 40, variant = 2\<rparr>"

definition sampleChunk2 :: WorldChunk where
  "sampleChunk2 = \<lparr>trees = [sampleTree, edgeTree], bushes = [sampleBush], flowers = [],
                    chunk_x = 0, chunk_y = 0, isLoaded = True\<rparr>"

definition sampleWorld :: WorldState where
  "sampleWorld =
     \<lparr>loadedChunks = [(''0,0'', sampleChunk2)],
      worldElements = \<lparr>trees = [sampleTree, edgeTree], bushes = [sampleBush], flowers = []\<rparr>,
      worldElementsRef = \<lparr>trees = [sampleTree, edgeTree], bushes = [sampleBush], flowers = []\<rparr>,
      loadedChunksRef = [(''0,0'', sampleChunk2)]\<rparr>"

definition emptyChunk :: "int \<Rightarrow> int \<Rightarrow> WorldChunk" where
  "emptyChunk x y = \<lparr>trees = [], bushes = [], flowers = [], chunk_x = x, chunk_y = y, isLoaded = True\<rparr>"

text \<open>The state is at rest when the effects have run: both refs mirror the state.\<close>

definition atRest :: "WorldState \<Rightarrow> bool" where
  "atRest st \<longleftrightarrow> loadedChunksRef st = loadedChunks st \<and> worldElementsRef st = worldElements st"

text \<open>
  For the scenario of C6: the chunks of a list of coordinates generated one after the
  other, each with the id counters the one before has left; all their elements; the
  bounds test and the key of a coordinate pair; the 5 by 5 block around chunk (5, 5) in
  the order of the two loops.
\<close>

fun generateAll :: "GameConfig \<Rightarrow> (int \<times> int) list \<Rightarrow> IdCounters \<Rightarrow> WorldChunk list \<times> IdCounters" where
  "generateAll config [] ids = ([], ids)"
| "generateAll config ((x, y) # rest) ids =
     (let (chunk, ids1) = generateChunk config x y ids;
          (chunks, ids2) = generateAll config rest ids1
      in (chunk # chunks, ids2))"

definition allElements :: "WorldChunk list \<Rightarrow> Elements" where
  "allElements chunks =
     \<lparr>trees = concat (map trees chunks), bushes = concat (map bushes chunks),
      flowers = concat (map flowers chunks)\<rparr>"

definition inWorld :: "GameConfig \<Rightarrow> int \<times> int \<Rightarrow> bool" where
  "inWorld config c \<longleftrightarrow>
     \<not> (fst c < 0 \<or> snd c < 0
        \<or> of_int (fst c) * chunkSize config \<ge> worldWidth config
        \<or> of_int (snd c) * chunkSize config \<ge> worldHeight config)"

definition keyOf :: "int \<times> int \<Rightarrow> string" where
  "keyOf c = getChunkKey (fst c) (snd c)"

definition centerGrid :: "(int \<times> int) list" where
  "centerGrid = concat (map (\<lambda>x. map (\<lambda>y. (x, y)) [3, 4, 5, 6, 7]) [3, 4, 5, 6, 7])"

section \<open>Definitions for the statements about the generator\<close>

text \<open>
  Two elements are apart when both have a size and the distance between their centres
  \<open>(x + size/2, y + size/2)\<close> is at least the sum of their radii and the buffer 10. An
  element is well sized when its size is present and not 0, so that \<open>size || 10\<close> is its
  size. A list is placed when its elements are pairwise apart and all well sized.
\<close>

definition apart :: "'a WorldElement_scheme \<Rightarrow> 'a WorldElement_scheme \<Rightarrow> bool" where
  "apart a b =
     (case (elem_size a, elem_size b) of
        (Some sa, Some sb) \<Rightarrow>
           sqrt ((elem_x a + sa / 2 - (elem_x b + sb / 2))\<^sup>2
                 + (elem_y a + sa / 2 - (elem_y b + sb / 2))\<^sup>2)
             \<ge> sa / 2 + sb / 2 + 10
      | _ \<Rightarrow> False)"

definition wellSized :: "'a WorldElement_scheme \<Rightarrow> bool" where
  "wellSized e = (case elem_size e of Some s \<Rightarrow> s \<noteq> 0 | None \<Rightarrow> False)"

definition placed :: "'a WorldElement_scheme list \<Rightarrow> bool" where
  "placed es \<longleftrightarrow> sorted_wrt apart es \<and> list_all wellSized es"

text \<open>
  An element with its id erased; the elements of a chunk with their ids erased; a list
  whose ids count up from a first id.
\<close>

definition eraseId :: "'a WorldElement_scheme \<Rightarrow> 'a WorldElement_scheme" where
  "eraseId e = e\<lparr>elem_id := 0\<rparr>"

definition eraseIds :: "'a Elements_scheme \<Rightarrow> Elements" where
  "eraseIds c = \<lparr>trees = map eraseId (trees c), bushes = map eraseId (bushes c),
                 flowers = map eraseId (flowers c)\<rparr>"

definition numbered :: "int \<Rightarrow> 'a WorldElement_scheme list \<Rightarrow> bool" where
  "numbered first es \<longleftrightarrow> map elem_id es = map (\<lambda>k. first + int k) [0..<length es]"

text \<open>The first two trees of chunk (0, 0) with chunk size 500 and the initial id counters.\<close>

definition firstTree :: Tree where
  "firstTree = \<lparr>elem_id = 1000000, elem_x = 225, elem_y = 304, elem_size = Some 88,
                 color = Hsl (1046525 / 7776) (274627 / 3888) (631819 / 15552), variant = 2\<rparr>"

definition secondTree :: Tree where
  "secondTree = \<lparr>elem_id = 1000001, elem_x = 207, elem_y = 77, elem_size = Some 113,
                  color = Hsl (84367 / 648) (1782421 / 23328) (307429 / 7776), variant = 2\<rparr>"

section \<open>Properties of the seeded random generator\<close>

lemma smod_nonneg_eq_mod:
  fixes k :: int
  assumes "0 \<le> k"
  shows "k smod 233280 = k mod 233280"
  using assms by (cases "k = 0") (simp_all add: signed_modulo_int_def)

lemma random_state_nonneg:
  assumes "0 \<le> state"
  shows "0 \<le> snd (random state)" and "snd (random state) < 233280"
proof -
  from assms have "0 \<le> state * 9301 + 49297" by simp
  then have eq: "snd (random state) = (state * 9301 + 49297) mod 233280"
    by (simp add: random_def Let_def smod_nonneg_eq_mod)
  show "0 \<le> snd (random state)" unfolding eq by simp
  show "snd (random state) < 233280" unfolding eq by simp
qed

lemma stateAfter_nonneg:
  assumes "0 \<le> seed"
  shows "0 \<le> stateAfter n seed"
  using assms by (induction n) (simp_all add: random_state_nonneg)

text \<open>
  C9 as stated: for every seed each returned value lies in \<open>[0, 1)\<close>. With the seed
  \<open>-6\<close> the first call computes \<open>-6 * 9301 + 49297 = -6509\<close>, whose truncated
  remainder is \<open>-6509\<close>, and returns \<open>-6509 / 233280\<close>, a negative value.
\<close>

theorem createSeededRandom_negative_seed_counterexample:
  "fst (random (createSeededRandom (- 6))) = - 6509 / 233280
   \<and> \<not> (0 \<le> fst (random (createSeededRandom (- 6))))"
  by (simp add: createSeededRandom_def random_def Let_def signed_modulo_int_def)

text \<open>
  C9 amended: for every integer seed that is not negative and small enough for the first
  product to be exact in a double (\<open>seed * 9301 + 49297 < 2 ^ 53\<close>), the \<open>n+1\<close>-th call moves
  the state to \<open>(state * 9301 + 49297) mod 233280\<close>, returns the new state divided by
  233280, and the returned value lies in \<open>[0, 1)\<close>.
\<close>

theorem createSeededRandom_lcg:
  assumes "0 \<le> seed" and "seed * 9301 + 49297 < 2 ^ 53"
  shows "stateAfter (Suc n) (createSeededRandom seed)
           = (stateAfter n (createSeededRandom seed) * 9301 + 49297) mod 233280
         \<and> fst (random (stateAfter n (createSeededRandom seed)))
           = real_of_int (stateAfter (Suc n) (createSeededRandom seed)) / 233280
         \<and> 0 \<le> fst (random (stateAfter n (createSeededRandom seed)))
         \<and> fst (random (stateAfter n (createSeededRandom seed))) < 1"
proof -
  let ?s = "stateAfter n (createSeededRandom seed)"
  from assms(1) have s: "0 \<le> ?s"
    by (simp add: createSeededRandom_def stateAfter_nonneg)
  then have "0 \<le> ?s * 9301 + 49297" by simp
  then have st: "snd (random ?s) = (?s * 9301 + 49297) mod 233280"
    by (simp add: random_def Let_def smod_nonneg_eq_mod)
  have v: "fst (random ?s) = real_of_int (snd (random ?s)) / 233280"
    by (simp add: random_def Let_def)
  have lo: "0 \<le> snd (random ?s)" and hi: "snd (random ?s) < 233280"
    using random_state_nonneg [OF s] by simp_all
  from lo have ge: "0 \<le> fst (random ?s)" unfolding v by simp
  from hi have lt: "fst (random ?s) < 1" unfolding v by simp
  have "stateAfter (Suc n) (createSeededRandom seed) = snd (random ?s)" by simp
  with st v ge lt show ?thesis by (intro conjI) presburger+
qed

theorem createSeededRandom_lcg_witness:
  "(0::int) \<le> 5 \<and> (5::int) * 9301 + 49297 < 2 ^ 53
   \<and> stateAfter (Suc 1) (createSeededRandom 5) = 207379
   \<and> fst (random (stateAfter 1 (createSeededRandom 5))) = 207379 / 233280"
proof -
  have a: "(0::int) \<le> 5" and b: "(5::int) * 9301 + 49297 < 2 ^ 53" by simp_all
  from createSeededRandom_lcg [OF a b, of 1] a b show ?thesis
    by (simp add: createSeededRandom_def random_def Let_def signed_modulo_int_def)
qed

section \<open>Properties of the movement engine\<close>

subsection \<open>A tick, field by field\<close>

lemma lastFrameTime_update [simp]:
  "lastFrameTime (updatePlayerMovement ar config objs keys time e) = time"
  by (simp add: updatePlayerMovement_def Let_def)

lemma targetPosition_update:
  "targetPosition (updatePlayerMovement ar config objs keys time e) =
     \<lparr>pos_x = newX (handleMovementInput ar config objs keys (frameSpeedOf ar config e time)
                \<lparr>newX = pos_x (targetPosition e), newY = pos_y (targetPosition e),
                 newDirection = direction e, moving = False\<rparr>),
      pos_y = newY (handleMovementInput ar config objs keys (frameSpeedOf ar config e time)
                \<lparr>newX = pos_x (targetPosition e), newY = pos_y (targetPosition e),
                 newDirection = direction e, moving = False\<rparr>)\<rparr>"
  by (simp add: updatePlayerMovement_def Let_def)

lemma isMoving_update:
  "isMoving (updatePlayerMovement ar config objs keys time e)
     = moving (handleMovementInput ar config objs keys (frameSpeedOf ar config e time)
                \<lparr>newX = pos_x (targetPosition e), newY = pos_y (targetPosition e),
                 newDirection = direction e, moving = False\<rparr>)"
  by (simp add: updatePlayerMovement_def Let_def)

lemma playerPosition_update:
  "playerPosition (updatePlayerMovement ar config objs keys time e)
     = interpolate ar (clampedDeltaTime ar e time) (targetPosition e) (playerPosition e)"
  by (simp add: updatePlayerMovement_def Let_def)

lemma handleMovementInput_idle: "handleMovementInput ar config objs idle s v = v"
  by (simp add: handleMovementInput_def keyUp_def keyDown_def keyLeft_def keyRight_def idle_def)

lemma targetPosition_idle:
  "targetPosition (updatePlayerMovement ar config objs idle time e) = targetPosition e"
  by (simp add: targetPosition_update handleMovementInput_idle)

lemma runTicks_append:
  "runTicks ar config (xs @ ys) e = runTicks ar config ys (runTicks ar config xs e)"
  by (induction xs arbitrary: e) auto

lemma sample_frameSpeed: "frameSpeedOf Exact gameConfig (initialEngine Exact gameConfig) 16 = 2.5"
  by (simp add: frameSpeedOf_def clampedDeltaTime_def gameConfig_def initialEngine_def)

lemma sample_target:
  "targetPosition (initialEngine Exact gameConfig) = \<lparr>pos_x = 2500, pos_y = 2500\<rparr>"
  by (simp add: gameConfig_def initialEngine_def)

lemma sample_noCollision:
  "\<not> checkCollision Exact gameConfig [] 2500 2497.5"
  "\<not> checkCollision Exact gameConfig [] 2500 2500"
  "\<not> checkCollision Exact gameConfig [] 2497.5 2500"
  by (simp_all add: checkCollision_def gameConfig_def)

subsection \<open>Rounding to a double\<close>

lemma roundEven_near: "\<bar>of_int (roundEven x) - x\<bar> \<le> 1 / 2"
proof -
  define f where "f = \<lfloor>x\<rfloor>"
  have "of_int f \<le> x" "x < of_int f + 1" unfolding f_def by linarith+
  then show ?thesis
    unfolding roundEven_def Let_def f_def [symmetric]
    by (simp add: abs_real_def)
qed

lemma exponent_unique:
  assumes "2 powi k \<le> \<bar>x\<bar>" and "\<bar>x\<bar> < 2 powi (k + 1)"
  shows "\<lfloor>log 2 \<bar>x\<bar>\<rfloor> = k"
proof -
  have p: "0 < \<bar>x\<bar>" using assms(1) by (smt (verit) zero_less_power_int)
  have h1: "(2::real) powr real_of_int k = 2 powi k"
    by (simp add: powr_real_of_int')
  have h2: "(2::real) powr (real_of_int k + 1) = 2 powi (k + 1)"
    using powr_real_of_int' [of 2 "k + 1"] by simp
  have "2 powr real_of_int k \<le> \<bar>x\<bar> \<and> \<bar>x\<bar> < 2 powr (real_of_int k + 1)"
    using assms by (simp only: h1 h2)
  then show ?thesis
    using floor_log_eq_powr_iff [of "\<bar>x\<bar>" 2 k] p by simp
qed

lemma exponent_bounds:
  assumes "x \<noteq> 0"
  shows "2 powi \<lfloor>log 2 \<bar>x\<bar>\<rfloor> \<le> \<bar>x\<bar>"
proof -
  have "(2::real) powr real_of_int k = 2 powi k" for k
    by (simp add: powr_real_of_int')
  then show ?thesis
    using floor_log_eq_powr_iff [of "\<bar>x\<bar>" 2 "\<lfloor>log 2 \<bar>x\<bar>\<rfloor>"] assms by simp
qed

text \<open>
  The value of \<open>double\<close> at a number whose magnitude, scaled by \<open>2 ^ n\<close>, lies in
  \<open>[2 ^ 52, 2 ^ 53)\<close>: the scaled number rounded to an integer, scaled back.
\<close>

lemma double_scale:
  assumes "2 ^ 52 \<le> \<bar>x\<bar> * 2 ^ n" and "\<bar>x\<bar> * 2 ^ n < 2 ^ 53"
  shows "double x = of_int (roundEven (x * 2 ^ n)) / 2 ^ n"
proof -
  have q: "(2::real) powi (52 - int n) = 2 ^ 52 / 2 ^ n"
    by (simp add: power_int_diff)
  have q': "(2::real) powi (52 - int n + 1) = 2 ^ 53 / 2 ^ n"
  proof -
    have "(2::real) powi (53 - int n) = 2 ^ 53 / 2 ^ n"
      by (simp add: power_int_diff)
    moreover have "52 - int n + 1 = 53 - int n" by simp
    ultimately show ?thesis by (simp only:)
  qed
  have "2 powi (52 - int n) \<le> \<bar>x\<bar>"
    using assms(1) by (simp add: q field_simps)
  moreover have "\<bar>x\<bar> < 2 powi (52 - int n + 1)"
    unfolding q' using assms(2) by (simp add: field_simps)
  ultimately have e: "\<lfloor>log 2 \<bar>x\<bar>\<rfloor> = 52 - int n"
    by (rule exponent_unique)
  have "x \<noteq> 0" using assms(1) by auto
  then show ?thesis
    by (simp add: double_def e power_int_minus field_simps)
qed

text \<open>The relative error of one rounding is at most \<open>2 ^ -53\<close>.\<close>

lemma double_error: "\<bar>double x - x\<bar> \<le> \<bar>x\<bar> / 2 ^ 53"
proof (cases "x = 0")
  case True
  then show ?thesis by (simp add: double_def)
next
  case False
  define e where "e = \<lfloor>log 2 \<bar>x\<bar>\<rfloor>"
  define q :: real where "q = 2 powi (e - 52)"
  have q: "0 < q" by (simp add: q_def)
  have s: "2 powi (52 - e) = 1 / q"
    by (simp add: q_def power_int_diff)
  have d: "double x = of_int (roundEven (x / q)) * q"
    using False by (simp add: double_def e_def [symmetric] s q_def [symmetric])
  have "\<bar>of_int (roundEven (x / q)) - x / q\<bar> \<le> 1 / 2" by (rule roundEven_near)
  then have "\<bar>of_int (roundEven (x / q)) - x / q\<bar> * q \<le> 1 / 2 * q"
    using q by (intro mult_right_mono) simp_all
  moreover have "\<bar>of_int (roundEven (x / q)) - x / q\<bar> * q = \<bar>double x - x\<bar>"
  proof -
    have "\<bar>of_int (roundEven (x / q)) - x / q\<bar> * q
            = \<bar>(of_int (roundEven (x / q)) - x / q) * q\<bar>"
      using q by (simp add: abs_mult)
    also have "(of_int (roundEven (x / q)) - x / q) * q = double x - x"
      using q by (simp add: d left_diff_distrib)
    finally show ?thesis .
  qed
  moreover have "q * 2 ^ 52 \<le> \<bar>x\<bar>"
    using exponent_bounds [OF False] by (simp add: q_def e_def power_int_diff)
  ultimately show ?thesis by (simp add: field_simps)
qed

lemma double_close:
  assumes "\<bar>x\<bar> \<le> 8192"
  shows "x - 1 / 1000 \<le> double x" and "double x \<le> x + 1 / 1000"
proof -
  have "\<bar>double x - x\<bar> \<le> \<bar>x\<bar> / 2 ^ 53" by (rule double_error)
  also have "\<dots> \<le> 8192 / 2 ^ 53" using assms by (simp add: divide_right_mono)
  also have "\<dots> \<le> 1 / 1000" by simp
  finally have "\<bar>double x - x\<bar> \<le> 1 / 1000" .
  then show "x - 1 / 1000 \<le> double x" and "double x \<le> x + 1 / 1000"
    by linarith+
qed

lemma roundEven_le:
  assumes "x \<le> of_int m"
  shows "roundEven x \<le> m"
proof -
  define f where "f = \<lfloor>x\<rfloor>"
  have f: "of_int f \<le> x" "x < of_int f + 1" unfolding f_def by linarith+
  have "f \<le> m" using f(1) assms by linarith
  then consider "f = m" | "f + 1 \<le> m" by linarith
  then show ?thesis
  proof cases
    case 1
    with f(1) assms have "x = of_int f" by simp
    then show ?thesis using 1 by (simp add: roundEven_def Let_def)
  next
    case 2
    then show ?thesis
      unfolding roundEven_def Let_def f_def [symmetric] by simp
  qed
qed

lemma roundEven_ge:
  assumes "of_int m \<le> x"
  shows "m \<le> roundEven x"
proof -
  have "m \<le> \<lfloor>x\<rfloor>" using assms by (simp add: le_floor_iff)
  then show ?thesis by (simp add: roundEven_def Let_def)
qed

lemma roundEven_of_int: "roundEven (of_int m) = m"
  by (simp add: roundEven_def Let_def)

lemma double_nonneg: "0 \<le> x \<Longrightarrow> 0 \<le> double x"
  using roundEven_ge [of 0 "x * 2 powi (52 - \<lfloor>log 2 \<bar>x\<bar>\<rfloor>)"]
  by (simp add: double_def Let_def)

lemma double_nonpos: "x \<le> 0 \<Longrightarrow> double x \<le> 0"
  using roundEven_le [of "x * 2 powi (52 - \<lfloor>log 2 \<bar>x\<bar>\<rfloor>)" 0]
  by (simp add: double_def Let_def mult_le_0_iff)

lemma exponent_upper:
  assumes "x \<noteq> 0"
  shows "\<bar>x\<bar> < 2 powi (\<lfloor>log 2 \<bar>x\<bar>\<rfloor> + 1)"
proof -
  have "(2::real) powr (real_of_int k + 1) = 2 powi (k + 1)" for k
    using powr_real_of_int' [of 2 "k + 1"] by simp
  then show ?thesis
    using floor_log_eq_powr_iff [of "\<bar>x\<bar>" 2 "\<lfloor>log 2 \<bar>x\<bar>\<rfloor>"] assms by simp
qed

lemma powi_split:
  "(2::real) powi (e + 1) = 2 ^ 53 * 2 powi (e - 52)"
  "(2::real) powi e = 2 ^ 52 * 2 powi (e - 52)"
proof -
  have "(2::real) powi (int 53 + (e - 52)) = 2 ^ 53 * 2 powi (e - 52)"
    by (subst power_int_add) simp_all
  moreover have "int 53 + (e - 52) = e + 1" by simp
  ultimately show "(2::real) powi (e + 1) = 2 ^ 53 * 2 powi (e - 52)" by (simp only:)
  have "(2::real) powi (int 52 + (e - 52)) = 2 ^ 52 * 2 powi (e - 52)"
    by (subst power_int_add) simp_all
  moreover have "int 52 + (e - 52) = e" by simp
  ultimately show "(2::real) powi e = 2 ^ 52 * 2 powi (e - 52)" by (simp only:)
qed

text \<open>Rounding does not cross a double.\<close>

lemma double_below:
  assumes x: "0 < x" and le: "x \<le> double z"
  shows "double x \<le> double z"
proof -
  have z: "0 < z"
  proof (rule ccontr)
    assume "\<not> 0 < z"
    then have "double z \<le> 0" by (intro double_nonpos) simp
    with x le show False by simp
  qed
  define ex where "ex = \<lfloor>log 2 \<bar>x\<bar>\<rfloor>"
  define ez where "ez = \<lfloor>log 2 \<bar>z\<bar>\<rfloor>"
  define N where "N = roundEven (z * 2 powi (52 - ez))"
  have xl: "2 powi ex \<le> x" using exponent_bounds [of x] x by (simp add: ex_def)
  have zu: "z < 2 powi (ez + 1)" using exponent_upper [of z] z by (simp add: ez_def)
  have dx: "double x = of_int (roundEven (x * 2 powi (52 - ex))) * 2 powi (ex - 52)"
    using x by (simp add: double_def ex_def Let_def)
  have dz: "double z = of_int N * 2 powi (ez - 52)"
    using z by (simp add: double_def ez_def N_def Let_def)
  have "z * 2 powi (52 - ez) \<le> 2 powi (ez + 1) * 2 powi (52 - ez)"
    using zu by (intro mult_right_mono) simp_all
  also have "\<dots> = of_int (2 ^ 53)"
    by (simp add: power_int_add [symmetric])
  finally have N: "N \<le> 2 ^ 53" unfolding N_def by (rule roundEven_le)
  show ?thesis
  proof (cases "ex \<le> ez")
    case True
    define k where "k = nat (ez - ex)"
    have k: "(2::real) powi (ez - 52) = 2 ^ k * 2 powi (ex - 52)"
    proof -
      have e: "ez - 52 = int k + (ex - 52)" using True by (simp add: k_def)
      have "(2::real) powi (int k + (ex - 52)) = 2 ^ k * 2 powi (ex - 52)"
        by (subst power_int_add) simp_all
      then show ?thesis by (simp only: e)
    qed
    have "x * 2 powi (52 - ex) \<le> double z * 2 powi (52 - ex)"
      using le by (intro mult_right_mono) simp_all
    also have "\<dots> = of_int (N * 2 ^ k)"
      by (simp add: dz k power_int_add [symmetric])
    finally have "roundEven (x * 2 powi (52 - ex)) \<le> N * 2 ^ k"
      by (rule roundEven_le)
    then have "of_int (roundEven (x * 2 powi (52 - ex))) \<le> (of_int (N * 2 ^ k) :: real)"
      by (simp only: of_int_le_iff)
    then have "of_int (roundEven (x * 2 powi (52 - ex))) * 2 powi (ex - 52)
                 \<le> (of_int (N * 2 ^ k) :: real) * 2 powi (ex - 52)"
      by (intro mult_right_mono) simp_all
    then show ?thesis
      by (simp add: dx dz k mult.assoc)
  next
    case False
    then have "ez + 1 \<le> ex" by simp
    then have "(2::real) powi (ez + 1) \<le> 2 powi ex"
      by (intro power_int_increasing) simp_all
    moreover have "double z \<le> 2 powi (ez + 1)"
    proof -
      have "of_int N * 2 powi (ez - 52) \<le> (of_int (2 ^ 53) :: real) * 2 powi (ez - 52)"
        using N by (intro mult_right_mono) (simp_all only: of_int_le_iff, simp)
      also have "\<dots> = 2 powi (ez + 1)"
        by (simp add: powi_split(1))
      finally show ?thesis by (simp only: dz)
    qed
    ultimately have e: "x = 2 powi ex" using xl le by linarith
    have "x * 2 powi (52 - ex) = of_int (2 ^ 52)"
      by (subst e) (simp add: power_int_add [symmetric])
    then have "roundEven (x * 2 powi (52 - ex)) = 2 ^ 52"
      by (simp only: roundEven_of_int)
    then have "double x = 2 ^ 52 * 2 powi (ex - 52)"
      by (simp add: dx)
    also have "\<dots> = x"
      unfolding e by (rule powi_split(2) [symmetric])
    finally show ?thesis using le by simp
  qed
qed

lemma rnd_nonneg: "0 \<le> x \<Longrightarrow> 0 \<le> rnd ar x"
  by (cases ar) (simp_all add: double_nonneg)

lemma rnd_nonpos: "x \<le> 0 \<Longrightarrow> rnd ar x \<le> 0"
  by (cases ar) (simp_all add: double_nonpos)

lemma rnd_below: "0 < x \<Longrightarrow> x \<le> rnd ar z \<Longrightarrow> rnd ar x \<le> rnd ar z"
  by (cases ar) (simp_all add: double_below)

text \<open>
  Subtracting and adding back: \<open>double (double (y - s) + s)\<close> is within three relative
  rounding errors of \<open>y\<close>.
\<close>

lemma round_trip_error:
  "\<bar>double (double (y - s) + s) - y\<bar> \<le> 3 * (\<bar>y\<bar> + \<bar>s\<bar>) / 2 ^ 53"
proof -
  define B where "B = \<bar>y\<bar> + \<bar>s\<bar>"
  define a where "a = double (y - s) + s"
  define r where "r = \<bar>a - y\<bar>"
  define t where "t = \<bar>double a - a\<bar>"
  have B: "\<bar>y\<bar> \<le> B" "\<bar>y - s\<bar> \<le> B" "0 \<le> B" unfolding B_def by simp_all
  have "\<bar>double (y - s) - (y - s)\<bar> \<le> \<bar>y - s\<bar> / 2 ^ 53" by (rule double_error)
  also have "\<dots> \<le> B / 2 ^ 53" using B(2) by (simp add: divide_right_mono)
  finally have e0: "\<bar>double (y - s) - (y - s)\<bar> \<le> B / 2 ^ 53" .
  have ay: "a - y = double (y - s) - (y - s)" by (simp add: a_def)
  have e1: "r \<le> B / 2 ^ 53" unfolding r_def ay by (rule e0)
  have "B / 2 ^ 53 \<le> B" using B(3) by simp
  with e1 have r: "r \<le> B" by simp
  have "\<bar>a\<bar> \<le> \<bar>y\<bar> + r"
    unfolding r_def using abs_triangle_ineq [of y "a - y"] by simp
  with r B(1) have "\<bar>a\<bar> \<le> 2 * B" by simp
  then have "\<bar>a\<bar> / 2 ^ 53 \<le> 2 * B / 2 ^ 53" by (simp add: divide_right_mono)
  moreover have "t \<le> \<bar>a\<bar> / 2 ^ 53" unfolding t_def by (rule double_error)
  ultimately have e2: "t \<le> 2 * B / 2 ^ 53" by simp
  have "\<bar>double a - y\<bar> \<le> t + r"
    unfolding t_def r_def using abs_triangle_ineq [of "double a - a" "a - y"] by simp
  also have "\<dots> \<le> 2 * B / 2 ^ 53 + B / 2 ^ 53" using e1 e2 by simp
  also have "\<dots> = 3 * B / 2 ^ 53" by simp
  finally show ?thesis unfolding a_def B_def .
qed

text \<open>
  The roundings of the sample session, each argument a fraction in lowest terms: the
  literal 16.67; the frame speeds \<open>(2.5 * deltaTime) / 16.67\<close> of the three ticks, with the
  time steps 16.67, 17 and 78; the subtractions of the three ticks and the addition of the
  third.
\<close>

lemma double_step: "double (1667 / 100) = 1173046965441659 / 70368744177664"
  using double_scale [of "1667 / 100" 48] by (simp add: roundEven_def Let_def)

lemma double_2500: "double 2500 = 2500"
  using double_scale [of "2500" 41] by (simp add: roundEven_def Let_def)

lemma double_4936: "double 4936 = 4936"
  using double_scale [of "4936" 40] by (simp add: roundEven_def Let_def)

lemma double_speed1a: "double (5865234827208295 / 140737488355328) = 5865234827208295 / 140737488355328"
  using double_scale [of "5865234827208295 / 140737488355328" 47] by (simp add: roundEven_def Let_def)

lemma double_speed1: "double (5 / 2) = 5 / 2"
  using double_scale [of "5 / 2" 51] by (simp add: roundEven_def Let_def)

lemma double_up1: "double (4995 / 2) = 4995 / 2"
  using double_scale [of "4995 / 2" 41] by (simp add: roundEven_def Let_def)

lemma double_17: "double 17 = 17"
  using double_scale [of "17" 48] by (simp add: roundEven_def Let_def)

lemma double_speed2a: "double (85 / 2) = 85 / 2"
  using double_scale [of "85 / 2" 47] by (simp add: roundEven_def Let_def)

lemma double_speed2: "double (2990671627550720 / 1173046965441659) = 717617667078757 / 281474976710656"
  using double_scale [of "2990671627550720 / 1173046965441659" 51] by (simp add: roundEven_def Let_def)

lemma double_up2: "double (702266136667784603 / 281474976710656) = 5486454192717067 / 2199023255552"
  using double_scale [of "702266136667784603 / 281474976710656" 41] by (simp add: roundEven_def Let_def)

lemma double_78: "double 78 = 78"
  using double_scale [of "78" 46] by (simp add: roundEven_def Let_def)

lemma double_speed3a: "double 195 = 195"
  using double_scale [of "195" 45] by (simp add: roundEven_def Let_def)

lemma double_speed3: "double (13721905114644480 / 1173046965441659) = 51446854808955 / 4398046511104"
  using double_scale [of "13721905114644480 / 1173046965441659" 49] by (simp add: roundEven_def Let_def)

lemma double_up3: "double (10921461530625179 / 4398046511104) = 2730365382656295 / 1099511627776"
  using double_scale [of "10921461530625179 / 4398046511104" 41] by (simp add: roundEven_def Let_def)

lemma double_down3: "double (10972908385434135 / 4398046511104) = 1371613548179267 / 549755813888"
  using double_scale [of "10972908385434135 / 4398046511104" 41] by (simp add: roundEven_def Let_def)

text \<open>
  The roundings of two runs that leave the bounds: the literal 3196.64, the time step
  \<open>3196.64 - 20000\<close> and the frame speed of that tick; the frame speed of a first tick with
  the movement speed \<open>-2510\<close>.
\<close>

lemma double_back_time: "double (79916 / 25) = 7029485699627745 / 2199023255552"
  using double_scale [of "79916 / 25" 41] by (simp add: roundEven_def Let_def)

lemma double_back_step: "double (- (36950979411412255 / 2199023255552)) = - (1154718106606633 / 68719476736)"
  using double_scale [of "- (36950979411412255 / 2199023255552)" 38] by (simp add: roundEven_def Let_def)

lemma double_back_speed_a: "double (- (5773590533033165 / 137438953472)) = - (5773590533033165 / 137438953472)"
  using double_scale [of "- (5773590533033165 / 137438953472)" 37] by (simp add: roundEven_def Let_def)

lemma double_back_speed: "double (- (2956078352912980480 / 1173046965441659)) = - 2520"
  using double_scale [of "- (2956078352912980480 / 1173046965441659)" 41] by (simp add: roundEven_def Let_def)

lemma double_back_down: "double (- 20) = - 20"
  using double_scale [of "- 20" 48] by (simp add: roundEven_def Let_def)

lemma double_20000: "double 20000 = 20000"
  using double_scale [of "20000" 38] by (simp add: roundEven_def Let_def)

lemma double_reverse_speed_a: "double (- (1472173941629282045 / 35184372088832)) = - (5750679459489383 / 137438953472)"
  using double_scale [of "- (1472173941629282045 / 35184372088832)" 37] by (simp add: roundEven_def Let_def)

lemma double_reverse_speed: "double (- (2944347883258564096 / 1173046965441659)) = - 2510"
  using double_scale [of "- (2944347883258564096 / 1173046965441659)" 41] by (simp add: roundEven_def Let_def)

lemma double_reverse_down: "double (- 10) = - 10"
  using double_scale [of "- 10" 49] by (simp add: roundEven_def Let_def)

text \<open>
  In a world of 5000 by 5000 with a character of size 64 and no obstacle, a position well
  inside is free; so is one whose \<open>y\<close> is at most 31 above the upper edge, as the hitbox
  begins 32 below the position.
\<close>

lemma free_Double:
  assumes "characterSize config = 64" and "worldWidth config = 5000"
    and "worldHeight config = 5000"
    and "0 \<le> x" and "x \<le> 4000" and "- 31 \<le> y" and "y \<le> 4000"
  shows "\<not> checkCollision Double config [] x y"
proof -
  note l = double_close(1) and u = double_close(2)
  have a: "x + 16 - 1 / 1000 \<le> double (x + 16)"
    using assms by (intro l) simp
  have b: "double (x + 64) \<le> x + 64 + 1 / 1000" "x + 64 - 1 / 1000 \<le> double (x + 64)"
    using assms by (intro l u; simp)+
  have b': "double (double (x + 64) - 16) \<le> double (x + 64) - 16 + 1 / 1000"
    using assms b by (intro u) simp
  have c: "32 - 1 / 1000 \<le> double 32"
    using l [of 32] by simp
  have c2: "double 32 \<le> 32 + 1 / 1000"
    using u [of 32] by simp
  have c': "y + double 32 - 1 / 1000 \<le> double (y + double 32)"
    using assms c c2 by (intro l) simp
  have d: "double (y + 64) \<le> y + 64 + 1 / 1000" "y + 64 - 1 / 1000 \<le> double (y + 64)"
    using assms by (intro l u; simp)+
  have d': "double (double (y + 64) - 8) \<le> double (y + 64) - 8 + 1 / 1000"
    using assms d by (intro u) simp
  show ?thesis
    using assms a b b' c c' d d' by (simp add: checkCollision_def)
qed

lemma free_in_Double:
  assumes "0 \<le> x" and "x \<le> 4000" and "- 31 \<le> y" and "y \<le> 4000"
  shows "\<not> checkCollision Double gameConfig [] x y"
  by (rule free_Double) (simp_all add: gameConfig_def assms)

lemma free_in_reverse:
  assumes "0 \<le> x" and "x \<le> 4000" and "- 31 \<le> y" and "y \<le> 4000"
  shows "\<not> checkCollision Double reverseConfig [] x y"
  by (rule free_Double) (simp_all add: reverseConfig_def gameConfig_def assms)

lemma start_Double:
  "targetPosition (initialEngine Double gameConfig) = \<lparr>pos_x = 2500, pos_y = 2500\<rparr>"
  "lastFrameTime (initialEngine Double gameConfig) = 0"
  using double_2500 by (simp_all add: initialEngine_def gameConfig_def)

subsection \<open>Bounds containment\<close>

lemma clampedDeltaTime_nonneg:
  assumes "lastFrameTime e = 0 \<or> lastFrameTime e \<le> time"
  shows "0 \<le> clampedDeltaTime ar e time"
proof -
  have "0 \<le> rnd ar 16.67" by (rule rnd_nonneg) simp
  moreover have "0 \<le> rnd ar (time - lastFrameTime e)" if "lastFrameTime e \<le> time"
    using that by (intro rnd_nonneg) simp
  ultimately show ?thesis
    using assms by (auto simp: clampedDeltaTime_def Let_def)
qed

lemma frameSpeedOf_nonneg:
  assumes "0 \<le> movementSpeed config" and "0 \<le> clampedDeltaTime ar e time"
  shows "0 \<le> frameSpeedOf ar config e time"
proof -
  have "0 \<le> rnd ar (movementSpeed config * clampedDeltaTime ar e time)"
    using assms by (intro rnd_nonneg mult_nonneg_nonneg)
  moreover have "0 \<le> rnd ar 16.67" by (rule rnd_nonneg) simp
  ultimately have "0 \<le> rnd ar (movementSpeed config * clampedDeltaTime ar e time)
                        / rnd ar 16.67"
    by (rule divide_nonneg_nonneg)
  then show ?thesis
    unfolding frameSpeedOf_def by (rule rnd_nonneg)
qed

text \<open>
  The two clamps keep a coordinate \<open>c\<close> within \<open>[0, b]\<close>, where \<open>b\<close> is a value of the
  arithmetic: a rounded difference is not above \<open>b\<close> when the exact one is not.
\<close>

lemma clamp_up:
  assumes "0 \<le> s" and "0 \<le> c" and "c \<le> rnd ar b"
  shows "max 0 (rnd ar (c - s)) \<le> rnd ar b"
proof (cases "c - s \<le> 0")
  case True
  then have "rnd ar (c - s) \<le> 0" by (rule rnd_nonpos)
  with assms(2,3) show ?thesis by simp
next
  case False
  then have "0 < c - s" by simp
  moreover have "c - s \<le> rnd ar b" using assms(1,3) by simp
  ultimately have "rnd ar (c - s) \<le> rnd ar b" by (rule rnd_below)
  with assms(2,3) show ?thesis by simp
qed

lemma clamp_down:
  assumes "0 \<le> s" and "0 \<le> c" and "c \<le> rnd ar b"
  shows "0 \<le> min (rnd ar b) (rnd ar (c + s))"
proof -
  have "0 \<le> rnd ar (c + s)" using assms(1,2) by (intro rnd_nonneg) simp
  with assms(2,3) show ?thesis by simp
qed

lemma keyUp_inBounds:
  assumes "0 \<le> s" and "localsInBounds ar config v"
  shows "localsInBounds ar config (keyUp ar config objs keys s v)"
proof -
  from assms(2) have "0 \<le> newY v"
    and "newY v \<le> rnd ar (worldHeight config - characterSize config)"
    by (simp_all add: localsInBounds_def inBounds_def)
  with assms(1) have "max 0 (rnd ar (newY v - s))
      \<le> rnd ar (worldHeight config - characterSize config)"
    by (rule clamp_up)
  with assms(2) show ?thesis
    by (simp add: keyUp_def localsInBounds_def inBounds_def Let_def)
qed

lemma keyDown_inBounds:
  assumes "0 \<le> s" and "localsInBounds ar config v"
  shows "localsInBounds ar config (keyDown ar config objs keys s v)"
proof -
  from assms(2) have "0 \<le> newY v"
    and "newY v \<le> rnd ar (worldHeight config - characterSize config)"
    by (simp_all add: localsInBounds_def inBounds_def)
  with assms(1) have "0 \<le> min (rnd ar (worldHeight config - characterSize config))
                             (rnd ar (newY v + s))"
    by (rule clamp_down)
  with assms(2) show ?thesis
    by (simp add: keyDown_def localsInBounds_def inBounds_def Let_def)
qed

lemma keyLeft_inBounds:
  assumes "0 \<le> s" and "localsInBounds ar config v"
  shows "localsInBounds ar config (keyLeft ar config objs keys s v)"
proof -
  from assms(2) have "0 \<le> newX v"
    and "newX v \<le> rnd ar (worldWidth config - characterSize config)"
    by (simp_all add: localsInBounds_def inBounds_def)
  with assms(1) have "max 0 (rnd ar (newX v - s))
      \<le> rnd ar (worldWidth config - characterSize config)"
    by (rule clamp_up)
  with assms(2) show ?thesis
    by (simp add: keyLeft_def localsInBounds_def inBounds_def Let_def)
qed

lemma keyRight_inBounds:
  assumes "0 \<le> s" and "localsInBounds ar config v"
  shows "localsInBounds ar config (keyRight ar config objs keys s v)"
proof -
  from assms(2) have "0 \<le> newX v"
    and "newX v \<le> rnd ar (worldWidth config - characterSize config)"
    by (simp_all add: localsInBounds_def inBounds_def)
  with assms(1) have "0 \<le> min (rnd ar (worldWidth config - characterSize config))
                             (rnd ar (newX v + s))"
    by (rule clamp_down)
  with assms(2) show ?thesis
    by (simp add: keyRight_def localsInBounds_def inBounds_def Let_def)
qed

lemma handleMovementInput_inBounds:
  assumes "0 \<le> s" and "localsInBounds ar config v"
  shows "localsInBounds ar config (handleMovementInput ar config objs keys s v)"
  unfolding handleMovementInput_def
  by (intro keyRight_inBounds keyLeft_inBounds keyDown_inBounds keyUp_inBounds assms)

lemma updatePlayerMovement_inBounds:
  assumes ms: "0 \<le> movementSpeed config"
    and dt: "0 \<le> clampedDeltaTime ar e time"
    and inb: "inBounds ar config (targetPosition e)"
  shows "inBounds ar config (targetPosition (updatePlayerMovement ar config objs keys time e))"
proof -
  have s: "0 \<le> frameSpeedOf ar config e time"
    using ms dt by (rule frameSpeedOf_nonneg)
  have "localsInBounds ar config
          \<lparr>newX = pos_x (targetPosition e), newY = pos_y (targetPosition e),
           newDirection = direction e, moving = False\<rparr>"
    using inb by (simp add: localsInBounds_def inBounds_def)
  with s have "localsInBounds ar config
     (handleMovementInput ar config objs keys (frameSpeedOf ar config e time)
          \<lparr>newX = pos_x (targetPosition e), newY = pos_y (targetPosition e),
           newDirection = direction e, moving = False\<rparr>)"
    by (rule handleMovementInput_inBounds)
  then show ?thesis
    by (simp add: targetPosition_update localsInBounds_def)
qed

lemma runTicks_inBounds:
  assumes "0 \<le> movementSpeed config"
    and "sorted (map fst ticks)"
    and "lastFrameTime e = 0 \<or> (\<forall>t \<in> set (map fst ticks). lastFrameTime e \<le> t)"
    and "inBounds ar config (targetPosition e)"
  shows "inBounds ar config (targetPosition (runTicks ar config ticks e))"
  using assms
proof (induction ticks arbitrary: e)
  case Nil
  then show ?case by simp
next
  case (Cons tick ticks)
  obtain time keys objs where tick: "tick = (time, keys, objs)"
    by (cases tick) auto
  let ?e = "updatePlayerMovement ar config objs keys time e"
  from Cons.prems(3) have "lastFrameTime e = 0 \<or> lastFrameTime e \<le> time"
    by (auto simp: tick)
  then have dt: "0 \<le> clampedDeltaTime ar e time" by (rule clampedDeltaTime_nonneg)
  have inb: "inBounds ar config (targetPosition ?e)"
    using Cons.prems(1) dt Cons.prems(4) by (rule updatePlayerMovement_inBounds)
  from Cons.prems(2) have srt: "sorted (map fst ticks)"
    and later: "\<forall>t \<in> set (map fst ticks). time \<le> t"
    by (auto simp: tick)
  have "inBounds ar config (targetPosition (runTicks ar config ticks ?e))"
    using Cons.prems(1) srt _ inb
  proof (rule Cons.IH)
    show "lastFrameTime ?e = 0 \<or> (\<forall>t \<in> set (map fst ticks). lastFrameTime ?e \<le> t)"
      using later by simp
  qed
  then show ?case by (simp add: tick)
qed

lemma down_only:
  assumes "\<not> checkCollision ar config [] x (rnd ar (y + s))"
    and "rnd ar (y + s) \<le> rnd ar (worldHeight config - characterSize config)"
  shows "handleMovementInput ar config [] (holding [''s'']) s
           \<lparr>newX = x, newY = y, newDirection = d, moving = False\<rparr>
         = \<lparr>newX = x, newY = rnd ar (y + s), newDirection = Down, moving = True\<rparr>"
  using assms
  by (simp add: handleMovementInput_def keyUp_def keyDown_def keyLeft_def keyRight_def
      holding_def Let_def min_def)

lemma below_free: "\<not> checkCollision Exact gameConfig [] 2500 (- 20)"
  "\<not> checkCollision Exact reverseConfig [] 2500 (- 10)"
  by (simp_all add: checkCollision_def gameConfig_def reverseConfig_def)

lemma backward_first:
  "targetPosition (updatePlayerMovement Exact gameConfig [] idle 20000 (initialEngine Exact gameConfig))
     = \<lparr>pos_x = 2500, pos_y = 2500\<rparr>"
  by (simp add: targetPosition_idle sample_target)

lemma backward_run:
  "targetPosition (runTicks Exact gameConfig (backwardTicks Exact) (initialEngine Exact gameConfig))
     = \<lparr>pos_x = 2500, pos_y = - 20\<rparr>"
proof -
  let ?e = "updatePlayerMovement Exact gameConfig [] idle 20000 (initialEngine Exact gameConfig)"
  have "handleMovementInput Exact gameConfig [] (holding [''s'']) (- 2520)
           \<lparr>newX = 2500, newY = 2500, newDirection = direction ?e, moving = False\<rparr>
         = \<lparr>newX = 2500, newY = rnd Exact (2500 + (- 2520)), newDirection = Down,
            moving = True\<rparr>"
    by (rule down_only) (simp_all add: below_free, simp add: gameConfig_def)
  then show ?thesis
    unfolding backwardTicks_def runTicks.simps
    by (subst targetPosition_update)
       (simp add: backward_first frameSpeedOf_def clampedDeltaTime_def, simp add: gameConfig_def)
qed

lemma reverse_speed:
  "frameSpeedOf Exact reverseConfig (initialEngine Exact reverseConfig) 16 = - 2510"
  by (simp add: frameSpeedOf_def clampedDeltaTime_def reverseConfig_def gameConfig_def
      initialEngine_def)

lemma reverse_run:
  "targetPosition (runTicks Exact reverseConfig downTick (initialEngine Exact reverseConfig))
     = \<lparr>pos_x = 2500, pos_y = - 10\<rparr>"
proof -
  let ?e = "initialEngine Exact reverseConfig"
  have t: "targetPosition ?e = \<lparr>pos_x = 2500, pos_y = 2500\<rparr>"
    by (simp add: initialEngine_def reverseConfig_def gameConfig_def)
  have "handleMovementInput Exact reverseConfig [] (holding [''s'']) (- 2510)
           \<lparr>newX = 2500, newY = 2500, newDirection = direction ?e, moving = False\<rparr>
         = \<lparr>newX = 2500, newY = rnd Exact (2500 + (- 2510)), newDirection = Down,
            moving = True\<rparr>"
    by (rule down_only) (simp_all add: below_free, simp add: reverseConfig_def gameConfig_def)
  then show ?thesis
    unfolding downTick_def runTicks.simps
    by (subst targetPosition_update) (simp add: t reverse_speed)
qed

lemma backward_speed_Double:
  "frameSpeedOf Double gameConfig
     (updatePlayerMovement Double gameConfig [] idle 20000 (initialEngine Double gameConfig))
     (7029485699627745 / 2199023255552) = - 2520"
  by (simp add: frameSpeedOf_def clampedDeltaTime_def gameConfig_def double_step
      double_back_step double_back_speed_a double_back_speed)

lemma backward_run_Double:
  "targetPosition (runTicks Double gameConfig (backwardTicks Double)
     (initialEngine Double gameConfig)) = \<lparr>pos_x = 2500, pos_y = - 20\<rparr>"
proof -
  let ?e = "updatePlayerMovement Double gameConfig [] idle 20000 (initialEngine Double gameConfig)"
  have t: "targetPosition ?e = \<lparr>pos_x = 2500, pos_y = 2500\<rparr>"
    by (simp add: targetPosition_idle start_Double)
  have "handleMovementInput Double gameConfig [] (holding [''s'']) (- 2520)
           \<lparr>newX = 2500, newY = 2500, newDirection = direction ?e, moving = False\<rparr>
         = \<lparr>newX = 2500, newY = rnd Double (2500 + (- 2520)), newDirection = Down,
            moving = True\<rparr>"
    by (rule down_only)
      (simp_all add: double_back_down free_in_Double, simp add: gameConfig_def double_4936)
  then show ?thesis
    unfolding backwardTicks_def runTicks.simps
    by (subst targetPosition_update)
      (simp add: t double_back_time backward_speed_Double double_back_down)
qed

lemma reverse_speed_Double:
  "frameSpeedOf Double reverseConfig (initialEngine Double reverseConfig) 16 = - 2510"
  by (simp add: frameSpeedOf_def clampedDeltaTime_def reverseConfig_def gameConfig_def
      initialEngine_def double_step double_reverse_speed_a double_reverse_speed)

lemma reverse_run_Double:
  "targetPosition (runTicks Double reverseConfig downTick (initialEngine Double reverseConfig))
     = \<lparr>pos_x = 2500, pos_y = - 10\<rparr>"
proof -
  let ?e = "initialEngine Double reverseConfig"
  have t: "targetPosition ?e = \<lparr>pos_x = 2500, pos_y = 2500\<rparr>"
    by (simp add: initialEngine_def reverseConfig_def gameConfig_def double_2500)
  have "handleMovementInput Double reverseConfig [] (holding [''s'']) (- 2510)
           \<lparr>newX = 2500, newY = 2500, newDirection = direction ?e, moving = False\<rparr>
         = \<lparr>newX = 2500, newY = rnd Double (2500 + (- 2510)), newDirection = Down,
            moving = True\<rparr>"
    by (rule down_only)
      (simp_all add: double_reverse_down free_in_reverse,
        simp add: reverseConfig_def gameConfig_def double_4936)
  then show ?thesis
    unfolding downTick_def runTicks.simps
    by (subst targetPosition_update) (simp add: t reverse_speed_Double double_reverse_down)
qed

text \<open>
  C4 as stated fails, for every sequence of ticks: the time step is cut at 100 from above
  only, and a negative frame speed passes the one-sided clamp of each key block. In the
  game's configuration, from the session start (2500, 2500), a tick at time 20000 followed
  by a tick at the earlier time 3196.64 with the down key held has the time step
  \<open>-16803.36\<close> and the frame speed \<open>-2520\<close>; \<open>Math.min(4936, 2500 - 2520)\<close> is \<open>-20\<close>, the
  hitbox at \<open>y = -20\<close> is inside the world, and the target position becomes (2500, -20).
  The same happens in one tick (the first, whose time step is 16.67) when the configured
  movement speed is \<open>-2510\<close>: the target position becomes (2500, -10). Both runs end at
  these positions over the real numbers and in the arithmetic of the code.
\<close>

theorem targetPosition_bounds_counterexample:
  "inBounds Exact gameConfig
     \<lparr>pos_x = worldWidth gameConfig / 2, pos_y = worldHeight gameConfig / 2\<rparr>
   \<and> targetPosition (runTicks Exact gameConfig (backwardTicks Exact)
         (initialEngine Exact gameConfig)) = \<lparr>pos_x = 2500, pos_y = - 20\<rparr>
   \<and> \<not> inBounds Exact gameConfig
          (targetPosition (runTicks Exact gameConfig (backwardTicks Exact)
             (initialEngine Exact gameConfig)))
   \<and> inBounds Exact reverseConfig
         \<lparr>pos_x = worldWidth reverseConfig / 2, pos_y = worldHeight reverseConfig / 2\<rparr>
   \<and> targetPosition (runTicks Exact reverseConfig downTick (initialEngine Exact reverseConfig))
       = \<lparr>pos_x = 2500, pos_y = - 10\<rparr>
   \<and> \<not> inBounds Exact reverseConfig
          (targetPosition (runTicks Exact reverseConfig downTick
             (initialEngine Exact reverseConfig)))
   \<and> inBounds Double gameConfig (targetPosition (initialEngine Double gameConfig))
   \<and> targetPosition (runTicks Double gameConfig (backwardTicks Double)
         (initialEngine Double gameConfig)) = \<lparr>pos_x = 2500, pos_y = - 20\<rparr>
   \<and> \<not> inBounds Double gameConfig
          (targetPosition (runTicks Double gameConfig (backwardTicks Double)
             (initialEngine Double gameConfig)))
   \<and> inBounds Double reverseConfig (targetPosition (initialEngine Double reverseConfig))
   \<and> targetPosition (runTicks Double reverseConfig downTick
         (initialEngine Double reverseConfig)) = \<lparr>pos_x = 2500, pos_y = - 10\<rparr>
   \<and> \<not> inBounds Double reverseConfig
          (targetPosition (runTicks Double reverseConfig downTick
             (initialEngine Double reverseConfig)))"
  unfolding backward_run reverse_run backward_run_Double reverse_run_Double
  by (simp add: inBounds_def gameConfig_def reverseConfig_def initialEngine_def
      double_2500 double_4936)

text \<open>
  C4 amended, in either arithmetic (over the real numbers and in the doubles of the
  code): when the movement speed is not negative and the timestamps of the ticks do not
  decrease (as those of the animation loop), then from the session-start state, whose
  position \<open>(worldWidth/2, worldHeight/2)\<close> lies within the bounds, after every sequence of
  ticks, whatever keys are held and whatever obstacle hitboxes are stored at each tick, the
  target position has \<open>x\<close> in \<open>[0, worldWidth - characterSize]\<close> and \<open>y\<close> in
  \<open>[0, worldHeight - characterSize]\<close>, the two differences as the key blocks compute
  them. Every prefix of such a sequence is such a sequence, so the bounds hold after each
  tick.
\<close>

theorem targetPosition_bounds:
  assumes "0 \<le> movementSpeed config"
    and "sorted (map fst ticks)"
    and "inBounds ar config
           \<lparr>pos_x = rnd ar (worldWidth config / 2), pos_y = rnd ar (worldHeight config / 2)\<rparr>"
  shows "inBounds ar config (targetPosition (runTicks ar config ticks (initialEngine ar config)))"
proof -
  have start: "lastFrameTime (initialEngine ar config) = 0
        \<or> (\<forall>t \<in> set (map fst ticks). lastFrameTime (initialEngine ar config) \<le> t)"
    by (simp add: initialEngine_def)
  have inb: "inBounds ar config (targetPosition (initialEngine ar config))"
    using assms(3) by (simp add: initialEngine_def)
  from assms(1,2) start inb show ?thesis by (rule runTicks_inBounds)
qed

text \<open>
  Two ticks of the game's own configuration in the arithmetic of the code: up held, then
  right and down held.
\<close>

theorem targetPosition_bounds_witness:
  "0 \<le> movementSpeed gameConfig
   \<and> sorted (map fst sampleTicks)
   \<and> inBounds Double gameConfig
        \<lparr>pos_x = rnd Double (worldWidth gameConfig / 2),
         pos_y = rnd Double (worldHeight gameConfig / 2)\<rparr>
   \<and> inBounds Double gameConfig
        (targetPosition (runTicks Double gameConfig sampleTicks (initialEngine Double gameConfig)))"
proof -
  have a: "0 \<le> movementSpeed gameConfig" by (simp add: gameConfig_def)
  have b: "sorted (map fst sampleTicks)" by (simp add: sampleTicks_def)
  have c: "inBounds Double gameConfig
        \<lparr>pos_x = rnd Double (worldWidth gameConfig / 2),
         pos_y = rnd Double (worldHeight gameConfig / 2)\<rparr>"
    by (simp add: gameConfig_def inBounds_def double_2500 double_4936)
  from targetPosition_bounds [OF a b c] a b c show ?thesis by simp
qed

subsection \<open>Opposite keys\<close>

lemma keyUp_moves:
  assumes "keys ''ArrowUp'' \<or> keys ''w''"
    and "0 \<le> rnd ar (newY v - s)"
    and "\<not> checkCollision ar config objs (newX v) (rnd ar (newY v - s))"
  shows "keyUp ar config objs keys s v
           = v\<lparr>newY := rnd ar (newY v - s), newDirection := Up, moving := True\<rparr>"
  using assms by (simp add: keyUp_def Let_def max_def)

lemma keyDown_moves:
  assumes "keys ''ArrowDown'' \<or> keys ''s''"
    and "rnd ar (newY v + s) \<le> rnd ar (worldHeight config - characterSize config)"
    and "\<not> checkCollision ar config objs (newX v) (rnd ar (newY v + s))"
  shows "keyDown ar config objs keys s v
           = v\<lparr>newY := rnd ar (newY v + s), newDirection := Down, moving := True\<rparr>"
  using assms by (simp add: keyDown_def Let_def min_def)

lemma keyLeft_moves:
  assumes "keys ''ArrowLeft'' \<or> keys ''a''"
    and "0 \<le> rnd ar (newX v - s)"
    and "\<not> checkCollision ar config objs (rnd ar (newX v - s)) (newY v)"
  shows "keyLeft ar config objs keys s v
           = v\<lparr>newX := rnd ar (newX v - s), newDirection := Left, moving := True\<rparr>"
  using assms by (simp add: keyLeft_def Let_def max_def)

lemma keyRight_moves:
  assumes "keys ''ArrowRight'' \<or> keys ''d''"
    and "rnd ar (newX v + s) \<le> rnd ar (worldWidth config - characterSize config)"
    and "\<not> checkCollision ar config objs (rnd ar (newX v + s)) (newY v)"
  shows "keyRight ar config objs keys s v
           = v\<lparr>newX := rnd ar (newX v + s), newDirection := Right, moving := True\<rparr>"
  using assms by (simp add: keyRight_def Let_def min_def)

lemma keyUp_newX [simp]: "newX (keyUp ar config objs keys s v) = newX v"
  by (simp add: keyUp_def Let_def)

lemma keyDown_newX [simp]: "newX (keyDown ar config objs keys s v) = newX v"
  by (simp add: keyDown_def Let_def)

lemma keyLeft_newY [simp]: "newY (keyLeft ar config objs keys s v) = newY v"
  by (simp add: keyLeft_def Let_def)

lemma keyRight_newY [simp]: "newY (keyRight ar config objs keys s v) = newY v"
  by (simp add: keyRight_def Let_def)

lemma keyLeft_moving: "moving v \<Longrightarrow> moving (keyLeft ar config objs keys s v)"
  by (simp add: keyLeft_def Let_def)

lemma keyRight_moving: "moving v \<Longrightarrow> moving (keyRight ar config objs keys s v)"
  by (simp add: keyRight_def Let_def)

text \<open>
  Up and down in one tick, neither clamped nor blocked: the \<open>y\<close> coordinate is
  \<open>(y - s) + s\<close>, each operation rounded.
\<close>

lemma vertical_round_trip:
  assumes up: "keys ''ArrowUp'' \<or> keys ''w''" and dn: "keys ''ArrowDown'' \<or> keys ''s''"
    and "0 \<le> rnd ar (newY v - s)"
    and "\<not> checkCollision ar config objs (newX v) (rnd ar (newY v - s))"
    and "rnd ar (rnd ar (newY v - s) + s) \<le> rnd ar (worldHeight config - characterSize config)"
    and "\<not> checkCollision ar config objs (newX v) (rnd ar (rnd ar (newY v - s) + s))"
  shows "newY (handleMovementInput ar config objs keys s v) = rnd ar (rnd ar (newY v - s) + s)"
    and "moving (handleMovementInput ar config objs keys s v)"
proof -
  let ?u = "keyUp ar config objs keys s v"
  have u: "?u = v\<lparr>newY := rnd ar (newY v - s), newDirection := Up, moving := True\<rparr>"
    using up assms(3,4) by (rule keyUp_moves)
  have "keyDown ar config objs keys s ?u
          = ?u\<lparr>newY := rnd ar (newY ?u + s), newDirection := Down, moving := True\<rparr>"
    using dn
  proof (rule keyDown_moves)
    show "rnd ar (newY ?u + s) \<le> rnd ar (worldHeight config - characterSize config)"
      using assms(5) by (simp add: u)
    show "\<not> checkCollision ar config objs (newX ?u) (rnd ar (newY ?u + s))"
      using assms(6) by (simp add: u)
  qed
  then have d: "keyDown ar config objs keys s ?u
      = v\<lparr>newY := rnd ar (rnd ar (newY v - s) + s), newDirection := Down, moving := True\<rparr>"
    by (simp add: u)
  show "newY (handleMovementInput ar config objs keys s v) = rnd ar (rnd ar (newY v - s) + s)"
    by (simp add: handleMovementInput_def d)
  show "moving (handleMovementInput ar config objs keys s v)"
    unfolding handleMovementInput_def
    by (intro keyRight_moving keyLeft_moving) (simp add: d)
qed

lemma horizontal_round_trip:
  assumes lf: "keys ''ArrowLeft'' \<or> keys ''a''" and rt: "keys ''ArrowRight'' \<or> keys ''d''"
    and w: "w = keyDown ar config objs keys s (keyUp ar config objs keys s v)"
    and "0 \<le> rnd ar (newX v - s)"
    and "\<not> checkCollision ar config objs (rnd ar (newX v - s)) (newY w)"
    and "rnd ar (rnd ar (newX v - s) + s) \<le> rnd ar (worldWidth config - characterSize config)"
    and "\<not> checkCollision ar config objs (rnd ar (rnd ar (newX v - s) + s)) (newY w)"
  shows "newX (handleMovementInput ar config objs keys s v) = rnd ar (rnd ar (newX v - s) + s)"
    and "moving (handleMovementInput ar config objs keys s v)"
proof -
  have wx: "newX w = newX v" by (simp add: w)
  let ?l = "keyLeft ar config objs keys s w"
  have l: "?l = w\<lparr>newX := rnd ar (newX w - s), newDirection := Left, moving := True\<rparr>"
    using lf assms(4,5) by (intro keyLeft_moves) (simp_all add: wx)
  have "keyRight ar config objs keys s ?l
          = ?l\<lparr>newX := rnd ar (newX ?l + s), newDirection := Right, moving := True\<rparr>"
    using rt
  proof (rule keyRight_moves)
    show "rnd ar (newX ?l + s) \<le> rnd ar (worldWidth config - characterSize config)"
      using assms(6) by (simp add: l wx)
    show "\<not> checkCollision ar config objs (rnd ar (newX ?l + s)) (newY ?l)"
      using assms(7) by (simp add: l wx)
  qed
  then have r: "keyRight ar config objs keys s ?l
      = w\<lparr>newX := rnd ar (rnd ar (newX v - s) + s), newDirection := Right, moving := True\<rparr>"
    by (simp add: l wx)
  have h: "handleMovementInput ar config objs keys s v = keyRight ar config objs keys s ?l"
    by (simp add: handleMovementInput_def w)
  show "newX (handleMovementInput ar config objs keys s v) = rnd ar (rnd ar (newX v - s) + s)"
    by (simp add: h r)
  show "moving (handleMovementInput ar config objs keys s v)" by (simp add: h r)
qed

lemma newY_handleMovementInput:
  "newY (handleMovementInput ar config objs keys s v)
     = newY (keyDown ar config objs keys s (keyUp ar config objs keys s v))"
  by (simp add: handleMovementInput_def)

text \<open>A tick with only the up key held and no obstacle.\<close>

lemma up_only:
  assumes "0 \<le> rnd ar (y - s)"
    and "\<not> checkCollision ar config [] x (rnd ar (y - s))"
  shows "handleMovementInput ar config [] (holding [''w'']) s
           \<lparr>newX = x, newY = y, newDirection = d, moving = False\<rparr>
         = \<lparr>newX = x, newY = rnd ar (y - s), newDirection = Up, moving = True\<rparr>"
  using assms
  by (simp add: handleMovementInput_def keyUp_def keyDown_def keyLeft_def keyRight_def
      holding_def Let_def max_def)

text \<open>The sample session in the arithmetic of the code, tick by tick.\<close>

lemma first_speed:
  "frameSpeedOf Double gameConfig (initialEngine Double gameConfig) 16 = 5 / 2"
  by (simp add: frameSpeedOf_def clampedDeltaTime_def initialEngine_def gameConfig_def
      double_step double_speed1a double_speed1)

lemma first_climb:
  "targetPosition (updatePlayerMovement Double gameConfig [] (holding [''w'']) 16
     (initialEngine Double gameConfig)) = \<lparr>pos_x = 2500, pos_y = 4995 / 2\<rparr>"
proof -
  let ?e = "initialEngine Double gameConfig"
  have "handleMovementInput Double gameConfig [] (holding [''w'']) (5 / 2)
           \<lparr>newX = 2500, newY = 2500, newDirection = direction ?e, moving = False\<rparr>
         = \<lparr>newX = 2500, newY = rnd Double (2500 - 5 / 2), newDirection = Up, moving = True\<rparr>"
    by (rule up_only) (simp_all add: double_up1 free_in_Double)
  then show ?thesis
    by (subst targetPosition_update) (simp add: start_Double first_speed double_up1)
qed

lemma second_speed:
  "frameSpeedOf Double gameConfig
     (updatePlayerMovement Double gameConfig [] (holding [''w'']) 16
        (initialEngine Double gameConfig)) 33
   = 717617667078757 / 281474976710656"
  by (simp add: frameSpeedOf_def clampedDeltaTime_def gameConfig_def
      double_step double_17 double_speed2a double_speed2)

lemma climbed_state:
  "targetPosition climbed = \<lparr>pos_x = 2500, pos_y = 5486454192717067 / 2199023255552\<rparr>"
  "lastFrameTime climbed = 33"
proof -
  let ?e = "updatePlayerMovement Double gameConfig [] (holding [''w'']) 16
              (initialEngine Double gameConfig)"
  have c: "climbed = updatePlayerMovement Double gameConfig [] (holding [''w'']) 33 ?e"
    by (simp add: climbed_def)
  have "handleMovementInput Double gameConfig [] (holding [''w''])
           (717617667078757 / 281474976710656)
           \<lparr>newX = 2500, newY = 4995 / 2, newDirection = direction ?e, moving = False\<rparr>
         = \<lparr>newX = 2500, newY = rnd Double (4995 / 2 - 717617667078757 / 281474976710656),
            newDirection = Up, moving = True\<rparr>"
    by (rule up_only) (simp_all add: double_up2 free_in_Double)
  then show "targetPosition climbed
      = \<lparr>pos_x = 2500, pos_y = 5486454192717067 / 2199023255552\<rparr>"
    unfolding c by (subst targetPosition_update) (simp add: first_climb second_speed double_up2)
  show "lastFrameTime climbed = 33"
    by (simp add: c)
qed

lemma third_speed:
  "frameSpeedOf Double gameConfig climbed 111 = 51446854808955 / 4398046511104"
  by (simp add: frameSpeedOf_def clampedDeltaTime_def gameConfig_def climbed_state
      double_step double_78 double_speed3a double_speed3)

lemma bothHeld_keys: "bothHeld ''w''" "bothHeld ''s''"
  by (simp_all add: bothHeld_def holding_def)

lemma sample_keys:
  "allKeys ''w''" "allKeys ''s''" "allKeys ''a''" "allKeys ''d''"
  by (simp_all add: allKeys_def holding_def)

text \<open>
  One tick with both keys of an axis held, in any arithmetic. The horizontal moves are
  tested at the \<open>y\<close> coordinate the vertical blocks of the same tick have left.
\<close>

lemma vertical_tick:
  fixes ar :: Arithmetic and config :: GameConfig and objs :: "Hitbox list"
    and keys :: KeysPressed and time :: real and e :: Engine
  defines "s \<equiv> frameSpeedOf ar config e time"
    and "x \<equiv> pos_x (targetPosition e)" and "y \<equiv> pos_y (targetPosition e)"
  assumes up: "keys ''ArrowUp'' \<or> keys ''w''" and dn: "keys ''ArrowDown'' \<or> keys ''s''"
    and c1: "0 \<le> rnd ar (y - s)"
    and f1: "\<not> checkCollision ar config objs x (rnd ar (y - s))"
    and c2: "rnd ar (rnd ar (y - s) + s) \<le> rnd ar (worldHeight config - characterSize config)"
    and f2: "\<not> checkCollision ar config objs x (rnd ar (rnd ar (y - s) + s))"
  shows "pos_y (targetPosition (updatePlayerMovement ar config objs keys time e))
           = rnd ar (rnd ar (y - s) + s)"
    and "isMoving (updatePlayerMovement ar config objs keys time e)"
proof -
  let ?v = "\<lparr>newX = x, newY = y, newDirection = direction e, moving = False\<rparr>"
  have "newY (handleMovementInput ar config objs keys s ?v) = rnd ar (rnd ar (newY ?v - s) + s)"
    and "moving (handleMovementInput ar config objs keys s ?v)"
    using up dn c1 f1 c2 f2 by (intro vertical_round_trip; simp)+
  then show "pos_y (targetPosition (updatePlayerMovement ar config objs keys time e))
               = rnd ar (rnd ar (y - s) + s)"
    and "isMoving (updatePlayerMovement ar config objs keys time e)"
    by (simp_all add: targetPosition_update isMoving_update s_def x_def y_def)
qed

lemma horizontal_tick:
  fixes ar :: Arithmetic and config :: GameConfig and objs :: "Hitbox list"
    and keys :: KeysPressed and time :: real and e :: Engine
  defines "s \<equiv> frameSpeedOf ar config e time"
    and "x \<equiv> pos_x (targetPosition e)"
    and "y' \<equiv> pos_y (targetPosition (updatePlayerMovement ar config objs keys time e))"
  assumes lf: "keys ''ArrowLeft'' \<or> keys ''a''" and rt: "keys ''ArrowRight'' \<or> keys ''d''"
    and c1: "0 \<le> rnd ar (x - s)"
    and f1: "\<not> checkCollision ar config objs (rnd ar (x - s)) y'"
    and c2: "rnd ar (rnd ar (x - s) + s) \<le> rnd ar (worldWidth config - characterSize config)"
    and f2: "\<not> checkCollision ar config objs (rnd ar (rnd ar (x - s) + s)) y'"
  shows "pos_x (targetPosition (updatePlayerMovement ar config objs keys time e))
           = rnd ar (rnd ar (x - s) + s)"
    and "isMoving (updatePlayerMovement ar config objs keys time e)"
proof -
  let ?v = "\<lparr>newX = x, newY = pos_y (targetPosition e), newDirection = direction e,
             moving = False\<rparr>"
  define w where "w = keyDown ar config objs keys s (keyUp ar config objs keys s ?v)"
  have y: "y' = newY w"
    by (simp add: y'_def targetPosition_update newY_handleMovementInput w_def s_def x_def)
  have "newX (handleMovementInput ar config objs keys s ?v) = rnd ar (rnd ar (newX ?v - s) + s)"
    and "moving (handleMovementInput ar config objs keys s ?v)"
    using lf rt w_def
    by (rule horizontal_round_trip; use c1 f1 c2 f2 in \<open>simp add: y [symmetric]\<close>)+
  then show "pos_x (targetPosition (updatePlayerMovement ar config objs keys time e))
               = rnd ar (rnd ar (x - s) + s)"
    and "isMoving (updatePlayerMovement ar config objs keys time e)"
    by (simp_all add: targetPosition_update isMoving_update s_def x_def)
qed

text \<open>Over the real numbers the two moves cancel.\<close>

lemma exact_keys_cancel:
  assumes "keys ''ArrowUp'' \<or> keys ''w''" and "keys ''ArrowDown'' \<or> keys ''s''"
    and "0 \<le> pos_y (targetPosition e) - frameSpeedOf Exact config e time"
    and "\<not> checkCollision Exact config objs (pos_x (targetPosition e))
             (pos_y (targetPosition e) - frameSpeedOf Exact config e time)"
    and "pos_y (targetPosition e) \<le> worldHeight config - characterSize config"
    and "\<not> checkCollision Exact config objs (pos_x (targetPosition e))
             (pos_y (targetPosition e))"
  shows "pos_y (targetPosition (updatePlayerMovement Exact config objs keys time e))
           = pos_y (targetPosition e)"
  using vertical_tick(1) [where ar = Exact and e = e and config = config and time = time
      and keys = keys and objs = objs] assms
  by simp

text \<open>
  C10 as stated fails in the arithmetic of the code. In the game's configuration with no
  obstacle, after ticks at the times 16 and 33 with the up key held, the target position
  is (2500, 2494.9505098980203), the double \<open>5486454192717067 / 2 ^ 41\<close>. In the tick at the
  time 111 with the up and down keys held the frame speed is 11.697660467906417;
  \<open>y - frameSpeed\<close> lies half way between two doubles and is rounded to the even one,
  2483.252849430114, and so is the sum with \<open>frameSpeed\<close>, which is rounded to
  2494.9505098980208, the double \<open>5486454192717068 / 2 ^ 41\<close>. Neither move is clamped or
  blocked, and the \<open>y\<close> coordinate of the target position has changed.
\<close>

theorem opposite_keys_cancel_counterexample:
  "(bothHeld ''ArrowUp'' \<or> bothHeld ''w'') \<and> (bothHeld ''ArrowDown'' \<or> bothHeld ''s'')
   \<and> 0 \<le> double (pos_y (targetPosition climbed) - frameSpeedOf Double gameConfig climbed 111)
   \<and> \<not> checkCollision Double gameConfig [] (pos_x (targetPosition climbed))
          (double (pos_y (targetPosition climbed) - frameSpeedOf Double gameConfig climbed 111))
   \<and> double (double (pos_y (targetPosition climbed) - frameSpeedOf Double gameConfig climbed 111)
               + frameSpeedOf Double gameConfig climbed 111)
       \<le> double (worldHeight gameConfig - characterSize gameConfig)
   \<and> \<not> checkCollision Double gameConfig [] (pos_x (targetPosition climbed))
          (double (double (pos_y (targetPosition climbed)
                            - frameSpeedOf Double gameConfig climbed 111)
                     + frameSpeedOf Double gameConfig climbed 111))
   \<and> pos_y (targetPosition climbed) = 5486454192717067 / 2 ^ 41
   \<and> pos_y (targetPosition (updatePlayerMovement Double gameConfig [] bothHeld 111 climbed))
       = 5486454192717068 / 2 ^ 41
   \<and> pos_y (targetPosition (updatePlayerMovement Double gameConfig [] bothHeld 111 climbed))
       \<noteq> pos_y (targetPosition climbed)
   \<and> isMoving (updatePlayerMovement Double gameConfig [] bothHeld 111 climbed)"
proof -
  let ?y = "pos_y (targetPosition climbed)"
  let ?s = "frameSpeedOf Double gameConfig climbed 111"
  have y: "?y = 5486454192717067 / 2199023255552" and x: "pos_x (targetPosition climbed) = 2500"
    by (simp_all add: climbed_state)
  have s: "?s = 51446854808955 / 4398046511104"
    by (rule third_speed)
  have u: "double (?y - ?s) = 2730365382656295 / 1099511627776"
    unfolding y s by (simp add: double_up3)
  have d: "double (double (?y - ?s) + ?s) = 1371613548179267 / 549755813888"
    unfolding u unfolding s by (simp add: double_down3)
  have b: "double (worldHeight gameConfig - characterSize gameConfig) = 4936"
    by (simp add: gameConfig_def double_4936)
  have k: "bothHeld ''ArrowUp'' \<or> bothHeld ''w''" "bothHeld ''ArrowDown'' \<or> bothHeld ''s''"
    by (simp_all add: bothHeld_keys)
  have c1: "0 \<le> double (?y - ?s)"
    unfolding u by simp
  have f1: "\<not> checkCollision Double gameConfig [] (pos_x (targetPosition climbed))
              (double (?y - ?s))"
    unfolding u x by (rule free_in_Double) simp_all
  have c2: "double (double (?y - ?s) + ?s)
              \<le> double (worldHeight gameConfig - characterSize gameConfig)"
    unfolding d b by simp
  have f2: "\<not> checkCollision Double gameConfig [] (pos_x (targetPosition climbed))
              (double (double (?y - ?s) + ?s))"
    unfolding d x by (rule free_in_Double) simp_all
  note t = vertical_tick [where ar = Double and e = climbed and config = gameConfig
      and time = 111 and keys = bothHeld and objs = "[]", unfolded rnd.simps, OF k c1 f1 c2 f2]
  have y': "pos_y (targetPosition (updatePlayerMovement Double gameConfig [] bothHeld 111 climbed))
              = 1371613548179267 / 549755813888"
    unfolding t(1) by (rule d)
  have n1: "(5486454192717067 :: real) / 2 ^ 41 = 5486454192717067 / 2199023255552"
    by simp
  have n2: "(5486454192717068 :: real) / 2 ^ 41 = 1371613548179267 / 549755813888"
    by simp
  have ne: "(1371613548179267 :: real) / 549755813888 \<noteq> 5486454192717067 / 2199023255552"
    by simp
  show ?thesis
    apply (intro conjI)
             apply (rule k(1))
            apply (rule k(2))
           apply (rule c1)
          apply (rule f1)
         apply (rule c2)
        apply (rule f2)
       apply (simp only: y n1)
      apply (simp only: y' n2)
     apply (simp only: y y' ne not_False_eq_True)
    apply (rule t(2))
    done
qed

text \<open>
  C10 amended: if in one tick both opposite keys of an axis are held (up and down, or left
  and right), and for both tentative moves neither the world-bounds clamp nor any obstacle
  collision blocks the move, then at the end of the tick the target position's coordinate
  on that axis is \<open>(c - frameSpeed) + frameSpeed\<close> with each of the two operations rounded
  to a double, where \<open>c\<close> is the coordinate before the tick: it differs from \<open>c\<close> by at most
  \<open>3 * (\<bar>c\<bar> + \<bar>frameSpeed\<bar>) / 2 ^ 53\<close> (the two moves cancel up to rounding, and exactly over
  the real numbers), while \<open>isMoving\<close> is set to true.
\<close>

theorem opposite_keys_nearly_cancel:
  "((keys ''ArrowUp'' \<or> keys ''w'') \<and> (keys ''ArrowDown'' \<or> keys ''s'')
      \<and> 0 \<le> double (pos_y (targetPosition e) - frameSpeedOf Double config e time)
      \<and> \<not> checkCollision Double config objs (pos_x (targetPosition e))
             (double (pos_y (targetPosition e) - frameSpeedOf Double config e time))
      \<and> double (double (pos_y (targetPosition e) - frameSpeedOf Double config e time)
                  + frameSpeedOf Double config e time)
          \<le> double (worldHeight config - characterSize config)
      \<and> \<not> checkCollision Double config objs (pos_x (targetPosition e))
             (double (double (pos_y (targetPosition e) - frameSpeedOf Double config e time)
                        + frameSpeedOf Double config e time))
    \<longrightarrow> pos_y (targetPosition (updatePlayerMovement Double config objs keys time e))
          = double (double (pos_y (targetPosition e) - frameSpeedOf Double config e time)
                      + frameSpeedOf Double config e time)
        \<and> \<bar>pos_y (targetPosition (updatePlayerMovement Double config objs keys time e))
             - pos_y (targetPosition e)\<bar>
            \<le> 3 * (\<bar>pos_y (targetPosition e)\<bar> + \<bar>frameSpeedOf Double config e time\<bar>) / 2 ^ 53
        \<and> isMoving (updatePlayerMovement Double config objs keys time e))
   \<and> ((keys ''ArrowLeft'' \<or> keys ''a'') \<and> (keys ''ArrowRight'' \<or> keys ''d'')
      \<and> 0 \<le> double (pos_x (targetPosition e) - frameSpeedOf Double config e time)
      \<and> \<not> checkCollision Double config objs
             (double (pos_x (targetPosition e) - frameSpeedOf Double config e time))
             (pos_y (targetPosition (updatePlayerMovement Double config objs keys time e)))
      \<and> double (double (pos_x (targetPosition e) - frameSpeedOf Double config e time)
                  + frameSpeedOf Double config e time)
          \<le> double (worldWidth config - characterSize config)
      \<and> \<not> checkCollision Double config objs
             (double (double (pos_x (targetPosition e) - frameSpeedOf Double config e time)
                        + frameSpeedOf Double config e time))
             (pos_y (targetPosition (updatePlayerMovement Double config objs keys time e)))
    \<longrightarrow> pos_x (targetPosition (updatePlayerMovement Double config objs keys time e))
          = double (double (pos_x (targetPosition e) - frameSpeedOf Double config e time)
                      + frameSpeedOf Double config e time)
        \<and> \<bar>pos_x (targetPosition (updatePlayerMovement Double config objs keys time e))
             - pos_x (targetPosition e)\<bar>
            \<le> 3 * (\<bar>pos_x (targetPosition e)\<bar> + \<bar>frameSpeedOf Double config e time\<bar>) / 2 ^ 53
        \<and> isMoving (updatePlayerMovement Double config objs keys time e))"
proof -
  let ?s = "frameSpeedOf Double config e time"
  let ?e' = "updatePlayerMovement Double config objs keys time e"
  have v: "pos_y (targetPosition ?e') = double (double (pos_y (targetPosition e) - ?s) + ?s)
        \<and> \<bar>pos_y (targetPosition ?e') - pos_y (targetPosition e)\<bar>
            \<le> 3 * (\<bar>pos_y (targetPosition e)\<bar> + \<bar>?s\<bar>) / 2 ^ 53
        \<and> isMoving ?e'"
    if a: "keys ''ArrowUp'' \<or> keys ''w''" "keys ''ArrowDown'' \<or> keys ''s''"
      "0 \<le> double (pos_y (targetPosition e) - ?s)"
      "\<not> checkCollision Double config objs (pos_x (targetPosition e))
             (double (pos_y (targetPosition e) - ?s))"
      "double (double (pos_y (targetPosition e) - ?s) + ?s)
          \<le> double (worldHeight config - characterSize config)"
      "\<not> checkCollision Double config objs (pos_x (targetPosition e))
             (double (double (pos_y (targetPosition e) - ?s) + ?s))"
  proof -
    note t = vertical_tick [where ar = Double, unfolded rnd.simps, OF a]
    show ?thesis
      unfolding t(1) using t(2) round_trip_error by simp
  qed
  have h: "pos_x (targetPosition ?e') = double (double (pos_x (targetPosition e) - ?s) + ?s)
        \<and> \<bar>pos_x (targetPosition ?e') - pos_x (targetPosition e)\<bar>
            \<le> 3 * (\<bar>pos_x (targetPosition e)\<bar> + \<bar>?s\<bar>) / 2 ^ 53
        \<and> isMoving ?e'"
    if a: "keys ''ArrowLeft'' \<or> keys ''a''" "keys ''ArrowRight'' \<or> keys ''d''"
      "0 \<le> double (pos_x (targetPosition e) - ?s)"
      "\<not> checkCollision Double config objs (double (pos_x (targetPosition e) - ?s))
             (pos_y (targetPosition ?e'))"
      "double (double (pos_x (targetPosition e) - ?s) + ?s)
          \<le> double (worldWidth config - characterSize config)"
      "\<not> checkCollision Double config objs (double (double (pos_x (targetPosition e) - ?s) + ?s))
             (pos_y (targetPosition ?e'))"
  proof -
    note t = horizontal_tick [where ar = Double, unfolded rnd.simps, OF a]
    show ?thesis
      unfolding t(1) using t(2) round_trip_error by simp
  qed
  show ?thesis
    using v h by blast
qed

text \<open>
  The first tick of a session with w, s, a and d all held and no obstacle, in the
  arithmetic of the code: the frame speed is 2.5, and both coordinates come back to 2500.
\<close>

theorem opposite_keys_nearly_cancel_witness:
  "((allKeys ''ArrowUp'' \<or> allKeys ''w'') \<and> (allKeys ''ArrowDown'' \<or> allKeys ''s'')
      \<and> 0 \<le> double (pos_y (targetPosition (initialEngine Double gameConfig))
                       - frameSpeedOf Double gameConfig (initialEngine Double gameConfig) 16)
      \<and> \<not> checkCollision Double gameConfig []
             (pos_x (targetPosition (initialEngine Double gameConfig)))
             (double (pos_y (targetPosition (initialEngine Double gameConfig))
                        - frameSpeedOf Double gameConfig (initialEngine Double gameConfig) 16))
      \<and> double (double (pos_y (targetPosition (initialEngine Double gameConfig))
                            - frameSpeedOf Double gameConfig (initialEngine Double gameConfig) 16)
                  + frameSpeedOf Double gameConfig (initialEngine Double gameConfig) 16)
          \<le> double (worldHeight gameConfig - characterSize gameConfig)
      \<and> \<not> checkCollision Double gameConfig []
             (pos_x (targetPosition (initialEngine Double gameConfig)))
             (double (double (pos_y (targetPosition (initialEngine Double gameConfig))
                         - frameSpeedOf Double gameConfig (initialEngine Double gameConfig) 16)
                        + frameSpeedOf Double gameConfig (initialEngine Double gameConfig) 16)))
   \<and> pos_y (targetPosition
         (updatePlayerMovement Double gameConfig [] allKeys 16 (initialEngine Double gameConfig)))
       = 2500
   \<and> ((allKeys ''ArrowLeft'' \<or> allKeys ''a'') \<and> (allKeys ''ArrowRight'' \<or> allKeys ''d'')
      \<and> 0 \<le> double (pos_x (targetPosition (initialEngine Double gameConfig))
                       - frameSpeedOf Double gameConfig (initialEngine Double gameConfig) 16)
      \<and> \<not> checkCollision Double gameConfig []
             (double (pos_x (targetPosition (initialEngine Double gameConfig))
                        - frameSpeedOf Double gameConfig (initialEngine Double gameConfig) 16))
             (pos_y (targetPosition
                (updatePlayerMovement Double gameConfig [] allKeys 16
                   (initialEngine Double gameConfig))))
      \<and> double (double (pos_x (targetPosition (initialEngine Double gameConfig))
                            - frameSpeedOf Double gameConfig (initialEngine Double gameConfig) 16)
                  + frameSpeedOf Double gameConfig (initialEngine Double gameConfig) 16)
          \<le> double (worldWidth gameConfig - characterSize gameConfig)
      \<and> \<not> checkCollision Double gameConfig []
             (double (double (pos_x (targetPosition (initialEngine Double gameConfig))
                         - frameSpeedOf Double gameConfig (initialEngine Double gameConfig) 16)
                        + frameSpeedOf Double gameConfig (initialEngine Double gameConfig) 16))
             (pos_y (targetPosition
                (updatePlayerMovement Double gameConfig [] allKeys 16
                   (initialEngine Double gameConfig)))))
   \<and> pos_x (targetPosition
         (updatePlayerMovement Double gameConfig [] allKeys 16 (initialEngine Double gameConfig)))
       = 2500
   \<and> isMoving (updatePlayerMovement Double gameConfig [] allKeys 16
         (initialEngine Double gameConfig))"
proof -
  let ?e = "initialEngine Double gameConfig"
  let ?s = "frameSpeedOf Double gameConfig ?e 16"
  let ?e' = "updatePlayerMovement Double gameConfig [] allKeys 16 ?e"
  note c = opposite_keys_nearly_cancel [where keys = allKeys and e = ?e and config = gameConfig
      and time = 16 and objs = "[]"]
  have b: "double (worldHeight gameConfig - characterSize gameConfig) = 4936"
    "double (worldWidth gameConfig - characterSize gameConfig) = 4936"
    by (simp_all add: gameConfig_def double_4936)
  have r: "double (pos_y (targetPosition ?e) - ?s) = 4995 / 2"
    "double (double (pos_y (targetPosition ?e) - ?s) + ?s) = 2500"
    "double (pos_x (targetPosition ?e) - ?s) = 4995 / 2"
    "double (double (pos_x (targetPosition ?e) - ?s) + ?s) = 2500"
    by (simp_all add: start_Double first_speed double_up1 double_2500)
  have v: "(allKeys ''ArrowUp'' \<or> allKeys ''w'') \<and> (allKeys ''ArrowDown'' \<or> allKeys ''s'')
      \<and> 0 \<le> double (pos_y (targetPosition ?e) - ?s)
      \<and> \<not> checkCollision Double gameConfig [] (pos_x (targetPosition ?e))
             (double (pos_y (targetPosition ?e) - ?s))
      \<and> double (double (pos_y (targetPosition ?e) - ?s) + ?s)
          \<le> double (worldHeight gameConfig - characterSize gameConfig)
      \<and> \<not> checkCollision Double gameConfig [] (pos_x (targetPosition ?e))
             (double (double (pos_y (targetPosition ?e) - ?s) + ?s))"
    unfolding r(2) unfolding r(1) b by (simp add: sample_keys start_Double free_in_Double)
  with c have y: "pos_y (targetPosition ?e') = 2500" and m: "isMoving ?e'"
    by (simp_all add: start_Double first_speed double_up1 double_2500)
  have h: "(allKeys ''ArrowLeft'' \<or> allKeys ''a'') \<and> (allKeys ''ArrowRight'' \<or> allKeys ''d'')
      \<and> 0 \<le> double (pos_x (targetPosition ?e) - ?s)
      \<and> \<not> checkCollision Double gameConfig [] (double (pos_x (targetPosition ?e) - ?s))
             (pos_y (targetPosition ?e'))
      \<and> double (double (pos_x (targetPosition ?e) - ?s) + ?s)
          \<le> double (worldWidth gameConfig - characterSize gameConfig)
      \<and> \<not> checkCollision Double gameConfig []
             (double (double (pos_x (targetPosition ?e) - ?s) + ?s))
             (pos_y (targetPosition ?e'))"
    unfolding r(4) unfolding r(3) b y by (simp add: sample_keys free_in_Double)
  with c have x: "pos_x (targetPosition ?e') = 2500"
    by (simp add: start_Double first_speed double_up1 double_2500)
  from v y h x m show ?thesis by blast
qed

subsection \<open>Convergence of the rendered position\<close>

text \<open>
  Ticks at the fixed interval \<open>d\<close> with no key held: the target position stays where it
  is, every clamped time step is \<open>min d 100\<close>, and the rendered position after \<open>n\<close> ticks is
  the \<open>n\<close>-fold smoothing step applied to the start position.
\<close>

lemma steadyTicks_Suc:
  "steadyTicks t0 d objs (Suc n) = steadyTicks t0 d objs n @ [(t0 + real (Suc n) * d, idle, objs)]"
  by (simp add: steadyTicks_def)

lemma steady_run:
  assumes "0 < t0" and "0 < d" and "lastFrameTime e = t0"
  shows "playerPosition (runTicks Exact config (steadyTicks t0 d objs n) e)
           = (interpolate Exact (min d 100) (targetPosition e) ^^ n) (playerPosition e)
         \<and> targetPosition (runTicks Exact config (steadyTicks t0 d objs n) e) = targetPosition e
         \<and> lastFrameTime (runTicks Exact config (steadyTicks t0 d objs n) e) = t0 + real n * d"
proof (induction n)
  case 0
  then show ?case using assms(3) by (simp add: steadyTicks_def)
next
  case (Suc n)
  let ?e = "runTicks Exact config (steadyTicks t0 d objs n) e"
  from Suc.IH have p: "playerPosition ?e = (interpolate Exact (min d 100) (targetPosition e) ^^ n) (playerPosition e)"
    and t: "targetPosition ?e = targetPosition e"
    and l: "lastFrameTime ?e = t0 + real n * d"
    by simp_all
  have "0 \<le> real n * d" using assms(2) by simp
  with assms(1) have pos: "lastFrameTime ?e \<noteq> 0" unfolding l by linarith
  have c: "clampedDeltaTime Exact ?e (t0 + real (Suc n) * d) = min d 100"
    using pos by (simp add: clampedDeltaTime_def l algebra_simps)
  have run: "runTicks Exact config (steadyTicks t0 d objs (Suc n)) e
               = updatePlayerMovement Exact config objs idle (t0 + real (Suc n) * d) ?e"
    by (simp only: steadyTicks_Suc runTicks_append runTicks.simps)
  show ?case
    unfolding run
    by (simp only: playerPosition_update targetPosition_idle lastFrameTime_update c p t
        funpow.simps comp_def)
qed

lemma smoothingFactor_range:
  assumes "0 < c"
  shows "0 < smoothingFactor c" and "smoothingFactor c \<le> 1"
  using assms by (simp_all add: smoothingFactor_def movementSmoothing_def)

lemma interpolate_far:
  assumes "distanceSquared Exact p T > 0.1"
  shows "distanceSquared Exact (interpolate Exact c T p) T = (1 - smoothingFactor c)\<^sup>2 * distanceSquared Exact p T"
proof -
  let ?f = "smoothingFactor c"
  have x: "pos_x (interpolate Exact c T p) - pos_x T = (pos_x p - pos_x T) * (1 - ?f)"
    using assms by (simp add: interpolate_def Let_def smoothingFactor_def algebra_simps)
  have y: "pos_y (interpolate Exact c T p) - pos_y T = (pos_y p - pos_y T) * (1 - ?f)"
    using assms by (simp add: interpolate_def Let_def smoothingFactor_def algebra_simps)
  have "distanceSquared Exact (interpolate Exact c T p) T
          = ((pos_x p - pos_x T) * (1 - ?f))\<^sup>2 + ((pos_y p - pos_y T) * (1 - ?f))\<^sup>2"
    by (simp only: distanceSquared_def x y rnd.simps)
  also have "\<dots> = (1 - ?f)\<^sup>2 * ((pos_x p - pos_x T)\<^sup>2 + (pos_y p - pos_y T)\<^sup>2)"
    by (simp only: power_mult_distrib distrib_left mult.commute)
  finally show ?thesis by (simp only: distanceSquared_def rnd.simps)
qed

lemma interpolate_near:
  assumes "\<not> distanceSquared Exact p T > 0.1"
  shows "interpolate Exact c T p = p"
  using assms by (simp add: interpolate_def)

lemma distanceSquared_nonneg: "0 \<le> distanceSquared Exact p T"
  by (simp add: distanceSquared_def)

lemma interpolate_closer:
  assumes "0 < c"
  shows "distanceSquared Exact (interpolate Exact c T p) T \<le> distanceSquared Exact p T"
proof (cases "distanceSquared Exact p T > 0.1")
  case True
  let ?f = "smoothingFactor c"
  from smoothingFactor_range [OF assms] have "0 \<le> 1 - ?f" "1 - ?f \<le> 1" by simp_all
  then have "(1 - ?f)\<^sup>2 \<le> 1" by (simp add: power_le_one)
  then have "(1 - ?f)\<^sup>2 * distanceSquared Exact p T \<le> 1 * distanceSquared Exact p T"
    by (intro mult_right_mono distanceSquared_nonneg)
  then show ?thesis by (simp add: interpolate_far [OF True])
next
  case False
  then show ?thesis by (simp add: interpolate_near)
qed

lemma iterate_formula:
  "\<not> distanceSquared Exact ((interpolate Exact c T ^^ n) p) T > 0.1
   \<or> distanceSquared Exact ((interpolate Exact c T ^^ n) p) T
       = ((1 - smoothingFactor c)\<^sup>2) ^ n * distanceSquared Exact p T"
proof (induction n)
  case 0
  then show ?case by simp
next
  case (Suc n)
  let ?q = "(interpolate Exact c T ^^ n) p"
  show ?case
  proof (cases "distanceSquared Exact ?q T > 0.1")
    case True
    with Suc.IH have "distanceSquared Exact ?q T = ((1 - smoothingFactor c)\<^sup>2) ^ n * distanceSquared Exact p T"
      by simp
    then show ?thesis by (simp add: interpolate_far [OF True])
  next
    case False
    then show ?thesis by (simp add: interpolate_near)
  qed
qed

lemma arrived_stays:
  assumes "\<not> distanceSquared Exact ((interpolate Exact c T ^^ n) p) T > 0.1"
  shows "(interpolate Exact c T ^^ (n + k)) p = (interpolate Exact c T ^^ n) p"
proof (induction k)
  case 0
  then show ?case by simp
next
  case (Suc k)
  then show ?case using assms by (simp add: interpolate_near)
qed

lemma power_decay:
  fixes f :: real
  assumes "0 < f" "f \<le> 1"
  shows "(1 - f) ^ n * (1 + of_nat n * f) \<le> 1"
proof -
  have "1 + of_nat n * f \<le> (1 + f) ^ n"
    using assms by (intro Bernoulli_inequality) simp
  moreover have "0 \<le> (1 - f) ^ n" using assms by simp
  ultimately have "(1 - f) ^ n * (1 + of_nat n * f) \<le> (1 - f) ^ n * (1 + f) ^ n"
    by (rule mult_left_mono)
  also have "\<dots> = (1 - f\<^sup>2) ^ n"
    by (simp add: power_mult_distrib [symmetric] algebra_simps power2_eq_square)
  also have "\<dots> \<le> 1"
    using assms by (intro power_le_one) (simp_all add: power_le_one)
  finally show ?thesis .
qed

lemma arrives:
  assumes "0 < c"
  shows "\<not> distanceSquared Exact ((interpolate Exact c T ^^ arrivalBound c T p) p) T > 0.1"
proof
  let ?f = "smoothingFactor c"
  let ?N = "arrivalBound c T p"
  let ?D = "distanceSquared Exact p T"
  assume far: "distanceSquared Exact ((interpolate Exact c T ^^ ?N) p) T > 0.1"
  note f = smoothingFactor_range [OF assms]
  from far iterate_formula [where c = c and T = T and n = "?N" and p = p]
  have eq: "distanceSquared Exact ((interpolate Exact c T ^^ ?N) p) T = ((1 - ?f)\<^sup>2) ^ ?N * ?D"
    by simp
  have q: "0 \<le> 1 - ?f" "1 - ?f \<le> 1" using f by simp_all
  have "((1 - ?f)\<^sup>2) ^ ?N = (1 - ?f) ^ ?N * (1 - ?f) ^ ?N"
    by (simp add: power2_eq_square power_mult_distrib)
  also have "\<dots> \<le> (1 - ?f) ^ ?N * 1"
    using q by (intro mult_left_mono power_le_one) simp_all
  finally have le: "((1 - ?f)\<^sup>2) ^ ?N \<le> (1 - ?f) ^ ?N" by simp
  have "10 * ?D / ?f \<le> real_of_int \<lceil>10 * ?D / ?f\<rceil>" by (rule le_of_int_ceiling)
  also have "\<dots> \<le> real ?N" by (simp add: arrivalBound_def)
  finally have "10 * ?D \<le> real ?N * ?f"
    using f(1) by (simp add: pos_divide_le_eq)
  then have big: "10 * ?D \<le> 1 + real ?N * ?f" by simp
  have pos: "0 < 1 + real ?N * ?f" using f(1) by (simp add: add_pos_nonneg)
  have "((1 - ?f)\<^sup>2) ^ ?N * ?D * (1 + real ?N * ?f)
          \<le> (1 - ?f) ^ ?N * ?D * (1 + real ?N * ?f)"
    using le pos distanceSquared_nonneg [of p T]
    by (intro mult_right_mono) simp_all
  also have "\<dots> = ((1 - ?f) ^ ?N * (1 + real ?N * ?f)) * ?D" by (simp add: algebra_simps)
  also have "\<dots> \<le> 1 * ?D"
    using power_decay [OF f] distanceSquared_nonneg [of p T] by (intro mult_right_mono)
  finally have a: "((1 - ?f)\<^sup>2) ^ ?N * ?D * (1 + real ?N * ?f) \<le> ?D" by simp
  have "0.1 * (10 * ?D) < ((1 - ?f)\<^sup>2) ^ ?N * ?D * (10 * ?D)"
  proof -
    have "0 < ?D"
    proof (rule ccontr)
      assume "\<not> 0 < ?D"
      with distanceSquared_nonneg [of p T] have "?D = 0" by simp
      with eq far show False by simp
    qed
    with far eq show ?thesis by simp
  qed
  also have "\<dots> \<le> ((1 - ?f)\<^sup>2) ^ ?N * ?D * (1 + real ?N * ?f)"
    using big q distanceSquared_nonneg [of p T] by (intro mult_left_mono) simp_all
  also note a
  finally show False by simp
qed

text \<open>
  A run of ticks is steady when the target position is \<open>T\<close> before and after each tick and
  each tick has the clamped time step \<open>c\<close>; the rendered position after a steady run is the
  smoothing step applied once for each tick.
\<close>

lemma steady_target: "steady Exact config c T ticks e \<Longrightarrow> targetPosition e = T"
  by (cases ticks) auto

lemma steady_append:
  "steady Exact config c T (xs @ ys) e
     \<longleftrightarrow> steady Exact config c T xs e \<and> steady Exact config c T ys (runTicks Exact config xs e)"
proof (induction xs arbitrary: e)
  case Nil
  then show ?case by (auto dest: steady_target)
next
  case (Cons x xs)
  obtain time keys objs where x: "x = (time, keys, objs)" by (cases x) auto
  show ?case by (auto simp: x Cons.IH)
qed

lemma steady_take:
  assumes "steady Exact config c T ticks e"
  shows "steady Exact config c T (take k ticks) e"
proof -
  have "steady Exact config c T (take k ticks @ drop k ticks) e" using assms by simp
  then show ?thesis by (simp only: steady_append)
qed

lemma steady_position:
  assumes "steady Exact config c T ticks e"
  shows "playerPosition (runTicks Exact config ticks e)
           = (interpolate Exact c T ^^ length ticks) (playerPosition e)"
  using assms
proof (induction ticks arbitrary: e)
  case Nil
  then show ?case by simp
next
  case (Cons x ticks)
  obtain time keys objs where x: "x = (time, keys, objs)" by (cases x) auto
  let ?e = "updatePlayerMovement Exact config objs keys time e"
  from Cons.prems have t: "targetPosition e = T" and c: "clampedDeltaTime Exact e time = c"
    and s: "steady Exact config c T ticks ?e"
    by (simp_all add: x)
  have "playerPosition (runTicks Exact config ticks ?e)
          = (interpolate Exact c T ^^ length ticks) (playerPosition ?e)"
    using s by (rule Cons.IH)
  also have "playerPosition ?e = interpolate Exact c T (playerPosition e)"
    by (simp add: playerPosition_update t c)
  finally show ?case by (simp add: x funpow_swap1)
qed

lemma steady_steadyTicks:
  assumes "0 < t0" and "0 < d" and "lastFrameTime e = t0"
  shows "steady Exact config (min d 100) (targetPosition e) (steadyTicks t0 d objs n) e"
proof (induction n)
  case 0
  then show ?case by (simp add: steadyTicks_def)
next
  case (Suc n)
  let ?e = "runTicks Exact config (steadyTicks t0 d objs n) e"
  from steady_run [OF assms, of config objs n]
  have t: "targetPosition ?e = targetPosition e"
    and l: "lastFrameTime ?e = t0 + real n * d"
    by simp_all
  have "0 \<le> real n * d" using assms(2) by simp
  with assms(1) have pos: "lastFrameTime ?e \<noteq> 0" unfolding l by linarith
  have c: "clampedDeltaTime Exact ?e (t0 + real (Suc n) * d) = min d 100"
    using pos by (simp add: clampedDeltaTime_def l algebra_simps)
  have "steady Exact config (min d 100) (targetPosition e) [(t0 + real (Suc n) * d, idle, objs)] ?e"
    by (simp only: steady.simps t c targetPosition_idle simp_thms)
  with Suc.IH show ?case by (simp only: steadyTicks_Suc steady_append)
qed

lemma length_steadyTicks [simp]: "length (steadyTicks t0 d objs n) = n"
  by (simp add: steadyTicks_def)

lemma funpow_fixed: "f x = x \<Longrightarrow> (f ^^ n) x = x"
  by (induction n) simp_all

lemma walkedUp_state:
  "targetPosition walkedUp = \<lparr>pos_x = 2500, pos_y = 2497.5\<rparr>"
  "playerPosition walkedUp = \<lparr>pos_x = 2500, pos_y = 2500\<rparr>"
  "lastFrameTime walkedUp = 16"
proof -
  have f: "frameSpeedOf Exact gameConfig (initialEngine Exact gameConfig) 16 = 2.5"
    by (rule sample_frameSpeed)
  have c: "\<not> checkCollision Exact gameConfig [] 2500 2497.5" by (rule sample_noCollision)
  have "handleMovementInput Exact gameConfig [] (holding [''w'']) 2.5
          \<lparr>newX = 2500, newY = 2500, newDirection = direction (initialEngine Exact gameConfig),
           moving = False\<rparr>
        = \<lparr>newX = 2500, newY = 2497.5, newDirection = Up, moving = True\<rparr>"
    using c
    by (simp add: handleMovementInput_def keyUp_def keyDown_def keyLeft_def keyRight_def
        holding_def Let_def max_def)
  then show "targetPosition walkedUp = \<lparr>pos_x = 2500, pos_y = 2497.5\<rparr>"
    unfolding walkedUp_def
    by (subst targetPosition_update) (simp add: sample_target f)
  show "playerPosition walkedUp = \<lparr>pos_x = 2500, pos_y = 2500\<rparr>"
    unfolding walkedUp_def
    by (subst playerPosition_update)
       (simp add: sample_target interpolate_def distanceSquared_def,
        simp add: initialEngine_def gameConfig_def)
  show "lastFrameTime walkedUp = 16" by (simp add: walkedUp_def)
qed

lemma onThreshold_state:
  "targetPosition onThreshold = \<lparr>pos_x = 0, pos_y = 0\<rparr>"
  "playerPosition onThreshold = \<lparr>pos_x = 0.3, pos_y = 0.1\<rparr>"
  "lastFrameTime onThreshold = 16"
  by (simp_all add: onThreshold_def)

lemma onThreshold_distance:
  "distanceSquared Exact \<lparr>pos_x = 0.3, pos_y = 0.1\<rparr> \<lparr>pos_x = 0, pos_y = 0\<rparr> = 0.1"
  by (simp add: distanceSquared_def power2_eq_square)

lemma threshold_fixed:
  "interpolate Exact 16.67 \<lparr>pos_x = 0, pos_y = 0\<rparr> \<lparr>pos_x = 0.3, pos_y = 0.1\<rparr>
     = \<lparr>pos_x = 0.3, pos_y = 0.1\<rparr>"
  by (rule interpolate_near) (simp add: onThreshold_distance)

lemma threshold_stays:
  "steady Exact gameConfig 16.67 \<lparr>pos_x = 0, pos_y = 0\<rparr> (steadyTicks 16 16.67 [] n) onThreshold"
  "playerPosition (runTicks Exact gameConfig (steadyTicks 16 16.67 [] n) onThreshold)
     = \<lparr>pos_x = 0.3, pos_y = 0.1\<rparr>"
proof -
  let ?T = "\<lparr>pos_x = 0, pos_y = 0\<rparr>" and ?p = "\<lparr>pos_x = 0.3, pos_y = 0.1\<rparr>"
  let ?ticks = "steadyTicks 16 16.67 [] n"
  have "steady Exact gameConfig (min 16.67 100) (targetPosition onThreshold) ?ticks onThreshold"
    by (rule steady_steadyTicks) (simp_all add: onThreshold_state)
  then show s: "steady Exact gameConfig 16.67 ?T ?ticks onThreshold"
    by (simp add: onThreshold_state)
  have "(interpolate Exact 16.67 ?T ^^ n) ?p = ?p"
    using threshold_fixed by (rule funpow_fixed)
  with steady_position [OF s]
  show "playerPosition (runTicks Exact gameConfig ?ticks onThreshold) = ?p"
    by (simp add: onThreshold_state)
qed

text \<open>
  C7 as stated fails at the threshold, over the real numbers as in the doubles of the
  code: with the target at (0, 0), the rendered position at (0.3, 0.1) and no key held,
  the squared distance is \<open>0.09 + 0.01 = 0.1\<close>; the test \<open>distanceSquared > 0.1\<close> is false
  and the smoothing step leaves the position where it is. After 1000 ticks at 60 Hz (as
  after any number of them) the position has not moved and the squared distance is still
  0.1, not below it.
\<close>

theorem rendered_position_threshold_counterexample:
  "steady Exact gameConfig 16.67 \<lparr>pos_x = 0, pos_y = 0\<rparr> (steadyTicks 16 16.67 [] 1000)
     onThreshold
   \<and> playerPosition onThreshold = \<lparr>pos_x = 0.3, pos_y = 0.1\<rparr>
   \<and> interpolate Exact 16.67 \<lparr>pos_x = 0, pos_y = 0\<rparr> (playerPosition onThreshold)
       = playerPosition onThreshold
   \<and> playerPosition (runTicks Exact gameConfig (steadyTicks 16 16.67 [] 1000) onThreshold)
       = \<lparr>pos_x = 0.3, pos_y = 0.1\<rparr>
   \<and> distanceSquared Exact
        (playerPosition (runTicks Exact gameConfig (steadyTicks 16 16.67 [] 1000) onThreshold))
        \<lparr>pos_x = 0, pos_y = 0\<rparr> = 0.1
   \<and> \<not> distanceSquared Exact
          (playerPosition (runTicks Exact gameConfig (steadyTicks 16 16.67 [] 1000) onThreshold))
          \<lparr>pos_x = 0, pos_y = 0\<rparr> < 0.1"
  unfolding threshold_stays(2) onThreshold_state(2) threshold_fixed onThreshold_distance
  using threshold_stays(1) [of 1000] by simp

text \<open>
  C7 amended, over the real numbers: under repeated ticks of \<open>updatePlayerMovement\<close> with a
  constant target position
  \<open>T\<close> and a fixed positive clamped time step \<open>c\<close>, the Euclidean distance from the rendered
  position to the target never increases from one tick to the next, and from tick
  \<open>arrivalBound c T p\<close> on (ten times the squared start distance divided by the interpolation
  factor, rounded up) the squared distance is at most 0.1, the arrival threshold, and the
  rendered position is not updated any more.
\<close>

theorem rendered_position_converges:
  assumes "0 < c" and "steady Exact config c T ticks e"
  shows "(\<forall>k < length ticks.
            sqrt (distanceSquared Exact (playerPosition (runTicks Exact config (take (Suc k) ticks) e)) T)
              \<le> sqrt (distanceSquared Exact (playerPosition (runTicks Exact config (take k ticks) e)) T))
         \<and> (\<forall>k. arrivalBound c T (playerPosition e) \<le> k \<and> k \<le> length ticks \<longrightarrow>
               distanceSquared Exact (playerPosition (runTicks Exact config (take k ticks) e)) T \<le> 0.1
               \<and> playerPosition (runTicks Exact config (take k ticks) e)
                   = playerPosition
                       (runTicks Exact config (take (arrivalBound c T (playerPosition e)) ticks) e))"
proof (intro conjI allI impI)
  have pos: "playerPosition (runTicks Exact config (take k ticks) e)
               = (interpolate Exact c T ^^ min (length ticks) k) (playerPosition e)" for k
    using steady_position [OF steady_take [OF assms(2), of k]] by simp
  {
    fix k assume k: "k < length ticks"
    then have m: "min (length ticks) (Suc k) = Suc k" "min (length ticks) k = k" by simp_all
    have "distanceSquared Exact ((interpolate Exact c T ^^ Suc k) (playerPosition e)) T
            \<le> distanceSquared Exact ((interpolate Exact c T ^^ k) (playerPosition e)) T"
      using interpolate_closer [OF assms(1)] by simp
    then show "sqrt (distanceSquared Exact (playerPosition (runTicks Exact config (take (Suc k) ticks) e)) T)
              \<le> sqrt (distanceSquared Exact (playerPosition (runTicks Exact config (take k ticks) e)) T)"
      by (simp only: pos m real_sqrt_le_iff)
  }
  {
    fix k assume "arrivalBound c T (playerPosition e) \<le> k \<and> k \<le> length ticks"
    then have b: "arrivalBound c T (playerPosition e) \<le> k" and l: "k \<le> length ticks" by simp_all
    let ?N = "arrivalBound c T (playerPosition e)"
    have m: "min (length ticks) k = k" "min (length ticks) ?N = ?N" using b l by simp_all
    from arrives [OF assms(1), of T "playerPosition e"]
    have near: "\<not> distanceSquared Exact ((interpolate Exact c T ^^ ?N) (playerPosition e)) T > 0.1" .
    obtain j where j: "k = ?N + j" using b le_Suc_ex by blast
    have same: "(interpolate Exact c T ^^ k) (playerPosition e) = (interpolate Exact c T ^^ ?N) (playerPosition e)"
      unfolding j using near by (rule arrived_stays)
    show "distanceSquared Exact (playerPosition (runTicks Exact config (take k ticks) e)) T \<le> 0.1"
      using near by (simp add: pos m same)
    show "playerPosition (runTicks Exact config (take k ticks) e)
            = playerPosition (runTicks Exact config (take ?N ticks) e)"
      by (simp add: pos m same)
  }
qed

text \<open>
  After one tick with the up key held the target is 2.5 above the rendered position; 500
  ticks at 60 Hz with no key held follow. The bound is 417 ticks.
\<close>

theorem rendered_position_converges_witness:
  "(0::real) < 16.67
   \<and> steady Exact gameConfig 16.67 \<lparr>pos_x = 2500, pos_y = 2497.5\<rparr> (steadyTicks 16 16.67 [] 500) walkedUp
   \<and> 0 < length (steadyTicks 16 16.67 [] 500)
   \<and> sqrt (distanceSquared Exact
         (playerPosition (runTicks Exact gameConfig (take (Suc 0) (steadyTicks 16 16.67 [] 500)) walkedUp))
         \<lparr>pos_x = 2500, pos_y = 2497.5\<rparr>)
       \<le> sqrt (distanceSquared Exact
         (playerPosition (runTicks Exact gameConfig (take 0 (steadyTicks 16 16.67 [] 500)) walkedUp))
         \<lparr>pos_x = 2500, pos_y = 2497.5\<rparr>)
   \<and> arrivalBound 16.67 \<lparr>pos_x = 2500, pos_y = 2497.5\<rparr> (playerPosition walkedUp) = 417
   \<and> 417 \<le> (450::nat) \<and> 450 \<le> length (steadyTicks 16 16.67 [] 500)
   \<and> distanceSquared Exact
         (playerPosition (runTicks Exact gameConfig (take 450 (steadyTicks 16 16.67 [] 500)) walkedUp))
         \<lparr>pos_x = 2500, pos_y = 2497.5\<rparr> \<le> 0.1
   \<and> playerPosition (runTicks Exact gameConfig (take 450 (steadyTicks 16 16.67 [] 500)) walkedUp)
       = playerPosition (runTicks Exact gameConfig (take 417 (steadyTicks 16 16.67 [] 500)) walkedUp)"
proof -
  let ?T = "\<lparr>pos_x = 2500, pos_y = 2497.5\<rparr>"
  let ?ticks = "steadyTicks 16 16.67 [] 500"
  have c: "(0::real) < 16.67" by simp
  have "steady Exact gameConfig (min 16.67 100) (targetPosition walkedUp) ?ticks walkedUp"
    by (rule steady_steadyTicks) (simp_all add: walkedUp_state)
  then have s: "steady Exact gameConfig 16.67 ?T ?ticks walkedUp"
    by (simp add: walkedUp_state)
  have b: "arrivalBound 16.67 ?T (playerPosition walkedUp) = 417"
    by (simp add: arrivalBound_def smoothingFactor_def movementSmoothing_def distanceSquared_def
        walkedUp_state power2_eq_square)
  have l0: "0 < length ?ticks" and l1: "450 \<le> length ?ticks" and l2: "417 \<le> (450::nat)"
    by simp_all
  note t = rendered_position_converges [OF c s]
  from t have mono: "\<forall>k < length ?ticks.
            sqrt (distanceSquared Exact (playerPosition (runTicks Exact gameConfig (take (Suc k) ?ticks) walkedUp)) ?T)
              \<le> sqrt (distanceSquared Exact (playerPosition (runTicks Exact gameConfig (take k ?ticks) walkedUp)) ?T)"
    by (rule conjunct1)
  from t have late: "\<forall>k. 417 \<le> k \<and> k \<le> length ?ticks \<longrightarrow>
               distanceSquared Exact (playerPosition (runTicks Exact gameConfig (take k ?ticks) walkedUp)) ?T \<le> 0.1
               \<and> playerPosition (runTicks Exact gameConfig (take k ?ticks) walkedUp)
                   = playerPosition (runTicks Exact gameConfig (take 417 ?ticks) walkedUp)"
    unfolding b by (rule conjunct2)
  from mono have "0 < length ?ticks \<longrightarrow> sqrt (distanceSquared Exact
         (playerPosition (runTicks Exact gameConfig (take (Suc 0) ?ticks) walkedUp)) ?T)
       \<le> sqrt (distanceSquared Exact
         (playerPosition (runTicks Exact gameConfig (take 0 ?ticks) walkedUp)) ?T)"
    by (rule spec)
  then have m0: "sqrt (distanceSquared Exact
         (playerPosition (runTicks Exact gameConfig (take (Suc 0) ?ticks) walkedUp)) ?T)
       \<le> sqrt (distanceSquared Exact
         (playerPosition (runTicks Exact gameConfig (take 0 ?ticks) walkedUp)) ?T)"
    using l0 by (rule mp)
  from late have "417 \<le> (450::nat) \<and> 450 \<le> length ?ticks \<longrightarrow>
               distanceSquared Exact (playerPosition (runTicks Exact gameConfig (take 450 ?ticks) walkedUp)) ?T \<le> 0.1
               \<and> playerPosition (runTicks Exact gameConfig (take 450 ?ticks) walkedUp)
                   = playerPosition (runTicks Exact gameConfig (take 417 ?ticks) walkedUp)"
    by (rule spec)
  moreover have "417 \<le> (450::nat) \<and> 450 \<le> length ?ticks" using l2 l1 by (rule conjI)
  ultimately have a: "distanceSquared Exact (playerPosition (runTicks Exact gameConfig (take 450 ?ticks) walkedUp)) ?T \<le> 0.1
               \<and> playerPosition (runTicks Exact gameConfig (take 450 ?ticks) walkedUp)
                   = playerPosition (runTicks Exact gameConfig (take 417 ?ticks) walkedUp)"
    by (rule mp)
  show ?thesis
    apply (intro conjI)
            apply (rule c)
           apply (rule s)
          apply (rule l0)
         apply (rule m0)
        apply (rule b)
       apply (rule l2)
      apply (rule l1)
     apply (rule a [THEN conjunct1])
    apply (rule a [THEN conjunct2])
    done
qed

section \<open>Properties of the world state\<close>

subsection \<open>The visibility query\<close>

lemma visibleLoop_trees:
  "trees (visibleLoop area chunks acc)
     = trees acc @ filter (isElementVisible area) (concat (map trees chunks))"
  by (induction chunks arbitrary: acc) simp_all

lemma visibleLoop_bushes: "bushes (visibleLoop area chunks acc) = bushes acc"
  by (induction chunks arbitrary: acc) simp_all

lemma visibleLoop_flowers: "flowers (visibleLoop area chunks acc) = flowers acc"
  by (induction chunks arbitrary: acc) simp_all

lemma isElementVisible_padded:
  "isElementVisible
      \<lparr>hb_left = pos_x cam - 100, hb_right = pos_x cam + vw + 100,
       hb_top = pos_y cam - 100, hb_bottom = pos_y cam + vh + 100\<rparr> = paddedOverlap cam vw vh"
  by (rule ext) (simp add: isElementVisible_def paddedOverlap_def)

text \<open>
  C1 as stated fails: for a loaded chunk with a bush inside the view, the query returns no
  bush (the bushes and flowers of the result are never filled), and a tree whose left
  edge lies exactly on the right edge of the padded view is left out although its closed
  box meets the closed padded rectangle.
\<close>

theorem getVisibleElements_counterexample:
  "bushes (getVisibleElements \<lparr>pos_x = 0, pos_y = 0\<rparr> 1024 768 sampleWorld) = []
   \<and> bushes (visibleWithin_spec \<lparr>pos_x = 0, pos_y = 0\<rparr> 1024 768
        (mapValues (loadedChunksRef sampleWorld))) = [sampleBush]
   \<and> trees (getVisibleElements \<lparr>pos_x = 0, pos_y = 0\<rparr> 1024 768 sampleWorld) = [sampleTree]
   \<and> trees (visibleWithin_spec \<lparr>pos_x = 0, pos_y = 0\<rparr> 1024 768
        (mapValues (loadedChunksRef sampleWorld))) = [sampleTree, edgeTree]"
  by (simp add: getVisibleElements_def Let_def visibleLoop_bushes visibleLoop_trees noElements_def
      visibleWithin_spec_def mapValues_def sampleWorld_def sampleChunk2_def
      boxIntersectsPadded_def isElementVisible_def sampleBush_def sampleTree_def edgeTree_def
      sizeOr_def)

text \<open>
  C1 amended: for every view rectangle and every map of loaded chunks, the trees returned
  are exactly the trees of the loaded chunks, in the map's order, whose box overlaps the
  view rectangle expanded by 100 on all sides in the strict sense
  \<open>x < right + 100\<close>, \<open>x + size > left - 100\<close>, \<open>y < bottom + 100\<close>, \<open>y + size > top - 100\<close>
  (size taken as 0 when absent); the bushes and the flowers returned are empty.
\<close>

theorem getVisibleElements_trees_only:
  "trees (getVisibleElements cameraPosition vWidth vHeight st)
     = filter (paddedOverlap cameraPosition vWidth vHeight)
         (concat (map trees (mapValues (loadedChunksRef st))))
   \<and> bushes (getVisibleElements cameraPosition vWidth vHeight st) = []
   \<and> flowers (getVisibleElements cameraPosition vWidth vHeight st) = []"
  by (simp add: getVisibleElements_def Let_def visibleLoop_trees visibleLoop_bushes
      visibleLoop_flowers isElementVisible_padded noElements_def)

subsection \<open>Merging the server's chunks\<close>

lemma has_update: "has (AList.update k v m) k' \<longleftrightarrow> k' = k \<or> has m k'"
  by (simp add: has_def update_conv')

lemma serverLoop_keeps:
  "has m k \<Longrightarrow> has (fst (serverLoop cs (m, e))) k"
  by (induction cs arbitrary: m e) (simp_all add: Let_def has_update)

lemma serverLoop_has_all:
  "c \<in> set cs \<Longrightarrow> has (fst (serverLoop cs (m, e))) (getChunkKey (chunk_x c) (chunk_y c))"
proof (induction cs arbitrary: m e)
  case Nil
  then show ?case by simp
next
  case (Cons a cs)
  show ?case
  proof (cases "c = a")
    case True
    then show ?thesis by (simp add: Let_def serverLoop_keeps has_update)
  next
    case False
    with Cons.prems have "c \<in> set cs" by simp
    then show ?thesis by (simp add: Let_def Cons.IH)
  qed
qed

lemma serverLoop_all_present:
  "(\<And>c. c \<in> set cs \<Longrightarrow> has m (getChunkKey (chunk_x c) (chunk_y c)))
     \<Longrightarrow> serverLoop cs (m, e) = (m, e)"
  by (induction cs) (simp_all add: Let_def)

lemma runEffects_atRest: "atRest st \<Longrightarrow> runEffects st = st"
  by (simp add: atRest_def runEffects_def)

lemma atRest_runEffects: "atRest (runEffects st)"
  by (simp add: atRest_def runEffects_def)

lemma second_update_unchanged:
  "updateWithServerChunks cs (runEffects (updateWithServerChunks cs st))
     = runEffects (updateWithServerChunks cs st)" if "atRest st"
proof (cases "updateWithServerChunks cs st = st")
  case True
  then show ?thesis using that by (simp add: runEffects_atRest)
next
  case False
  obtain m e where loop: "serverLoop cs (loadedChunksRef st, noElements) = (m, e)"
    by (cases "serverLoop cs (loadedChunksRef st, noElements)") auto
  from False have upd: "updateWithServerChunks cs st
      = st\<lparr>loadedChunks := m, worldElements := pushElements (worldElements st) e,
            worldElementsRef := pushElements (worldElementsRef st) e\<rparr>"
    and ne: "cs \<noteq> []"
    by (auto simp: updateWithServerChunks_def loop split: if_splits)
  have ref: "loadedChunksRef (runEffects (updateWithServerChunks cs st)) = m"
    by (simp add: upd runEffects_def)
  have "serverLoop cs (m, noElements) = (m, noElements)"
  proof (rule serverLoop_all_present)
    fix c assume "c \<in> set cs"
    then have "has (fst (serverLoop cs (loadedChunksRef st, noElements)))
                 (getChunkKey (chunk_x c) (chunk_y c))"
      by (rule serverLoop_has_all)
    then show "has m (getChunkKey (chunk_x c) (chunk_y c))" by (simp add: loop)
  qed
  then show ?thesis
    by (simp add: updateWithServerChunks_def [of cs "runEffects (updateWithServerChunks cs st)"]
        ref noElements_def)
qed

text \<open>
  From a state at rest, merging the same batch a second time after the effects of the
  first merge have run changes nothing: the second call returns its input state.
\<close>

lemma merge_at_rest_idempotent:
  assumes "loadedChunksRef st = loadedChunks st" and "worldElementsRef st = worldElements st"
  shows "updateWithServerChunks serverChunks (runEffects (updateWithServerChunks serverChunks st))
           = runEffects (updateWithServerChunks serverChunks st)
         \<and> runEffects (updateWithServerChunks serverChunks
                          (runEffects (updateWithServerChunks serverChunks st)))
           = runEffects (updateWithServerChunks serverChunks st)"
proof -
  from assms have r: "atRest st" by (simp add: atRest_def)
  have u: "updateWithServerChunks serverChunks (runEffects (updateWithServerChunks serverChunks st))
           = runEffects (updateWithServerChunks serverChunks st)"
    using r by (rule second_update_unchanged)
  have "runEffects (runEffects (updateWithServerChunks serverChunks st))
          = runEffects (updateWithServerChunks serverChunks st)"
    by (simp add: runEffects_def)
  with u show ?thesis by simp
qed

lemma origin_key: "getChunkKey 0 0 = ''0,0''"
  by (simp add: getChunkKey_def numberToString_def digitsOf.simps)

lemma first_delivery:
  "updateWithServerChunks [sampleChunk] initialWorld
     = \<lparr>loadedChunks = [(''0,0'', sampleChunk)],
        worldElements = \<lparr>trees = [sampleTree], bushes = [sampleBush], flowers = []\<rparr>,
        worldElementsRef = \<lparr>trees = [sampleTree], bushes = [sampleBush], flowers = []\<rparr>,
        loadedChunksRef = []\<rparr>"
  by (simp add: updateWithServerChunks_def initialWorld_def has_def origin_key
      pushElements_def noElements_def sampleChunk_def)

text \<open>
  C5 at the empty world and a batch of one chunk, merged twice in a row (the second
  delivery arrives before the effect has refreshed \<open>loadedChunksRef\<close>): the claim has the
  second merge change nothing. The second call reads the stale ref, which does not hold the
  key \<open>0,0\<close>, takes the chunk for new again and appends its elements a second time: every
  element is in \<open>worldElements\<close> twice.
\<close>

theorem updateWithServerChunks_redelivery_duplicates:
  "worldElements (updateWithServerChunks [sampleChunk] initialWorld)
     = \<lparr>trees = [sampleTree], bushes = [sampleBush], flowers = []\<rparr>
   \<and> loadedChunksRef (updateWithServerChunks [sampleChunk] initialWorld) = []
   \<and> worldElements (updateWithServerChunks [sampleChunk]
                       (updateWithServerChunks [sampleChunk] initialWorld))
     = \<lparr>trees = [sampleTree, sampleTree], bushes = [sampleBush, sampleBush], flowers = []\<rparr>
   \<and> worldElementsRef (updateWithServerChunks [sampleChunk]
                          (updateWithServerChunks [sampleChunk] initialWorld))
     = \<lparr>trees = [sampleTree, sampleTree], bushes = [sampleBush, sampleBush], flowers = []\<rparr>"
  unfolding first_delivery
  by (simp add: updateWithServerChunks_def has_def origin_key pushElements_def noElements_def
      sampleChunk_def)

text \<open>
  C2 at a batch of one chunk that holds no element and whose key \<open>9,9\<close> is not in the map:
  the claim has the chunk inserted; the code inserts it into its copy of the map but
  writes the copy back only when an element was collected, so the map is unchanged.
\<close>

theorem updateWithServerChunks_drops_empty_chunk:
  "\<not> has (loadedChunksRef initialWorld) (getChunkKey 9 9)
   \<and> updateWithServerChunks [emptyChunk 9 9] initialWorld = initialWorld
   \<and> \<not> has (loadedChunks (runEffects (updateWithServerChunks [emptyChunk 9 9] initialWorld)))
          (getChunkKey 9 9)"
  by (simp add: updateWithServerChunks_def runEffects_def initialWorld_def has_def
      emptyChunk_def pushElements_def noElements_def)

subsection \<open>Loading the chunks around the player\<close>

lemma fold_nested:
  "fold (\<lambda>x. fold (\<lambda>y. f x y) ys) xs v
     = fold (\<lambda>c. f (fst c) (snd c)) (concat (map (\<lambda>x. map (\<lambda>y. (x, y)) ys) xs)) v"
proof (induction xs arbitrary: v)
  case Nil
  then show ?case by simp
next
  case (Cons x xs)
  have "fold (\<lambda>y. f x y) ys v = fold (\<lambda>c. f (fst c) (snd c)) (map (\<lambda>y. (x, y)) ys) v"
    by (simp add: fold_map comp_def)
  then show ?case by (simp add: Cons.IH)
qed

lemma update_absent: "k \<notin> fst ` set m \<Longrightarrow> AList.update k v m = m @ [(k, v)]"
  by (induction m) auto

lemma has_iff: "has m k \<longleftrightarrow> k \<in> fst ` set m"
  by (simp add: has_def map_of_eq_None_iff)

lemma pushElements_assoc:
  "pushElements (pushElements a b) (allElements cs) = pushElements a (allElements (b # cs))"
  by (simp add: pushElements_def allElements_def)

lemma pushElements_none: "pushElements a (allElements []) = a"
  by (simp add: pushElements_def allElements_def)

lemma loadChunkAt_fold:
  assumes "list_all (inWorld config) cs"
    and "distinct (map keyOf cs)"
    and "set (map keyOf cs) \<inter> fst ` set (newChunks v) = {}"
  shows "fold (\<lambda>c. loadChunkAt config (fst c) (snd c)) cs v
     = \<lparr>newChunks = newChunks v @ zip (map keyOf cs) (fst (generateAll config cs (idCounters v))),
        newElements = pushElements (newElements v)
                        (allElements (fst (generateAll config cs (idCounters v)))),
        chunksChanged = (cs \<noteq> [] \<or> chunksChanged v),
        idCounters = snd (generateAll config cs (idCounters v))\<rparr>"
  using assms
proof (induction cs arbitrary: v)
  case Nil
  then show ?case by (simp add: pushElements_none)
next
  case (Cons c cs)
  obtain x y where c: "c = (x, y)" by (cases c) auto
  obtain chunk ids1 where g: "generateChunk config x y (idCounters v) = (chunk, ids1)"
    by (cases "generateChunk config x y (idCounters v)") auto
  let ?v = "\<lparr>newChunks = newChunks v @ [(keyOf c, chunk)],
             newElements = pushElements (newElements v) chunk,
             chunksChanged = True, idCounters = ids1\<rparr>"
  from Cons.prems(1) have inw: "inWorld config (x, y)" by (simp add: c)
  from Cons.prems(3) have absent: "keyOf c \<notin> fst ` set (newChunks v)" by auto
  have step: "loadChunkAt config x y v = ?v"
    using inw absent
    by (simp add: loadChunkAt_def inWorld_def has_iff keyOf_def c g update_absent)
  have rest: "fold (\<lambda>c. loadChunkAt config (fst c) (snd c)) cs ?v
     = \<lparr>newChunks = newChunks ?v @ zip (map keyOf cs) (fst (generateAll config cs (idCounters ?v))),
        newElements = pushElements (newElements ?v)
                        (allElements (fst (generateAll config cs (idCounters ?v)))),
        chunksChanged = (cs \<noteq> [] \<or> chunksChanged ?v),
        idCounters = snd (generateAll config cs (idCounters ?v))\<rparr>"
  proof (rule Cons.IH)
    show "list_all (inWorld config) cs" using Cons.prems(1) by simp
    show "distinct (map keyOf cs)" using Cons.prems(2) by simp
    show "set (map keyOf cs) \<inter> fst ` set (newChunks ?v) = {}"
      using Cons.prems(2,3) by auto
  qed
  show ?case
    by (simp add: c step [unfolded c] rest [unfolded c] g split_beta pushElements_assoc)
qed

lemma generateChunk_coords:
  "chunk_x (fst (generateChunk config x y ids)) = x"
  "chunk_y (fst (generateChunk config x y ids)) = y"
  by (simp_all add: generateChunk_def Let_def split_beta)

lemma generateAll_coords:
  "map (\<lambda>c. (chunk_x c, chunk_y c)) (fst (generateAll config cs ids)) = cs"
  by (induction cs arbitrary: ids) (auto simp: split_beta Let_def generateChunk_coords)

lemma digitsOf_digit: "n < 10 \<Longrightarrow> digitsOf n = [''0123456789'' ! n]"
  by (simp add: digitsOf.simps)

lemma centerGrid_keys:
  "map keyOf centerGrid =
     [''3,3'', ''3,4'', ''3,5'', ''3,6'', ''3,7'',
      ''4,3'', ''4,4'', ''4,5'', ''4,6'', ''4,7'',
      ''5,3'', ''5,4'', ''5,5'', ''5,6'', ''5,7'',
      ''6,3'', ''6,4'', ''6,5'', ''6,6'', ''6,7'',
      ''7,3'', ''7,4'', ''7,5'', ''7,6'', ''7,7'']"
  by (simp add: centerGrid_def keyOf_def getChunkKey_def numberToString_def digitsOf_digit)

lemma centerGrid_inWorld: "list_all (inWorld gameConfig) centerGrid"
  by (simp add: centerGrid_def inWorld_def gameConfig_def)

lemma center_range: "[5 - 2..5 + 2] = [3, 4, 5, 6, 7::int]"
  by simp

text \<open>
  C6: in the 5000 by 5000 world with chunk size 500 and render distance 2, \<open>loadChunks\<close> at
  (2500, 2500) on the empty world, with any id counters, stores exactly the 25 chunks with
  \<open>chunk_x\<close> and \<open>chunk_y\<close> in 3..7, each generated by \<open>generateChunk\<close> in the order of the
  loops, under their keys; the elements of the world afterwards are exactly the elements
  of these 25 chunks.
\<close>

theorem loadChunks_center:
  "loadChunks gameConfig \<lparr>pos_x = 2500, pos_y = 2500\<rparr> (initialWorld, ids)
     = (initialWorld
          \<lparr>loadedChunks := zip (map keyOf centerGrid) (fst (generateAll gameConfig centerGrid ids)),
           worldElements := allElements (fst (generateAll gameConfig centerGrid ids))\<rparr>,
        snd (generateAll gameConfig centerGrid ids))
   \<and> map (\<lambda>c. (chunk_x c, chunk_y c)) (fst (generateAll gameConfig centerGrid ids)) = centerGrid
   \<and> centerGrid = [(3,3), (3,4), (3,5), (3,6), (3,7), (4,3), (4,4), (4,5), (4,6), (4,7),
                    (5,3), (5,4), (5,5), (5,6), (5,7), (6,3), (6,4), (6,5), (6,6), (6,7),
                    (7,3), (7,4), (7,5), (7,6), (7,7)]
   \<and> map keyOf centerGrid =
       [''3,3'', ''3,4'', ''3,5'', ''3,6'', ''3,7'',
        ''4,3'', ''4,4'', ''4,5'', ''4,6'', ''4,7'',
        ''5,3'', ''5,4'', ''5,5'', ''5,6'', ''5,7'',
        ''6,3'', ''6,4'', ''6,5'', ''6,6'', ''6,7'',
        ''7,3'', ''7,4'', ''7,5'', ''7,6'', ''7,7'']"
proof (intro conjI)
  let ?v = "\<lparr>newChunks = loadedChunksRef initialWorld, newElements = noElements,
             chunksChanged = False, idCounters = ids\<rparr>"
  have coords: "getChunkCoordinates gameConfig \<lparr>pos_x = 2500, pos_y = 2500\<rparr> = (5, 5)"
    by (simp add: getChunkCoordinates_def gameConfig_def)
  have rd: "renderDistance gameConfig = 2" by (simp add: gameConfig_def)
  have "fold (\<lambda>x. fold (\<lambda>y. loadChunkAt gameConfig x y) [3, 4, 5, 6, 7]) [3, 4, 5, 6, 7] ?v
          = fold (\<lambda>c. loadChunkAt gameConfig (fst c) (snd c)) centerGrid ?v"
    unfolding centerGrid_def by (rule fold_nested)
  also have "\<dots> = \<lparr>newChunks = newChunks ?v
                        @ zip (map keyOf centerGrid) (fst (generateAll gameConfig centerGrid (idCounters ?v))),
        newElements = pushElements (newElements ?v)
                        (allElements (fst (generateAll gameConfig centerGrid (idCounters ?v)))),
        chunksChanged = (centerGrid \<noteq> [] \<or> chunksChanged ?v),
        idCounters = snd (generateAll gameConfig centerGrid (idCounters ?v))\<rparr>"
  proof (rule loadChunkAt_fold)
    show "list_all (inWorld gameConfig) centerGrid" by (rule centerGrid_inWorld)
    show "distinct (map keyOf centerGrid)" unfolding centerGrid_keys by simp
    show "set (map keyOf centerGrid) \<inter> fst ` set (newChunks ?v) = {}"
      by (simp add: initialWorld_def)
  qed
  finally have loop:
    "fold (\<lambda>x. fold (\<lambda>y. loadChunkAt gameConfig x y) [3, 4, 5, 6, 7]) [3, 4, 5, 6, 7] ?v
       = \<lparr>newChunks = zip (map keyOf centerGrid) (fst (generateAll gameConfig centerGrid ids)),
          newElements = allElements (fst (generateAll gameConfig centerGrid ids)),
          chunksChanged = True,
          idCounters = snd (generateAll gameConfig centerGrid ids)\<rparr>"
    by (simp add: initialWorld_def noElements_def pushElements_def allElements_def centerGrid_def)
  show "loadChunks gameConfig \<lparr>pos_x = 2500, pos_y = 2500\<rparr> (initialWorld, ids)
     = (initialWorld
          \<lparr>loadedChunks := zip (map keyOf centerGrid) (fst (generateAll gameConfig centerGrid ids)),
           worldElements := allElements (fst (generateAll gameConfig centerGrid ids))\<rparr>,
        snd (generateAll gameConfig centerGrid ids))"
    unfolding loadChunks_def
    by (simp only: coords rd center_range split_conv Let_def loop)
       (simp add: initialWorld_def noElements_def pushElements_def allElements_def)
next
  show "map (\<lambda>c. (chunk_x c, chunk_y c)) (fst (generateAll gameConfig centerGrid ids)) = centerGrid"
    by (rule generateAll_coords)
next
  show "centerGrid = [(3,3), (3,4), (3,5), (3,6), (3,7), (4,3), (4,4), (4,5), (4,6), (4,7),
                    (5,3), (5,4), (5,5), (5,6), (5,7), (6,3), (6,4), (6,5), (6,6), (6,7),
                    (7,3), (7,4), (7,5), (7,6), (7,7)]"
    by (simp add: centerGrid_def)
next
  show "map keyOf centerGrid =
       [''3,3'', ''3,4'', ''3,5'', ''3,6'', ''3,7'',
        ''4,3'', ''4,4'', ''4,5'', ''4,6'', ''4,7'',
        ''5,3'', ''5,4'', ''5,5'', ''5,6'', ''5,7'',
        ''6,3'', ''6,4'', ''6,5'', ''6,6'', ''6,7'',
        ''7,3'', ''7,4'', ''7,5'', ''7,6'', ''7,7'']"
    by (rule centerGrid_keys)
qed

section \<open>Properties of the generator\<close>

subsection \<open>No overlap among the trees and bushes of a chunk\<close>

lemma smod_bounds:
  fixes k :: int
  shows "- 233280 < k smod 233280" and "k smod 233280 < 233280"
proof -
  have m: "0 \<le> \<bar>k\<bar> mod 233280" "\<bar>k\<bar> mod 233280 < 233280" by simp_all
  consider "k < 0" | "k = 0" | "0 < k" by linarith
  then show "- 233280 < k smod 233280"
    using m by cases (simp_all add: signed_modulo_int_def)
  consider "k < 0" | "k = 0" | "0 < k" by linarith
  then show "k smod 233280 < 233280"
    using m by cases (simp_all add: signed_modulo_int_def)
qed

lemma random_range: "- 1 < fst (random s)" "fst (random s) < 1"
  using smod_bounds [of "s * 9301 + 49297"] by (simp_all add: random_def Let_def)

lemma tree_size_pos: "0 < 80 + real_of_int \<lfloor>fst (random s) * 40\<rfloor>"
proof -
  have "real_of_int (- 40) \<le> fst (random s) * 40" using random_range(1) [of s] by simp
  then have "(- 40 :: int) \<le> \<lfloor>fst (random s) * 40\<rfloor>" by (simp only: le_floor_iff)
  then have "real_of_int (- 40) \<le> real_of_int \<lfloor>fst (random s) * 40\<rfloor>" by (simp only: of_int_le_iff)
  then show ?thesis by simp
qed

lemma bush_size_pos: "0 < 40 + real_of_int \<lfloor>fst (random s) * 20\<rfloor>"
proof -
  have "real_of_int (- 20) \<le> fst (random s) * 20" using random_range(1) [of s] by simp
  then have "(- 20 :: int) \<le> \<lfloor>fst (random s) * 20\<rfloor>" by (simp only: le_floor_iff)
  then have "real_of_int (- 20) \<le> real_of_int \<lfloor>fst (random s) * 20\<rfloor>" by (simp only: of_int_le_iff)
  then show ?thesis by simp
qed

lemma no_collision_apart:
  assumes "\<not> checkCollisionWithExistingElements x y sz es"
    and "list_all wellSized es"
    and "e \<in> set es"
  shows "apart e (new\<lparr>elem_x := x, elem_y := y, elem_size := Some sz\<rparr>)"
  using assms
proof (induction es)
  case Nil
  then show ?case by simp
next
  case (Cons a es)
  from Cons.prems(2) obtain sa where sa: "elem_size a = Some sa" "sa \<noteq> 0"
    by (auto simp: wellSized_def split: option.splits)
  then have so: "sizeOr 10 a = sa" by (simp add: sizeOr_def)
  from Cons.prems(1) have far: "\<not> sqrt ((x + sz / 2 - (elem_x a + sa / 2))\<^sup>2
                           + (y + sz / 2 - (elem_y a + sa / 2))\<^sup>2) < sz / 2 + sa / 2 + 10"
    and rest: "\<not> checkCollisionWithExistingElements x y sz es"
    by (auto simp: Let_def so split: if_splits)
  show ?case
  proof (cases "e = a")
    case True
    have "(elem_x a + sa / 2 - (x + sz / 2))\<^sup>2 = (x + sz / 2 - (elem_x a + sa / 2))\<^sup>2"
      and "(elem_y a + sa / 2 - (y + sz / 2))\<^sup>2 = (y + sz / 2 - (elem_y a + sa / 2))\<^sup>2"
      by (rule power2_commute)+
    with far show ?thesis by (simp add: True apart_def sa)
  next
    case False
    with Cons.prems(3) have "e \<in> set es" by simp
    with rest Cons.prems(2) show ?thesis by (simp add: Cons.IH)
  qed
qed

lemma findPosition_free:
  assumes "findPosition n ox oy cs sz es st = (Some (x, y), st')"
  shows "\<not> checkCollisionWithExistingElements x y sz es"
  using assms
proof (induction n arbitrary: st)
  case 0
  then show ?case by simp
next
  case (Suc n)
  then show ?case
    by (auto simp: Let_def split_beta split: if_splits)
qed

lemma placed_snoc:
  assumes "placed es"
    and "\<not> checkCollisionWithExistingElements x y sz es"
    and "sz \<noteq> 0"
  shows "placed (es @ [new\<lparr>elem_x := x, elem_y := y, elem_size := Some sz\<rparr>])"
proof -
  from assms(1) have s: "sorted_wrt apart es" and w: "list_all wellSized es"
    by (simp_all add: placed_def)
  have "\<forall>e \<in> set es. apart e (new\<lparr>elem_x := x, elem_y := y, elem_size := Some sz\<rparr>)"
    using assms(2) w by (auto intro: no_collision_apart)
  with s w assms(3) show ?thesis
    by (simp add: placed_def sorted_wrt_append wellSized_def)
qed

lemma treesLoop_placed:
  assumes "placed ts"
  shows "placed (fst (treesLoop n ox oy cs (ts, st, nid)))"
  using assms
proof (induction n arbitrary: ts st nid)
  case 0
  then show ?case by simp
next
  case (Suc n)
  let ?sz = "80 + real_of_int \<lfloor>fst (random st) * 40\<rfloor>"
  let ?st2 = "snd (random (snd (random st)))"
  obtain found st3 where f: "findPosition 50 ox oy cs ?sz ts ?st2 = (found, st3)"
    by (cases "findPosition 50 ox oy cs ?sz ts ?st2") auto
  show ?case
  proof (cases found)
    case None
    with f Suc.prems show ?thesis
      by (simp add: Let_def split_beta Suc.IH)
  next
    case (Some p)
    obtain x y where p: "p = (x, y)" by (cases p) auto
    from f have free: "\<not> checkCollisionWithExistingElements x y ?sz ts"
      unfolding Some p by (rule findPosition_free)
    have nz: "?sz \<noteq> 0" using tree_size_pos [of st] by simp
    let ?new = "\<lparr>elem_id = nid, elem_x = x, elem_y = y, elem_size = Some ?sz,
        color = Hsl (110 + fst (random st3) * 30)
                    (70 + fst (random (snd (random st3))) * 10)
                    (35 + fst (random (snd (random (snd (random st3))))) * 15),
        variant = \<lfloor>fst (random (snd (random st))) * 3\<rfloor>\<rparr>"
    have "placed (ts @ [?new\<lparr>elem_x := x, elem_y := y, elem_size := Some ?sz\<rparr>])"
      using Suc.prems free nz by (rule placed_snoc)
    then have "placed (ts @ [?new])" by simp
    then show ?thesis
      using f by (simp add: Let_def split_beta Some p Suc.IH)
  qed
qed

lemma bushesLoop_placed:
  assumes "placed (existing @ bs)"
  shows "placed (existing @ fst (bushesLoop n ox oy cs existing (bs, st, nid)))"
  using assms
proof (induction n arbitrary: bs st nid)
  case 0
  then show ?case by simp
next
  case (Suc n)
  let ?sz = "40 + real_of_int \<lfloor>fst (random st) * 20\<rfloor>"
  let ?st2 = "snd (random (snd (random st)))"
  obtain found st3 where f: "findPosition 50 ox oy cs ?sz (existing @ bs) ?st2 = (found, st3)"
    by (cases "findPosition 50 ox oy cs ?sz (existing @ bs) ?st2") auto
  show ?case
  proof (cases found)
    case None
    with f Suc.prems show ?thesis
      by (simp add: Let_def split_beta Suc.IH)
  next
    case (Some p)
    obtain x y where p: "p = (x, y)" by (cases p) auto
    from f have free: "\<not> checkCollisionWithExistingElements x y ?sz (existing @ bs)"
      unfolding Some p by (rule findPosition_free)
    have nz: "?sz \<noteq> 0" using bush_size_pos [of st] by simp
    let ?new = "\<lparr>elem_id = nid, elem_x = x, elem_y = y, elem_size = Some ?sz,
        color = Hsl (100 + fst (random st3) * 50)
                    (65 + fst (random (snd (random st3))) * 15)
                    (30 + fst (random (snd (random (snd (random st3))))) * 15),
        variant = \<lfloor>fst (random (snd (random st))) * 3\<rfloor>\<rparr>"
    have "placed ((existing @ bs) @ [?new\<lparr>elem_x := x, elem_y := y, elem_size := Some ?sz\<rparr>])"
      using Suc.prems free nz by (rule placed_snoc)
    then have "placed (existing @ (bs @ [?new]))" by simp
    then show ?thesis
      using f by (simp add: Let_def split_beta Some p Suc.IH)
  qed
qed

lemma generateTrees_placed: "placed (fst (generateTrees ox oy cs n seed nid))"
proof -
  have "placed ([] :: Tree list)" by (simp add: placed_def)
  then have "placed (fst (treesLoop (nat n) ox oy cs ([], createSeededRandom seed, nid)))"
    by (rule treesLoop_placed)
  then show ?thesis by (simp add: generateTrees_def split_beta)
qed

lemma generateBushes_placed:
  assumes "placed existing"
  shows "placed (existing @ fst (generateBushes ox oy cs n seed existing nid))"
proof -
  from assms have "placed (existing @ [])" by simp
  then have "placed (existing @ fst (bushesLoop (nat n) ox oy cs existing
                ([], createSeededRandom seed, nid)))"
    by (rule bushesLoop_placed)
  then show ?thesis by (simp add: generateBushes_def split_beta)
qed

lemma generateChunk_placed:
  "placed (trees (fst (generateChunk config x y ids)) @ bushes (fst (generateChunk config x y ids)))"
  by (simp add: generateChunk_def Let_def split_beta generateBushes_placed generateTrees_placed)

text \<open>
  C8: in every chunk that \<open>generateChunk\<close> produces, any two different elements of the list
  of its trees followed by its bushes (two trees, a tree and a bush, or two bushes) are
  apart: the distance between their centres is at least \<open>size_a/2 + size_b/2 + 10\<close>.
\<close>

theorem generateChunk_no_overlap:
  assumes "i < j"
    and "j < length (trees (fst (generateChunk config x y ids))
                     @ bushes (fst (generateChunk config x y ids)))"
  shows "apart ((trees (fst (generateChunk config x y ids))
                 @ bushes (fst (generateChunk config x y ids))) ! i)
               ((trees (fst (generateChunk config x y ids))
                 @ bushes (fst (generateChunk config x y ids))) ! j)"
proof -
  have "sorted_wrt apart (trees (fst (generateChunk config x y ids))
                          @ bushes (fst (generateChunk config x y ids)))"
    using generateChunk_placed [of config x y ids] by (simp only: placed_def)
  then show ?thesis using assms by (simp only: sorted_wrt_iff_nth_less)
qed


lemma sqrt_less_iff_sq:
  fixes d r :: real
  assumes "0 \<le> d"
  shows "sqrt d < r \<longleftrightarrow> 0 < r \<and> d < r\<^sup>2"
proof (cases "0 < r")
  case True
  then have "sqrt d < r \<longleftrightarrow> sqrt d < sqrt (r\<^sup>2)" by simp
  also have "\<dots> \<longleftrightarrow> d < r\<^sup>2" by (rule real_sqrt_less_iff)
  finally show ?thesis using True by simp
next
  case False
  with assms have "r \<le> sqrt d" by (simp add: order_trans [of r 0])
  with False show ?thesis by simp
qed

lemma checkCollision_step:
  "checkCollisionWithExistingElements x y sz (e # es) =
     (if 0 < sz / 2 + sizeOr 10 e / 2 + 10
         \<and> (x + sz / 2 - (elem_x e + sizeOr 10 e / 2))\<^sup>2
             + (y + sz / 2 - (elem_y e + sizeOr 10 e / 2))\<^sup>2
           < (sz / 2 + sizeOr 10 e / 2 + 10)\<^sup>2
      then True else checkCollisionWithExistingElements x y sz es)"
  by (simp add: Let_def sqrt_less_iff_sq)

lemma random_eval:
  "random s = (real_of_int ((s * 9301 + 49297) smod 233280) / 233280, (s * 9301 + 49297) smod 233280)"
  by (simp add: random_def Let_def)

lemma smod_eval: "(numeral a :: int) smod numeral b = numeral a mod numeral b"
  by (simp add: signed_modulo_int_def)

lemma findPosition_50:
  "findPosition 50 ox oy cs sz es st =
     (let (r1, state1) = random st;
          x = ox + of_int \<lfloor>r1 * (cs - sz)\<rfloor>;
          (r2, state2) = random state1;
          y = oy + of_int \<lfloor>r2 * (cs - sz)\<rfloor>
      in if \<not> checkCollisionWithExistingElements x y sz es
         then (Some (x, y), state2)
         else findPosition 49 ox oy cs sz es state2)"
proof -
  have "(50::nat) = Suc 49" by simp
  then show ?thesis by (simp only: findPosition.simps)
qed

lemma first_tree:
  "treesLoop (Suc n) 0 0 500 ([], 0, 1000000) = treesLoop n 0 0 500 ([firstTree], 87499, 1000001)"
  by (simp add: findPosition_50 random_eval smod_eval Let_def firstTree_def)

lemma second_tree:
  "treesLoop (Suc n) 0 0 500 ([firstTree], 87499, 1000001)
     = treesLoop n 0 0 500 ([firstTree, secondTree], 70538, 1000002)"
  by (simp add: findPosition_50 random_eval smod_eval Let_def firstTree_def secondTree_def
      checkCollision_step sizeOr_def power2_eq_square
      del: checkCollisionWithExistingElements.simps(2))


lemma treesLoop_prefix:
  "\<exists>rest. fst (treesLoop n ox oy cs (ts, st, nid)) = ts @ rest"
proof (induction n arbitrary: ts st nid)
  case 0
  then show ?case by simp
next
  case (Suc n)
  let ?sz = "80 + real_of_int \<lfloor>fst (random st) * 40\<rfloor>"
  let ?st2 = "snd (random (snd (random st)))"
  obtain found st3 where f: "findPosition 50 ox oy cs ?sz ts ?st2 = (found, st3)"
    by (cases "findPosition 50 ox oy cs ?sz ts ?st2") auto
  show ?case
  proof (cases found)
    case None
    with f show ?thesis by (simp add: Let_def split_beta Suc.IH)
  next
    case (Some p)
    obtain x y where p: "p = (x, y)" by (cases p) auto
    let ?new = "\<lparr>elem_id = nid, elem_x = x, elem_y = y, elem_size = Some ?sz,
        color = Hsl (110 + fst (random st3) * 30)
                    (70 + fst (random (snd (random st3))) * 10)
                    (35 + fst (random (snd (random (snd (random st3))))) * 15),
        variant = \<lfloor>fst (random (snd (random st))) * 3\<rfloor>\<rparr>"
    let ?st6 = "snd (random (snd (random (snd (random st3)))))"
    from Suc.IH [of "ts @ [?new]" ?st6 "nid + 1"]
    obtain rest where "fst (treesLoop n ox oy cs (ts @ [?new], ?st6, nid + 1)) = (ts @ [?new]) @ rest"
      by blast
    then have "fst (treesLoop (Suc n) ox oy cs (ts, st, nid)) = ts @ (?new # rest)"
      using f by (simp add: Let_def split_beta Some p)
    then show ?thesis by blast
  qed
qed

lemma origin_trees_count:
  "trees (fst (generateChunk gameConfig 0 0 initialIds))
     = fst (treesLoop 10 0 0 500 ([], 0, 1000000))"
  by (simp add: generateChunk_def Let_def split_beta generateTrees_def createSeededRandom_def
      gameConfig_def initialIds_def)

lemma origin_first_two:
  "\<exists>rest. trees (fst (generateChunk gameConfig 0 0 initialIds))
             @ bushes (fst (generateChunk gameConfig 0 0 initialIds))
           = firstTree # secondTree # rest"
proof -
  have "(10::nat) = Suc (Suc 8)" by simp
  then have "treesLoop 10 0 0 500 ([], 0, 1000000)
               = treesLoop 8 0 0 500 ([firstTree, secondTree], 70538, 1000002)"
    by (simp only: first_tree second_tree)
  moreover obtain rest where
    "fst (treesLoop 8 0 0 500 ([firstTree, secondTree], 70538, 1000002))
       = [firstTree, secondTree] @ rest"
    using treesLoop_prefix by blast
  ultimately show ?thesis by (simp add: origin_trees_count)
qed

text \<open>The first two trees of the chunk at the origin of the game's world.\<close>

theorem generateChunk_no_overlap_witness:
  "(0::nat) < 1
   \<and> 1 < length (trees (fst (generateChunk gameConfig 0 0 initialIds))
                 @ bushes (fst (generateChunk gameConfig 0 0 initialIds)))
   \<and> (trees (fst (generateChunk gameConfig 0 0 initialIds))
        @ bushes (fst (generateChunk gameConfig 0 0 initialIds))) ! 0 = firstTree
   \<and> (trees (fst (generateChunk gameConfig 0 0 initialIds))
        @ bushes (fst (generateChunk gameConfig 0 0 initialIds))) ! 1 = secondTree
   \<and> apart firstTree secondTree"
proof -
  obtain rest where r: "trees (fst (generateChunk gameConfig 0 0 initialIds))
             @ bushes (fst (generateChunk gameConfig 0 0 initialIds))
           = firstTree # secondTree # rest"
    using origin_first_two by blast
  have a: "(0::nat) < 1" by simp
  have b: "1 < length (trees (fst (generateChunk gameConfig 0 0 initialIds))
                 @ bushes (fst (generateChunk gameConfig 0 0 initialIds)))"
    by (simp add: r)
  from generateChunk_no_overlap [OF a b] show ?thesis by (simp add: r)
qed

subsection \<open>Determinism of the chunk generator\<close>

lemma eraseId_fields [simp]:
  "elem_x (eraseId e) = elem_x e" "elem_y (eraseId e) = elem_y e"
  "elem_size (eraseId e) = elem_size e" "sizeOr d (eraseId e) = sizeOr d e"
  by (simp_all add: eraseId_def sizeOr_def)

lemma checkCollision_erased:
  "checkCollisionWithExistingElements x y sz (map eraseId es)
     = checkCollisionWithExistingElements x y sz es"
  by (induction es) (simp_all add: Let_def)

lemma checkCollision_cong:
  assumes "map eraseId es = map eraseId es'"
  shows "checkCollisionWithExistingElements x y sz es
           = checkCollisionWithExistingElements x y sz es'"
  using checkCollision_erased [of x y sz es] checkCollision_erased [of x y sz es'] assms
  by simp

lemma flowerBlocked_erased: "flowerBlocked x y (map eraseId es) = flowerBlocked x y es"
  by (induction es) (simp_all add: Let_def)

lemma flowerBlocked_cong:
  assumes "map eraseId es = map eraseId es'"
  shows "flowerBlocked x y es = flowerBlocked x y es'"
  using flowerBlocked_erased [of x y es] flowerBlocked_erased [of x y es'] assms
  by simp

lemma findPosition_cong:
  assumes "map eraseId es = map eraseId es'"
  shows "findPosition n ox oy cs sz es st = findPosition n ox oy cs sz es' st"
proof (induction n arbitrary: st)
  case 0
  then show ?case by simp
next
  case (Suc n)
  then show ?case
    by (simp add: Let_def split_beta checkCollision_cong [OF assms])
qed

lemma numbered_Nil: "numbered first []"
  by (simp add: numbered_def)

lemma numbered_snoc:
  assumes "numbered first es" and "elem_id e = first + int (length es)"
  shows "numbered first (es @ [e])"
  using assms by (simp add: numbered_def)

lemma treesLoop_shape:
  assumes "map eraseId ts = map eraseId ts'"
  shows "map eraseId (fst (treesLoop n ox oy cs (ts, st, nid)))
           = map eraseId (fst (treesLoop n ox oy cs (ts', st, nid')))"
  using assms
proof (induction n arbitrary: ts ts' st nid nid')
  case 0
  then show ?case by simp
next
  case (Suc n)
  let ?sz = "80 + real_of_int \<lfloor>fst (random st) * 40\<rfloor>"
  let ?st2 = "snd (random (snd (random st)))"
  have same: "findPosition 50 ox oy cs ?sz ts ?st2 = findPosition 50 ox oy cs ?sz ts' ?st2"
    using Suc.prems by (rule findPosition_cong)
  obtain found st3 where f: "findPosition 50 ox oy cs ?sz ts' ?st2 = (found, st3)"
    by (cases "findPosition 50 ox oy cs ?sz ts' ?st2") auto
  show ?case
  proof (cases found)
    case None
    with f same Suc.prems show ?thesis
      by (simp add: Let_def split_beta Suc.IH)
  next
    case (Some p)
    obtain x y where p: "p = (x, y)" by (cases p) auto
    let ?new = "\<lambda>i. \<lparr>elem_id = i, elem_x = x, elem_y = y, elem_size = Some ?sz,
        color = Hsl (110 + fst (random st3) * 30)
                    (70 + fst (random (snd (random st3))) * 10)
                    (35 + fst (random (snd (random (snd (random st3))))) * 15),
        variant = \<lfloor>fst (random (snd (random st))) * 3\<rfloor>\<rparr>"
    let ?st6 = "snd (random (snd (random (snd (random st3)))))"
    have "eraseId (?new nid) = eraseId (?new nid')" by (simp add: eraseId_def)
    with Suc.prems have "map eraseId (ts @ [?new nid]) = map eraseId (ts' @ [?new nid'])"
      by simp
    then have "map eraseId (fst (treesLoop n ox oy cs (ts @ [?new nid], ?st6, nid + 1)))
             = map eraseId (fst (treesLoop n ox oy cs (ts' @ [?new nid'], ?st6, nid' + 1)))"
      by (rule Suc.IH)
    then show ?thesis
      using f same by (simp add: Let_def split_beta Some p)
  qed
qed

lemma treesLoop_numbered:
  assumes "numbered first ts" and "nid = first + int (length ts)"
  shows "numbered first (fst (treesLoop n ox oy cs (ts, st, nid)))
         \<and> snd (snd (treesLoop n ox oy cs (ts, st, nid)))
             = first + int (length (fst (treesLoop n ox oy cs (ts, st, nid))))"
  using assms
proof (induction n arbitrary: ts st nid)
  case 0
  then show ?case by simp
next
  case (Suc n)
  let ?sz = "80 + real_of_int \<lfloor>fst (random st) * 40\<rfloor>"
  let ?st2 = "snd (random (snd (random st)))"
  obtain found st3 where f: "findPosition 50 ox oy cs ?sz ts ?st2 = (found, st3)"
    by (cases "findPosition 50 ox oy cs ?sz ts ?st2") auto
  show ?case
  proof (cases found)
    case None
    with f Suc.prems show ?thesis
      by (simp add: Let_def split_beta Suc.IH)
  next
    case (Some p)
    obtain x y where p: "p = (x, y)" by (cases p) auto
    let ?new = "\<lparr>elem_id = nid, elem_x = x, elem_y = y, elem_size = Some ?sz,
        color = Hsl (110 + fst (random st3) * 30)
                    (70 + fst (random (snd (random st3))) * 10)
                    (35 + fst (random (snd (random (snd (random st3))))) * 15),
        variant = \<lfloor>fst (random (snd (random st))) * 3\<rfloor>\<rparr>"
    let ?st6 = "snd (random (snd (random (snd (random st3)))))"
    have n: "numbered first (ts @ [?new])"
      using Suc.prems by (intro numbered_snoc) simp_all
    have i: "nid + 1 = first + int (length (ts @ [?new]))"
      using Suc.prems(2) by simp
    from Suc.IH [OF n i, of ?st6] show ?thesis
      using f by (simp add: Let_def split_beta Some p)
  qed
qed

lemma bushesLoop_shape:
  assumes "map eraseId bs = map eraseId bs'" and "map eraseId ex = map eraseId ex'"
  shows "map eraseId (fst (bushesLoop n ox oy cs ex (bs, st, nid)))
           = map eraseId (fst (bushesLoop n ox oy cs ex' (bs', st, nid')))"
  using assms(1)
proof (induction n arbitrary: bs bs' st nid nid')
  case 0
  then show ?case by simp
next
  case (Suc n)
  let ?sz = "40 + real_of_int \<lfloor>fst (random st) * 20\<rfloor>"
  let ?st2 = "snd (random (snd (random st)))"
  have "map eraseId (ex @ bs) = map eraseId (ex' @ bs')"
    using Suc.prems assms(2) by simp
  then have same: "findPosition 50 ox oy cs ?sz (ex @ bs) ?st2
                     = findPosition 50 ox oy cs ?sz (ex' @ bs') ?st2"
    by (rule findPosition_cong)
  obtain found st3 where f: "findPosition 50 ox oy cs ?sz (ex' @ bs') ?st2 = (found, st3)"
    by (cases "findPosition 50 ox oy cs ?sz (ex' @ bs') ?st2") auto
  show ?case
  proof (cases found)
    case None
    with f same Suc.prems show ?thesis
      by (simp add: Let_def split_beta Suc.IH)
  next
    case (Some p)
    obtain x y where p: "p = (x, y)" by (cases p) auto
    let ?new = "\<lambda>i. \<lparr>elem_id = i, elem_x = x, elem_y = y, elem_size = Some ?sz,
        color = Hsl (100 + fst (random st3) * 50)
                    (65 + fst (random (snd (random st3))) * 15)
                    (30 + fst (random (snd (random (snd (random st3))))) * 15),
        variant = \<lfloor>fst (random (snd (random st))) * 3\<rfloor>\<rparr>"
    let ?st6 = "snd (random (snd (random (snd (random st3)))))"
    have "eraseId (?new nid) = eraseId (?new nid')" by (simp add: eraseId_def)
    with Suc.prems have "map eraseId (bs @ [?new nid]) = map eraseId (bs' @ [?new nid'])"
      by simp
    then have "map eraseId (fst (bushesLoop n ox oy cs ex (bs @ [?new nid], ?st6, nid + 1)))
             = map eraseId (fst (bushesLoop n ox oy cs ex' (bs' @ [?new nid'], ?st6, nid' + 1)))"
      by (rule Suc.IH)
    then show ?thesis
      using f same by (simp add: Let_def split_beta Some p)
  qed
qed

lemma bushesLoop_numbered:
  assumes "numbered first bs" and "nid = first + int (length bs)"
  shows "numbered first (fst (bushesLoop n ox oy cs ex (bs, st, nid)))
         \<and> snd (snd (bushesLoop n ox oy cs ex (bs, st, nid)))
             = first + int (length (fst (bushesLoop n ox oy cs ex (bs, st, nid))))"
  using assms
proof (induction n arbitrary: bs st nid)
  case 0
  then show ?case by simp
next
  case (Suc n)
  let ?sz = "40 + real_of_int \<lfloor>fst (random st) * 20\<rfloor>"
  let ?st2 = "snd (random (snd (random st)))"
  obtain found st3 where f: "findPosition 50 ox oy cs ?sz (ex @ bs) ?st2 = (found, st3)"
    by (cases "findPosition 50 ox oy cs ?sz (ex @ bs) ?st2") auto
  show ?case
  proof (cases found)
    case None
    with f Suc.prems show ?thesis
      by (simp add: Let_def split_beta Suc.IH)
  next
    case (Some p)
    obtain x y where p: "p = (x, y)" by (cases p) auto
    let ?new = "\<lparr>elem_id = nid, elem_x = x, elem_y = y, elem_size = Some ?sz,
        color = Hsl (100 + fst (random st3) * 50)
                    (65 + fst (random (snd (random st3))) * 15)
                    (30 + fst (random (snd (random (snd (random st3))))) * 15),
        variant = \<lfloor>fst (random (snd (random st))) * 3\<rfloor>\<rparr>"
    let ?st6 = "snd (random (snd (random (snd (random st3)))))"
    have n: "numbered first (bs @ [?new])"
      using Suc.prems by (intro numbered_snoc) simp_all
    have i: "nid + 1 = first + int (length (bs @ [?new]))"
      using Suc.prems(2) by simp
    from Suc.IH [OF n i, of ?st6] show ?thesis
      using f by (simp add: Let_def split_beta Some p)
  qed
qed

lemma flowersLoop_shape:
  assumes "map eraseId fs = map eraseId fs'" and "map eraseId ex = map eraseId ex'"
  shows "map eraseId (fst (flowersLoop n ox oy cs ex (fs, st, nid)))
           = map eraseId (fst (flowersLoop n ox oy cs ex' (fs', st, nid')))"
  using assms(1)
proof (induction n arbitrary: fs fs' st nid nid')
  case 0
  then show ?case by simp
next
  case (Suc n)
  let ?x = "ox + real_of_int \<lfloor>fst (random st) * cs\<rfloor>"
  let ?y = "oy + real_of_int \<lfloor>fst (random (snd (random st))) * cs\<rfloor>"
  let ?st3 = "snd (random (snd (random (snd (random st)))))"
  let ?new = "\<lambda>i. \<lparr>elem_id = i, elem_x = ?x, elem_y = ?y, elem_size = None,
      flowerColor = paletteAt \<lfloor>fst (random (snd (random (snd (random st)))))
                                * real (length flowerColors)\<rfloor>\<rparr>"
  have same: "flowerBlocked ?x ?y ex = flowerBlocked ?x ?y ex'"
    using assms(2) by (rule flowerBlocked_cong)
  show ?case
  proof (cases "flowerBlocked ?x ?y ex'")
    case True
    with same Suc.prems show ?thesis
      by (simp add: Let_def split_beta Suc.IH)
  next
    case False
    have "eraseId (?new nid) = eraseId (?new nid')" by (simp add: eraseId_def)
    with Suc.prems have "map eraseId (fs @ [?new nid]) = map eraseId (fs' @ [?new nid'])"
      by simp
    then have "map eraseId (fst (flowersLoop n ox oy cs ex (fs @ [?new nid], ?st3, nid + 1)))
             = map eraseId (fst (flowersLoop n ox oy cs ex' (fs' @ [?new nid'], ?st3, nid' + 1)))"
      by (rule Suc.IH)
    with False same show ?thesis
      by (simp add: Let_def split_beta)
  qed
qed

lemma flowersLoop_numbered:
  assumes "numbered first fs" and "nid = first + int (length fs)"
  shows "numbered first (fst (flowersLoop n ox oy cs ex (fs, st, nid)))
         \<and> snd (snd (flowersLoop n ox oy cs ex (fs, st, nid)))
             = first + int (length (fst (flowersLoop n ox oy cs ex (fs, st, nid))))"
  using assms
proof (induction n arbitrary: fs st nid)
  case 0
  then show ?case by simp
next
  case (Suc n)
  let ?x = "ox + real_of_int \<lfloor>fst (random st) * cs\<rfloor>"
  let ?y = "oy + real_of_int \<lfloor>fst (random (snd (random st))) * cs\<rfloor>"
  let ?st3 = "snd (random (snd (random (snd (random st)))))"
  let ?new = "\<lparr>elem_id = nid, elem_x = ?x, elem_y = ?y, elem_size = None,
      flowerColor = paletteAt \<lfloor>fst (random (snd (random (snd (random st)))))
                                * real (length flowerColors)\<rfloor>\<rparr>"
  show ?case
  proof (cases "flowerBlocked ?x ?y ex")
    case True
    with Suc.prems show ?thesis
      by (simp add: Let_def split_beta Suc.IH)
  next
    case False
    have n: "numbered first (fs @ [?new])"
      using Suc.prems by (intro numbered_snoc) simp_all
    have i: "nid + 1 = first + int (length (fs @ [?new]))"
      using Suc.prems(2) by simp
    from Suc.IH [OF n i, of ?st3] False show ?thesis
      by (simp add: Let_def split_beta)
  qed
qed


lemma generateTrees_shape:
  "map eraseId (fst (generateTrees ox oy cs n seed nid))
     = map eraseId (fst (generateTrees ox oy cs n seed nid'))"
  by (simp add: generateTrees_def split_beta treesLoop_shape)

lemma generateBushes_shape:
  assumes "map eraseId ex = map eraseId ex'"
  shows "map eraseId (fst (generateBushes ox oy cs n seed ex nid))
           = map eraseId (fst (generateBushes ox oy cs n seed ex' nid'))"
  using assms by (simp add: generateBushes_def split_beta bushesLoop_shape)

lemma generateFlowers_shape:
  assumes "map eraseId ex = map eraseId ex'"
  shows "map eraseId (fst (generateFlowers ox oy cs n seed ex nid))
           = map eraseId (fst (generateFlowers ox oy cs n seed ex' nid'))"
  using assms by (simp add: generateFlowers_def split_beta flowersLoop_shape)

lemma generateTrees_numbered:
  "numbered nid (fst (generateTrees ox oy cs n seed nid))"
  "snd (generateTrees ox oy cs n seed nid)
     = nid + int (length (fst (generateTrees ox oy cs n seed nid)))"
  using treesLoop_numbered [of nid "[]" nid "nat n" ox oy cs "createSeededRandom seed"]
  by (simp_all add: generateTrees_def split_beta numbered_Nil)

lemma generateBushes_numbered:
  "numbered nid (fst (generateBushes ox oy cs n seed ex nid))"
  "snd (generateBushes ox oy cs n seed ex nid)
     = nid + int (length (fst (generateBushes ox oy cs n seed ex nid)))"
  using bushesLoop_numbered [of nid "[]" nid "nat n" ox oy cs ex "createSeededRandom seed"]
  by (simp_all add: generateBushes_def split_beta numbered_Nil)

lemma generateFlowers_numbered:
  "numbered nid (fst (generateFlowers ox oy cs n seed ex nid))"
  "snd (generateFlowers ox oy cs n seed ex nid)
     = nid + int (length (fst (generateFlowers ox oy cs n seed ex nid)))"
  using flowersLoop_numbered [of nid "[]" nid "nat n" ox oy cs ex "createSeededRandom seed"]
  by (simp_all add: generateFlowers_def split_beta numbered_Nil)

lemma generateChunk_shape:
  "eraseIds (fst (generateChunk config x y ids)) = eraseIds (fst (generateChunk config x y ids'))"
proof -
  let ?ox = "of_int x * chunkSize config" and ?oy = "of_int y * chunkSize config"
  let ?seed = "x * 10000 + y"
  let ?tn = "5 + \<lfloor>(sin (real_of_int ?seed) + 1) * 5\<rfloor>"
  let ?bn = "8 + \<lfloor>(cos (real_of_int ?seed) + 1) * 7\<rfloor>"
  let ?fn = "15 + \<lfloor>(sin (real_of_int ?seed * 0.1) + 1) * 10\<rfloor>"
  let ?ts = "\<lambda>i. fst (generateTrees ?ox ?oy (chunkSize config) ?tn ?seed (nextTreeId i))"
  let ?bs = "\<lambda>i. fst (generateBushes ?ox ?oy (chunkSize config) ?bn (?seed + 1) (?ts i) (nextBushId i))"
  let ?fs = "\<lambda>i. fst (generateFlowers ?ox ?oy (chunkSize config) ?fn (?seed + 2)
                        (?ts i @ ?bs i) (nextFlowerId i))"
  have t: "map eraseId (?ts ids) = map eraseId (?ts ids')" by (rule generateTrees_shape)
  then have b: "map eraseId (?bs ids) = map eraseId (?bs ids')" by (rule generateBushes_shape)
  from t b have "map eraseId (?ts ids @ ?bs ids) = map eraseId (?ts ids' @ ?bs ids')" by simp
  then have f: "map eraseId (?fs ids) = map eraseId (?fs ids')" by (rule generateFlowers_shape)
  from t b f show ?thesis
    by (simp add: generateChunk_def Let_def split_beta eraseIds_def)
qed

text \<open>
  C3: for all chunk coordinates and a fixed configuration, two runs of \<open>generateChunk\<close>
  from any two states of the id counters produce the same chunk up to the ids: the same
  numbers of trees, bushes and flowers and, element by element, the same \<open>x\<close>, \<open>y\<close>, size,
  colour and variant. The ids of a run count up from the counters it starts with, and the
  counters advance by the numbers of elements; so two runs from the same counters (the
  counters reset in between) give the same ids as well.
\<close>

theorem generateChunk_deterministic:
  "eraseIds (fst (generateChunk config x y ids)) = eraseIds (fst (generateChunk config x y ids'))
   \<and> length (trees (fst (generateChunk config x y ids)))
       = length (trees (fst (generateChunk config x y ids')))
   \<and> length (bushes (fst (generateChunk config x y ids)))
       = length (bushes (fst (generateChunk config x y ids')))
   \<and> length (flowers (fst (generateChunk config x y ids)))
       = length (flowers (fst (generateChunk config x y ids')))
   \<and> numbered (nextTreeId ids) (trees (fst (generateChunk config x y ids)))
   \<and> numbered (nextBushId ids) (bushes (fst (generateChunk config x y ids)))
   \<and> numbered (nextFlowerId ids) (flowers (fst (generateChunk config x y ids)))
   \<and> nextTreeId (snd (generateChunk config x y ids))
       = nextTreeId ids + int (length (trees (fst (generateChunk config x y ids))))
   \<and> nextBushId (snd (generateChunk config x y ids))
       = nextBushId ids + int (length (bushes (fst (generateChunk config x y ids))))
   \<and> nextFlowerId (snd (generateChunk config x y ids))
       = nextFlowerId ids + int (length (flowers (fst (generateChunk config x y ids))))"
proof -
  have s: "eraseIds (fst (generateChunk config x y ids))
             = eraseIds (fst (generateChunk config x y ids'))"
    by (rule generateChunk_shape)
  from s have "map eraseId (trees (fst (generateChunk config x y ids)))
                 = map eraseId (trees (fst (generateChunk config x y ids')))"
    by (simp add: eraseIds_def)
  then have lt: "length (trees (fst (generateChunk config x y ids)))
       = length (trees (fst (generateChunk config x y ids')))"
    by (rule map_eq_imp_length_eq)
  from s have "map eraseId (bushes (fst (generateChunk config x y ids)))
                 = map eraseId (bushes (fst (generateChunk config x y ids')))"
    by (simp add: eraseIds_def)
  then have lb: "length (bushes (fst (generateChunk config x y ids)))
       = length (bushes (fst (generateChunk config x y ids')))"
    by (rule map_eq_imp_length_eq)
  from s have "map eraseId (flowers (fst (generateChunk config x y ids)))
                 = map eraseId (flowers (fst (generateChunk config x y ids')))"
    by (simp add: eraseIds_def)
  then have lf: "length (flowers (fst (generateChunk config x y ids)))
       = length (flowers (fst (generateChunk config x y ids')))"
    by (rule map_eq_imp_length_eq)
  have n: "numbered (nextTreeId ids) (trees (fst (generateChunk config x y ids)))"
    "numbered (nextBushId ids) (bushes (fst (generateChunk config x y ids)))"
    "numbered (nextFlowerId ids) (flowers (fst (generateChunk config x y ids)))"
    by (simp_all add: generateChunk_def Let_def split_beta generateTrees_numbered
        generateBushes_numbered generateFlowers_numbered)
  have c: "nextTreeId (snd (generateChunk config x y ids))
       = nextTreeId ids + int (length (trees (fst (generateChunk config x y ids))))"
    "nextBushId (snd (generateChunk config x y ids))
       = nextBushId ids + int (length (bushes (fst (generateChunk config x y ids))))"
    "nextFlowerId (snd (generateChunk config x y ids))
       = nextFlowerId ids + int (length (flowers (fst (generateChunk config x y ids))))"
    by (simp_all add: generateChunk_def Let_def split_beta generateTrees_numbered(2)
        generateBushes_numbered(2) generateFlowers_numbered(2))
  show ?thesis
    apply (intro conjI)
    apply (rule s)
    apply (rule lt)
    apply (rule lb)
    apply (rule lf)
    apply (rule n(1))
    apply (rule n(2))
    apply (rule n(3))
    apply (rule c(1))
    apply (rule c(2))
    apply (rule c(3))
    done
qed

end
